(* ===== verification/Hx_Prelude.thy ===== *)
theory Hx_Prelude
  imports Main "HOL-Library.Word" "HOL-Library.AList"
begin

text \<open>
  Shared vocabulary of the development.

  \<^item> The machine integers of the Rust sources: \<open>u8\<close>, \<open>u16\<close>, \<open>u32\<close> are words of their
    width; a Rust string is the list of its UTF-8 bytes, as \<open>string\<close>; a byte buffer is a
    \<open>u8\<close> list.
  \<^item> The standard-library string and slice operations the sources call
    (\<open>str::strip_prefix\<close>, \<open>str::lines\<close>, \<open>str::trim_end_matches\<close>, \<open>slice::get\<close> of a range,
    \<open>to_be_bytes\<close>, \<open>from_be_bytes\<close>), with the lemmas the components share.
  \<^item> Two interfaces: \<open>event_machine\<close>, a deterministic machine \<open>(state, event) \<mapsto>
    (state, outputs)\<close> with an invariant, and \<open>monitored_machine\<close>, the same with an observer
    that folds over the events and the outputs.  Each stateful component interprets them.
\<close>

unbundle bit_operations_syntax

named_theorems be_simps \<open>big-endian encoding and decoding\<close>
named_theorems str_simps \<open>string operations of the standard library\<close>

type_synonym u8 = "8 word"
type_synonym u16 = "16 word"
type_synonym u32 = "32 word"
type_synonym u64 = "64 word"
type_synonym bytes = "u8 list"

definition saturating_add32 :: "u32 \<Rightarrow> u32 \<Rightarrow> u32" where
  "saturating_add32 a b = (if unat a + unat b < 2 ^ 32 then a + b else 0xFFFFFFFF)"

section \<open>Big-endian words\<close>

definition be_bytes16 :: "u16 \<Rightarrow> bytes" where
  "be_bytes16 w = [ucast (drop_bit 8 w), ucast w]"

definition be_bytes32 :: "u32 \<Rightarrow> bytes" where
  "be_bytes32 w = [ucast (drop_bit 24 w), ucast (drop_bit 16 w), ucast (drop_bit 8 w), ucast w]"

definition from_be16 :: "u8 \<Rightarrow> u8 \<Rightarrow> u16" where
  "from_be16 a b = (push_bit 8 (ucast a) OR ucast b)"

definition from_be32 :: "u8 \<Rightarrow> u8 \<Rightarrow> u8 \<Rightarrow> u8 \<Rightarrow> u32" where
  "from_be32 a b c d =
     (push_bit 24 (ucast a) OR push_bit 16 (ucast b) OR push_bit 8 (ucast c) OR ucast d)"

lemma from_be16_be_bytes16 [be_simps]:
  "from_be16 (ucast (drop_bit 8 w)) (ucast w) = w"
  unfolding from_be16_def
  by (rule bit_word_eqI) (auto simp: bit_simps)

lemma from_be32_be_bytes32 [be_simps]:
  "from_be32 (ucast (drop_bit 24 w)) (ucast (drop_bit 16 w)) (ucast (drop_bit 8 w)) (ucast w) = w"
proof (rule bit_word_eqI)
  fix n assume "n < LENGTH(32)"
  then have "n < 32" by simp
  then consider "n < 8" | "8 \<le> n \<and> n < 16" | "16 \<le> n \<and> n < 24" | "24 \<le> n \<and> n < 32"
    by fastforce
  then show "bit (from_be32 (ucast (drop_bit 24 w)) (ucast (drop_bit 16 w))
      (ucast (drop_bit 8 w)) (ucast w)) n = bit w n"
    by cases (auto simp: from_be32_def bit_simps)
qed

lemma be_bytes16_length [simp]: "length (be_bytes16 w) = 2"
  by (simp add: be_bytes16_def)

lemma be_bytes32_length [simp]: "length (be_bytes32 w) = 4"
  by (simp add: be_bytes32_def)

lemma be_bytes16_inject [simp]: "be_bytes16 v = be_bytes16 w \<longleftrightarrow> v = w"
proof
  assume eq: "be_bytes16 v = be_bytes16 w"
  then show "v = w"
    unfolding be_bytes16_def list.inject
    by (metis from_be16_be_bytes16)
qed simp

lemma be_bytes32_inject [simp]: "be_bytes32 v = be_bytes32 w \<longleftrightarrow> v = w"
proof
  assume eq: "be_bytes32 v = be_bytes32 w"
  then show "v = w"
    unfolding be_bytes32_def list.inject
    by (metis from_be32_be_bytes32)
qed simp

lemma be_bytes16_append_inject [simp]:
  "be_bytes16 v @ xs = be_bytes16 w @ ys \<longleftrightarrow> v = w \<and> xs = ys"
  by (simp add: append_eq_append_conv)

lemma be_bytes32_append_inject [simp]:
  "be_bytes32 v @ xs = be_bytes32 w @ ys \<longleftrightarrow> v = w \<and> xs = ys"
  by (simp add: append_eq_append_conv)

lemma unat_of_nat_small:
  "n < 2 ^ 32 \<Longrightarrow> unat (of_nat n :: u32) = n"
  "n < 2 ^ 16 \<Longrightarrow> unat (of_nat n :: u16) = n"
  by (simp_all add: unat_of_nat)

section \<open>Strings\<close>

text \<open>\<open>str::as_bytes\<close>: a character of the model is a byte of the UTF-8 text.\<close>

definition as_bytes :: "string \<Rightarrow> bytes" where
  "as_bytes s = map of_char s"

lemma of_char_u8_inject [simp]: "(of_char c :: u8) = of_char d \<longleftrightarrow> c = d"
proof
  assume eq: "(of_char c :: u8) = of_char d"
  have "unat (of_char e :: u8) = of_char e" for e :: char
  proof -
    have "(of_char e :: u8) = of_nat (of_char e)" by (simp add: of_char_def)
    then show ?thesis by (simp only: unat_of_nat) simp
  qed
  with eq have "(of_char c :: nat) = of_char d" by metis
  then show "c = d" by simp
qed simp

lemma as_bytes_inject [simp]: "as_bytes s = as_bytes t \<longleftrightarrow> s = t"
  by (simp add: as_bytes_def inj_map_eq_map inj_def)

text \<open>\<open>str::strip_prefix\<close> and \<open>str::starts_with\<close>.\<close>

fun strip_prefix :: "string \<Rightarrow> string \<Rightarrow> string option" where
  "strip_prefix [] s = Some s"
| "strip_prefix (p # ps) [] = None"
| "strip_prefix (p # ps) (c # cs) = (if p = c then strip_prefix ps cs else None)"

definition starts_with :: "string \<Rightarrow> string \<Rightarrow> bool" where
  "starts_with p s = (strip_prefix p s \<noteq> None)"

lemma strip_prefix_iff [str_simps]: "strip_prefix p s = Some r \<longleftrightarrow> s = p @ r"
  by (induction p s rule: strip_prefix.induct) auto

lemma strip_prefix_append [simp]: "strip_prefix p (p @ r) = Some r"
  by (simp add: strip_prefix_iff)

lemma starts_with_iff [str_simps]: "starts_with p s \<longleftrightarrow> (\<exists>r. s = p @ r)"
  by (simp add: starts_with_def strip_prefix_iff not_None_eq)

text \<open>\<open>str::trim_end_matches\<close> and \<open>str::trim_start_matches\<close> with a set of characters.\<close>

definition trim_end_matches :: "(char \<Rightarrow> bool) \<Rightarrow> string \<Rightarrow> string" where
  "trim_end_matches p s = rev (dropWhile p (rev s))"

definition trim_start_matches :: "(char \<Rightarrow> bool) \<Rightarrow> string \<Rightarrow> string" where
  "trim_start_matches p s = dropWhile p s"

text \<open>
  \<open>str::lines\<close>: the pieces that end in a line feed, each without it and without one carriage
  return before it, and a last piece as it is where the text does not end in a line feed.
\<close>

definition strip_cr :: "string \<Rightarrow> string" where
  "strip_cr s = (if s \<noteq> [] \<and> last s = CHR 0x0D then butlast s else s)"

fun lines_from :: "string \<Rightarrow> string \<Rightarrow> string list" where
  "lines_from acc [] = (if acc = [] then [] else [acc])"
| "lines_from acc (c # cs) =
     (if c = CHR 0x0A then strip_cr acc # lines_from [] cs else lines_from (acc @ [c]) cs)"

definition str_lines :: "string \<Rightarrow> string list" where
  "str_lines s = lines_from [] s"

lemma lines_from_append_nl:
  "CHR 0x0A \<notin> set l \<Longrightarrow>
   lines_from acc (l @ CHR 0x0A # rest) = strip_cr (acc @ l) # lines_from [] rest"
  by (induction l arbitrary: acc) auto

lemma str_lines_Cons [str_simps]:
  "CHR 0x0A \<notin> set l \<Longrightarrow> str_lines (l @ CHR 0x0A # rest) = strip_cr l # str_lines rest"
  by (simp add: str_lines_def lines_from_append_nl)

lemma str_lines_Nil [simp]: "str_lines [] = []"
  by (simp add: str_lines_def)

section \<open>Decimal numbers\<close>

text \<open>
  \<open>u8::is_ascii_digit\<close>, the value of a digit string, the integer parsers
  (\<open>str::parse::<u16>\<close>, \<open>str::parse::<u32>\<close>: an optional plus sign, then at least one digit, and
  an error where the value does not fit the width), and the decimal text of \<open>Display\<close>.
\<close>

definition is_ascii_digit :: "char \<Rightarrow> bool" where
  "is_ascii_digit c \<longleftrightarrow> 48 \<le> (of_char c :: nat) \<and> (of_char c :: nat) \<le> 57"

definition digit_val :: "char \<Rightarrow> nat" where
  "digit_val c = of_char c - 48"

definition digit_char :: "nat \<Rightarrow> char" where
  "digit_char d = char_of (48 + d)"

definition dec_value :: "string \<Rightarrow> nat" where
  "dec_value s = foldl (\<lambda>n c. 10 * n + digit_val c) 0 s"

definition parse_uint :: "nat \<Rightarrow> string \<Rightarrow> nat option" where
  "parse_uint w s =
     (let t = (case s of [] \<Rightarrow> [] | c # r \<Rightarrow> if c = CHR ''+'' then r else s)
      in if t \<noteq> [] \<and> list_all is_ascii_digit t \<and> dec_value t < 2 ^ w
         then Some (dec_value t) else None)"

fun dec_of_nat :: "nat \<Rightarrow> string" where
  "dec_of_nat n = (if n < 10 then [digit_char n] else dec_of_nat (n div 10) @ [digit_char (n mod 10)])"

declare dec_of_nat.simps [simp del]

lemma of_char_digit_char [simp]: "d < 10 \<Longrightarrow> (of_char (digit_char d) :: nat) = 48 + d"
  by (simp add: digit_char_def)

lemma digit_char_digit [simp]: "d < 10 \<Longrightarrow> is_ascii_digit (digit_char d)"
  by (simp add: is_ascii_digit_def)

lemma digit_val_digit_char [simp]: "d < 10 \<Longrightarrow> digit_val (digit_char d) = d"
  by (simp add: digit_val_def)

lemma digit_char_digit_val [simp]: "is_ascii_digit c \<Longrightarrow> digit_char (digit_val c) = c"
  by (simp add: is_ascii_digit_def digit_val_def digit_char_def)

lemma digit_val_less [simp]: "is_ascii_digit c \<Longrightarrow> digit_val c < 10"
  unfolding is_ascii_digit_def digit_val_def by linarith

lemma digit_char_eq_zero: "d < 10 \<Longrightarrow> digit_char d = CHR ''0'' \<longleftrightarrow> d = 0"
proof -
  assume d: "d < 10"
  have "digit_char d = CHR ''0'' \<longleftrightarrow> (of_char (digit_char d) :: nat) = of_char (CHR ''0'')"
    by (simp only: of_char_eq_iff)
  also have "\<dots> \<longleftrightarrow> d = 0" using d by simp
  finally show ?thesis .
qed

lemma dec_value_Nil [simp]: "dec_value [] = 0"
  by (simp add: dec_value_def)

lemma dec_value_snoc [simp]: "dec_value (s @ [c]) = 10 * dec_value s + digit_val c"
  by (simp add: dec_value_def)

lemma dec_of_nat_digits [simp]: "list_all is_ascii_digit (dec_of_nat n)"
  by (induction n rule: dec_of_nat.induct) (subst dec_of_nat.simps, auto)

lemma dec_of_nat_neq_Nil [simp]: "dec_of_nat n \<noteq> []"
  by (subst dec_of_nat.simps) simp

lemma dec_value_dec_of_nat [simp]: "dec_value (dec_of_nat n) = n"
proof (induction n rule: dec_of_nat.induct)
  case (1 n)
  show ?case
  proof (cases "n < 10")
    case True
    then show ?thesis
      by (subst dec_of_nat.simps) (use dec_value_snoc [of "[]"] in simp)
  next
    case False
    with "1.IH" show ?thesis by (subst dec_of_nat.simps) simp
  qed
qed

lemma dec_of_nat_no_leading_zero: "0 < n \<Longrightarrow> hd (dec_of_nat n) \<noteq> CHR ''0''"
proof (induction n rule: dec_of_nat.induct)
  case (1 n)
  then show ?case
    by (subst dec_of_nat.simps) (auto simp: digit_char_eq_zero)
qed

lemma dec_value_pos:
  "s \<noteq> [] \<Longrightarrow> list_all is_ascii_digit s \<Longrightarrow> hd s \<noteq> CHR ''0'' \<Longrightarrow> 0 < dec_value s"
proof (induction s rule: rev_induct)
  case (snoc c s)
  show ?case
  proof (cases "s = []")
    case True
    have "digit_val c \<noteq> 0"
    proof
      assume "digit_val c = 0"
      moreover from snoc.prems have "is_ascii_digit c" by simp
      ultimately have "c = digit_char 0" by (metis digit_char_digit_val)
      with snoc.prems True show False by (simp add: digit_char_eq_zero)
    qed
    with True show ?thesis using dec_value_snoc [of "[]" c] by simp
  next
    case False
    with snoc show ?thesis by simp
  qed
qed simp

text \<open>A digit string without a leading zero is the decimal text of its value.\<close>

lemma dec_of_nat_dec_value:
  "s \<noteq> [] \<Longrightarrow> list_all is_ascii_digit s \<Longrightarrow> hd s \<noteq> CHR ''0'' \<Longrightarrow> dec_of_nat (dec_value s) = s"
proof (induction s rule: rev_induct)
  case (snoc c s)
  then have c: "is_ascii_digit c" by simp
  show ?case
  proof (cases "s = []")
    case True
    with c show ?thesis
      using dec_value_snoc [of "[]" c] by (subst dec_of_nat.simps) simp
  next
    case False
    with snoc have IH: "dec_of_nat (dec_value s) = s" and pos: "0 < dec_value s"
      by (simp_all add: dec_value_pos)
    have "\<not> 10 * dec_value s + digit_val c < 10" using pos by simp
    with c IH show ?thesis by (subst dec_of_nat.simps) simp
  qed
qed simp

lemma length_dec_of_nat: "n < 10 ^ Suc k \<Longrightarrow> length (dec_of_nat n) \<le> Suc k"
proof (induction k arbitrary: n)
  case 0
  then show ?case by (subst dec_of_nat.simps) simp
next
  case (Suc k)
  then have "n div 10 < 10 ^ Suc k" by (simp add: less_mult_imp_div_less mult.commute)
  with Suc.IH [of "n div 10"] show ?case by (subst dec_of_nat.simps) simp
qed

lemma parse_uint_dec_of_nat [simp]: "n < 2 ^ w \<Longrightarrow> parse_uint w (dec_of_nat n) = Some n"
proof -
  assume n: "n < 2 ^ w"
  obtain c r where cr: "dec_of_nat n = c # r" by (cases "dec_of_nat n") simp_all
  have "is_ascii_digit c" using dec_of_nat_digits [of n] cr by simp
  then have "c \<noteq> CHR ''+''" by (auto simp: is_ascii_digit_def)
  then show ?thesis
    using n dec_of_nat_digits [of n] dec_value_dec_of_nat [of n] cr
    by (simp add: parse_uint_def Let_def)
qed

section \<open>Slices\<close>

text \<open>\<open>slice.get(i)\<close> and \<open>slice.get(a..b)\<close>: \<open>None\<close> out of range.\<close>

definition get_at :: "'a list \<Rightarrow> nat \<Rightarrow> 'a option" where
  "get_at xs i = (if i < length xs then Some (xs ! i) else None)"

definition get_range :: "'a list \<Rightarrow> nat \<Rightarrow> nat \<Rightarrow> 'a list option" where
  "get_range xs a b = (if a \<le> b \<and> b \<le> length xs then Some (take (b - a) (drop a xs)) else None)"

lemma get_range_length: "get_range xs a b = Some ys \<Longrightarrow> length ys = b - a"
  by (auto simp: get_range_def split: if_splits)

lemma get_range_Some_iff:
  "get_range xs a b = Some ys \<longleftrightarrow> a \<le> b \<and> b \<le> length xs \<and> ys = take (b - a) (drop a xs)"
  by (auto simp: get_range_def)

section \<open>Machines that turn events into outputs\<close>

fun run_machine :: "('s \<Rightarrow> 'e \<Rightarrow> 's \<times> 'a list) \<Rightarrow> 's \<Rightarrow> 'e list \<Rightarrow> 's \<times> 'a list" where
  "run_machine stp s [] = (s, [])"
| "run_machine stp s (e # es) =
     (let (s', acts) = stp s e; (s'', acts') = run_machine stp s' es in (s'', acts @ acts'))"

fun run_monitor ::
  "('s \<Rightarrow> 'e \<Rightarrow> 's \<times> 'a list) \<Rightarrow> ('m \<Rightarrow> 'e \<Rightarrow> 'a list \<Rightarrow> 'm) \<Rightarrow> 's \<Rightarrow> 'm \<Rightarrow> 'e list \<Rightarrow> 's \<times> 'm" where
  "run_monitor stp mon s m [] = (s, m)"
| "run_monitor stp mon s m (e # es) =
     (let (s', acts) = stp s e in run_monitor stp mon s' (mon m e acts) es)"

lemma run_machine_append:
  "run_machine stp s (es @ fs) =
     (let (s', acts) = run_machine stp s es; (s'', acts') = run_machine stp s' fs
      in (s'', acts @ acts'))"
  by (induction es arbitrary: s) (auto simp: Let_def split: prod.splits)

lemma run_monitor_state: "fst (run_monitor stp mon s m es) = fst (run_machine stp s es)"
  by (induction es arbitrary: s m) (auto simp: Let_def split: prod.splits)

locale event_machine =
  fixes init_s :: 's
    and stp :: "'s \<Rightarrow> 'e \<Rightarrow> 's \<times> 'a list"
    and inv_s :: "'s \<Rightarrow> bool"
  assumes inv_init: "inv_s init_s"
    and inv_step: "inv_s s \<Longrightarrow> inv_s (fst (stp s e))"
begin

lemma inv_run_from: "inv_s s \<Longrightarrow> inv_s (fst (run_machine stp s es))"
proof (induction es arbitrary: s)
  case (Cons e es)
  then show ?case
    using inv_step [of s e] by (simp add: case_prod_unfold Let_def)
qed simp

lemma inv_run: "inv_s (fst (run_machine stp init_s es))"
  by (rule inv_run_from) (rule inv_init)

end

text \<open>
  The observer starts as \<open>init_m\<close> beside the initial state; \<open>agree\<close> relates the two and is
  kept by every step from a state that satisfies the invariant.
\<close>

locale monitored_machine = event_machine +
  fixes init_m :: 'm
    and mon :: "'m \<Rightarrow> 'b \<Rightarrow> 'c list \<Rightarrow> 'm"
    and agree :: "'a \<Rightarrow> 'm \<Rightarrow> bool"
  assumes agree_init: "agree init_s init_m"
    and agree_step: "inv_s s \<Longrightarrow> agree s m \<Longrightarrow> agree (fst (stp s e)) (mon m e (snd (stp s e)))"
begin

lemma agree_run_from:
  "inv_s s \<Longrightarrow> agree s m \<Longrightarrow>
   agree (fst (run_monitor stp mon s m es)) (snd (run_monitor stp mon s m es))"
proof (induction es arbitrary: s m)
  case (Cons e es)
  have "inv_s (fst (stp s e))" and "agree (fst (stp s e)) (mon m e (snd (stp s e)))"
    using Cons.prems inv_step agree_step by blast+
  from Cons.IH [OF this] show ?case
    by (simp add: case_prod_unfold Let_def)
qed simp

lemma agree_run:
  "agree (fst (run_monitor stp mon init_s init_m es)) (snd (run_monitor stp mon init_s init_m es))"
  by (rule agree_run_from) (rule inv_init, rule agree_init)

end

end
