(* ===== verification/Voice_Video.thy ===== *)
theory Voice_Video
  imports Hx_Prelude
begin

text \<open>
  The vocabulary of the video extension (\<open>hxvoice/src/video.rs\<close>): stream kinds and their wire
  values, publications and streams, and the media-section labels (\<^emph>\<open>mids\<close>) of an SDP offer with
  the scanner that maps a mid to the track it names.  The scanner is shown to accept exactly the
  canonical label of each track.
\<close>

section \<open>Kinds, publications, streams\<close>

datatype VideoKind = Camera | Screen

text \<open>\<open>VideoKind::ALL\<close>: both kinds, in wire order.\<close>

definition ALL_KINDS :: "VideoKind list" where
  "ALL_KINDS = [Camera, Screen]"

fun wire :: "VideoKind \<Rightarrow> u16" where
  "wire Camera = 1"
| "wire Screen = 2"

definition from_wire :: "u16 \<Rightarrow> VideoKind option" where
  "from_wire v = (if v = 1 then Some Camera else if v = 2 then Some Screen else None)"

fun index :: "VideoKind \<Rightarrow> nat" where
  "index Camera = 0"
| "index Screen = 1"

fun send_mid :: "VideoKind \<Rightarrow> string" where
  "send_mid Camera = ''cam-send''"
| "send_mid Screen = ''scr-send''"

record Publication =
  pub_user_id :: u16
  pub_kind :: VideoKind
  pub_paused :: bool

text \<open>
  \<open>Stream\<close> derives \<open>Ord\<close>, which compares the user id and then the kind; it is a datatype so
  that the library's sorting applies to it.
\<close>

datatype Stream = Stream (st_user_id: u16) (st_kind: VideoKind)

instantiation VideoKind :: enum
begin

definition enum_VideoKind :: "VideoKind list" where
  "enum_VideoKind = ALL_KINDS"

definition enum_all_VideoKind :: "(VideoKind \<Rightarrow> bool) \<Rightarrow> bool" where
  "enum_all_VideoKind P \<longleftrightarrow> P Camera \<and> P Screen"

definition enum_ex_VideoKind :: "(VideoKind \<Rightarrow> bool) \<Rightarrow> bool" where
  "enum_ex_VideoKind P \<longleftrightarrow> P Camera \<or> P Screen"

instance
proof
  show "(UNIV :: VideoKind set) = set enum_class.enum"
    by (auto simp: enum_VideoKind_def ALL_KINDS_def intro: VideoKind.exhaust)
  show "distinct (enum_class.enum :: VideoKind list)"
    by (simp add: enum_VideoKind_def ALL_KINDS_def)
  show "enum_class.enum_all P \<longleftrightarrow> Ball UNIV P" for P :: "VideoKind \<Rightarrow> bool"
    by (auto simp: enum_all_VideoKind_def intro: VideoKind.induct)
  show "enum_class.enum_ex P \<longleftrightarrow> Bex UNIV P" for P :: "VideoKind \<Rightarrow> bool"
    by (auto simp: enum_ex_VideoKind_def) (metis VideoKind.exhaust)
qed

end

instantiation VideoKind :: linorder
begin

definition less_eq_VideoKind :: "VideoKind \<Rightarrow> VideoKind \<Rightarrow> bool" where
  "less_eq_VideoKind a b \<longleftrightarrow> index a \<le> index b"

definition less_VideoKind :: "VideoKind \<Rightarrow> VideoKind \<Rightarrow> bool" where
  "less_VideoKind a b \<longleftrightarrow> index a < index b"

instance
proof
  fix x y :: VideoKind
  show "x \<le> y \<Longrightarrow> y \<le> x \<Longrightarrow> x = y"
    by (cases x; cases y) (simp_all add: less_eq_VideoKind_def)
qed (auto simp: less_eq_VideoKind_def less_VideoKind_def)

end

instantiation Stream :: linorder
begin

definition less_eq_Stream :: "Stream \<Rightarrow> Stream \<Rightarrow> bool" where
  "less_eq_Stream a b \<longleftrightarrow>
     st_user_id a < st_user_id b \<or> st_user_id a = st_user_id b \<and> st_kind a \<le> st_kind b"

definition less_Stream :: "Stream \<Rightarrow> Stream \<Rightarrow> bool" where
  "less_Stream a b \<longleftrightarrow>
     st_user_id a < st_user_id b \<or> st_user_id a = st_user_id b \<and> st_kind a < st_kind b"

instance
  by standard (auto simp: less_eq_Stream_def less_Stream_def Stream.expand)

end

lemma wire_inject [simp]: "wire a = wire b \<longleftrightarrow> a = b"
  by (cases a; cases b) simp_all

lemma from_wire_wire [simp]: "from_wire (wire k) = Some k"
  by (cases k) (simp_all add: from_wire_def)

lemma index_inject [simp]: "index a = index b \<longleftrightarrow> a = b"
  by (cases a; cases b) simp_all

section \<open>Mids\<close>

datatype Track =
    Mic
  | Audio u16
  | VideoSend VideoKind
  | Video u16 VideoKind

fun track_user_id :: "Track \<Rightarrow> u16 option" where
  "track_user_id (Audio u) = Some u"
| "track_user_id (Video u _) = Some u"
| "track_user_id _ = None"

fun is_receive :: "Track \<Rightarrow> bool" where
  "is_receive (Audio _) = True"
| "is_receive (Video _ _) = True"
| "is_receive _ = False"

definition MID_MAX_LEN :: nat where
  "MID_MAX_LEN = 16"

definition parse_uid :: "string \<Rightarrow> u16 option" where
  "parse_uid rest =
     (if rest = [] \<or> starts_with ''0'' rest \<or> \<not> list_all is_ascii_digit rest then None
      else case parse_uint 32 rest of
        None \<Rightarrow> None
      | Some v \<Rightarrow> if 1 \<le> v \<and> v \<le> 65535 then Some (of_nat v) else None)"

definition parse_mid :: "string \<Rightarrow> Track option" where
  "parse_mid mid =
     (if length mid > MID_MAX_LEN then None
      else if mid = ''send'' then Some Mic
      else if mid = ''cam-send'' then Some (VideoSend Camera)
      else if mid = ''scr-send'' then Some (VideoSend Screen)
      else case strip_prefix ''user-'' mid of
        Some rest \<Rightarrow> map_option Audio (parse_uid rest)
      | None \<Rightarrow> (case strip_prefix ''cam-user-'' mid of
          Some rest \<Rightarrow> map_option (\<lambda>u. Video u Camera) (parse_uid rest)
        | None \<Rightarrow> (case strip_prefix ''scr-user-'' mid of
            Some rest \<Rightarrow> map_option (\<lambda>u. Video u Screen) (parse_uid rest)
          | None \<Rightarrow> None)))"

text \<open>
  The grammar of labels, as the documentation of \<open>Track\<close> gives it: \<open>send\<close>, \<open>user-N\<close>,
  \<open>cam-send\<close>, \<open>scr-send\<close>, \<open>cam-user-N\<close>, \<open>scr-user-N\<close>, with \<open>N\<close> a user id in decimal.
\<close>

fun track_label :: "Track \<Rightarrow> string" where
  "track_label Mic = ''send''"
| "track_label (Audio u) = ''user-'' @ dec_of_nat (unat u)"
| "track_label (VideoSend k) = send_mid k"
| "track_label (Video u Camera) = ''cam-user-'' @ dec_of_nat (unat u)"
| "track_label (Video u Screen) = ''scr-user-'' @ dec_of_nat (unat u)"

lemma unat_u16_le: "unat (u :: u16) \<le> 65535"
  using unsigned_less [of u, where ?'a = nat] by simp

lemma parse_uid_dec_of_nat:
  assumes "u \<noteq> 0" shows "parse_uid (dec_of_nat (unat u)) = Some u"
proof -
  have pos: "0 < unat u" using assms by (simp add: unat_gt_0)
  have "\<not> starts_with ''0'' (dec_of_nat (unat u))"
    using dec_of_nat_no_leading_zero [OF pos] by (auto simp: starts_with_iff)
  moreover have "parse_uint 32 (dec_of_nat (unat u)) = Some (unat u)"
    using unat_u16_le [of u] by simp
  ultimately show ?thesis
    using pos unat_u16_le [of u] by (simp add: parse_uid_def)
qed

lemma parse_uid_SomeD:
  assumes "parse_uid rest = Some u"
  shows "u \<noteq> 0 \<and> rest = dec_of_nat (unat u)"
proof -
  from assms have ne: "rest \<noteq> []" and nz: "\<not> starts_with ''0'' rest"
    and dig: "list_all is_ascii_digit rest"
    by (auto simp: parse_uid_def split: if_splits)
  from ne dig have plus: "hd rest \<noteq> CHR ''+''"
    by (cases rest) (auto simp: is_ascii_digit_def)
  from ne plus have uint: "parse_uint 32 rest = Some v \<Longrightarrow> v = dec_value rest" for v
    by (cases rest) (auto simp: parse_uint_def Let_def split: if_splits)
  from assms ne nz dig obtain v where v: "v = dec_value rest" "1 \<le> v" "v \<le> 65535" "u = of_nat v"
    by (auto simp: parse_uid_def dest: uint split: option.splits if_splits)
  have "unat u = v" using v by (simp add: unat_of_nat)
  moreover have "hd rest \<noteq> CHR ''0''"
    using nz ne by (cases rest) (auto simp: starts_with_iff)
  ultimately show ?thesis
    using v ne dig by (auto simp: dec_of_nat_dec_value)
qed

lemma length_uid_le: "length (dec_of_nat (unat (u :: u16))) \<le> 5"
  using length_dec_of_nat [of "unat u" 4] unat_u16_le [of u] by simp

lemma track_label_length: "length (track_label t) \<le> MID_MAX_LEN"
proof (cases t rule: track_label.cases)
  case (2 u)
  then show ?thesis using length_uid_le [of u] by (simp add: MID_MAX_LEN_def)
next
  case (3 k)
  then show ?thesis by (cases k) (simp_all add: MID_MAX_LEN_def)
next
  case (4 u)
  then show ?thesis using length_uid_le [of u] by (simp add: MID_MAX_LEN_def)
next
  case (5 u)
  then show ?thesis using length_uid_le [of u] by (simp add: MID_MAX_LEN_def)
qed (simp add: MID_MAX_LEN_def)

lemma parse_mid_label:
  assumes "track_user_id t \<noteq> Some 0"
  shows "parse_mid (track_label t) = Some t"
proof (cases t rule: track_label.cases)
  case (3 k)
  then show ?thesis by (cases k) (simp_all add: parse_mid_def MID_MAX_LEN_def)
qed (use assms track_label_length [of t] in \<open>auto simp: parse_mid_def parse_uid_dec_of_nat\<close>)

lemma parse_mid_SomeD:
  assumes "parse_mid mid = Some t"
  shows "mid = track_label t \<and> track_user_id t \<noteq> Some 0"
  using assms
  by (auto simp: parse_mid_def strip_prefix_iff dest!: parse_uid_SomeD
      split: if_splits option.splits)

end
