(* ===== verification/Voice_Types.thy ===== *)
theory Voice_Types
  imports Voice_Video
begin

text \<open>
  What goes into the voice state machine and what comes out of it
  (\<open>hxvoice/src/event.rs\<close>, \<open>hxvoice/src/action.rs\<close>), with the state names of
  \<open>hxvoice/src/state.rs\<close>.  Constructors carry the sources' fields in the sources' order; where two
  enumerations share a name it is written with its type, \<open>SessionState.Connected\<close> against
  \<open>ConnectionState.Connected\<close>.
\<close>

section \<open>Events\<close>

record Participant =
  pt_user_id :: u16
  pt_codec_id :: u16
  pt_muted :: bool

record ServerError =
  origin_opcode :: u32
  err_text :: string

datatype ConnectionState = Connecting | Connected | Disconnected | Failed | Closed

datatype Timeout = JoinReply | IceConnectivity | Dtls | Media | WedgeDeadline

datatype Event =
    JoinRequested u32
  | LeaveRequested u32
  | MuteToggleRequested bool
  | SdpOfferReceived u32 string
  | IceCandidateReceived u32 string
  | EndOfRemoteCandidates u32
  | ParticipantsUpdated u32 "Participant list"
  | ServerTaskError ServerError
  | VideoStatusReceived u32 "Publication list" "u16 option"
  | VideoSubscriptionsWanted "Stream list"
  | VideoStartRequested VideoKind
  | VideoStopRequested VideoKind
  | VideoPauseRequested VideoKind bool
  | VideoStartFailed u32 VideoKind u32 string
  | VideoPauseFailed u32 VideoKind u32 string
  | VideoCaptureFailed VideoKind string
  | WebrtcPadAdded string
  | WebrtcPadRemoved string
  | WebrtcAnswerCreated string
  | WebrtcLocalIceGathered string
  | WebrtcConnectionStateChanged ConnectionState
  | Timeout Timeout

section \<open>States\<close>

datatype SessionState = Idle | JoinSent | OfferPending | Connecting | Connected | Leaving

section \<open>Actions\<close>

type_synonym TimerKind = Timeout

datatype WireFrameBody = WireFrameBody (body_bytes: bytes)

datatype SignalKind =
    RoomStatus
  | StateChanged
  | Error
  | MuteChanged
  | SpeakerChanged
  | VideoStatus
  | VideoLocalChanged

datatype SignalPayload =
    RoomStatus u32 ConnectionState
  | StateChanged SessionState
  | Error string
  | MuteChanged bool
  | SpeakerChanged u16 bool
  | VideoStatus u32
  | VideoLocalChanged VideoKind bool bool

datatype Action =
    SendWireFrame u32 WireFrameBody
  | SetRemoteDescription string
  | CreateAnswer
  | SetLocalDescription string
  | AddRemoteIce string
  | StartReceivePipeline string u16
  | StopReceivePipeline string
  | SetSendPipelineMute bool
  | SetVideoPublishing VideoKind bool
  | SetVideoPaused VideoKind bool
  | EmitSignal SignalKind SignalPayload
  | ArmTimer TimerKind u32
  | CancelTimer TimerKind
  | TearDown

end
