(* ===== verification/Voice_State.thy ===== *)
theory Voice_State
  imports Voice_Types
begin

text \<open>
  The voice session machine (\<open>hxvoice/src/state.rs\<close>): its record, the frame encoders, the SDP
  scanners, one definition per handler of \<open>SessionMachine::step\<close>, and \<open>step\<close> itself, which
  dispatches on the state and the event in the order of the source's arms.

  The two hash maps are association lists written with the library's \<open>AList.update\<close>, so a key
  occurs at most once, and read with \<open>map_of\<close>; their order stands for the unspecified iteration
  order.  The two-element arrays indexed by \<open>VideoKind::index\<close> are functions of the kind.
\<close>

section \<open>The machine\<close>

record SessionMachine =
  state :: SessionState
  active_cid :: "u32 option"
  mid_to_user :: "(string \<times> u16) list"
  publications :: "Publication list"
  wanted :: "Stream list"
  subscribed :: "Stream list"
  subscribed_stale :: bool
  local_video :: "VideoKind \<Rightarrow> bool option"
  local_listed :: "VideoKind \<Rightarrow> bool"
  start_gen :: "VideoKind \<Rightarrow> u32"
  pause_gen :: "VideoKind \<Rightarrow> u32"
  participants :: "(u16 \<times> Participant) list"
  muted :: bool
  queued_offer :: "(u32 \<times> string) option"

type_synonym outcome = "SessionMachine \<times> Action list"

definition new_machine :: SessionMachine where
  "new_machine =
     \<lparr>state = SessionState.Idle, active_cid = None, mid_to_user = [], publications = [],
      wanted = [], subscribed = [], subscribed_stale = False,
      local_video = (\<lambda>_. None), local_listed = (\<lambda>_. False),
      start_gen = (\<lambda>_. 0), pause_gen = (\<lambda>_. 0),
      participants = [], muted = False, queued_offer = None\<rparr>"

definition accepts_offer :: "SessionMachine \<Rightarrow> u32 \<Rightarrow> bool" where
  "accepts_offer m cid \<longleftrightarrow>
     active_cid m = Some cid \<and>
     state m \<in> {SessionState.JoinSent, SessionState.Connecting, SessionState.Connected,
                SessionState.OfferPending}"

definition is_muted :: "SessionMachine \<Rightarrow> bool" where
  "is_muted m = muted m"

definition participants_iter :: "SessionMachine \<Rightarrow> Participant list" where
  "participants_iter m = map snd (participants m)"

definition participant_count :: "SessionMachine \<Rightarrow> nat" where
  "participant_count m = length (participants m)"

definition subscriptions :: "SessionMachine \<Rightarrow> Stream list" where
  "subscriptions m = subscribed m"

definition local_video_of :: "SessionMachine \<Rightarrow> VideoKind \<Rightarrow> bool option" where
  "local_video_of m kind = local_video m kind"

definition in_voice :: "SessionMachine \<Rightarrow> bool" where
  "in_voice m \<longleftrightarrow>
     state m \<in> {SessionState.OfferPending, SessionState.Connecting, SessionState.Connected}"

section \<open>Opcodes and timeouts\<close>

definition HTLC_HDR_VOICE_JOIN :: u32 where "HTLC_HDR_VOICE_JOIN = 600"
definition HTLC_HDR_VOICE_LEAVE :: u32 where "HTLC_HDR_VOICE_LEAVE = 601"
definition HTLC_HDR_VOICE_SDP_ANSWER :: u32 where "HTLC_HDR_VOICE_SDP_ANSWER = 603"
definition HTLC_HDR_VOICE_ICE :: u32 where "HTLC_HDR_VOICE_ICE = 604"
definition HTLC_HDR_VOICE_MUTE :: u32 where "HTLC_HDR_VOICE_MUTE = 606"
definition HTLC_HDR_VIDEO_START :: u32 where "HTLC_HDR_VIDEO_START = 607"
definition HTLC_HDR_VIDEO_STOP :: u32 where "HTLC_HDR_VIDEO_STOP = 608"
definition HTLC_HDR_VIDEO_STATE :: u32 where "HTLC_HDR_VIDEO_STATE = 609"
definition HTLC_HDR_VIDEO_SUBSCRIBE :: u32 where "HTLC_HDR_VIDEO_SUBSCRIBE = 610"

lemmas opcode_defs =
  HTLC_HDR_VOICE_JOIN_def HTLC_HDR_VOICE_LEAVE_def HTLC_HDR_VOICE_SDP_ANSWER_def
  HTLC_HDR_VOICE_ICE_def HTLC_HDR_VOICE_MUTE_def HTLC_HDR_VIDEO_START_def
  HTLC_HDR_VIDEO_STOP_def HTLC_HDR_VIDEO_STATE_def HTLC_HDR_VIDEO_SUBSCRIBE_def

definition JOIN_REPLY_TIMEOUT_MS :: u32 where "JOIN_REPLY_TIMEOUT_MS = 10000"
definition DTLS_TIMEOUT_MS :: u32 where "DTLS_TIMEOUT_MS = 10000"
definition ICE_TIMEOUT_MS :: u32 where "ICE_TIMEOUT_MS = 30000"
definition MEDIA_TIMEOUT_MS :: u32 where "MEDIA_TIMEOUT_MS = 30000"

section \<open>Frame bodies\<close>

definition encode_cid_only :: "u32 \<Rightarrow> bytes" where
  "encode_cid_only cid = be_bytes32 cid"

definition encode_cid_plus_sdp :: "u32 \<Rightarrow> string \<Rightarrow> bytes" where
  "encode_cid_plus_sdp cid sdp = be_bytes32 cid @ as_bytes sdp"

definition encode_cid_plus_ice :: "u32 \<Rightarrow> string \<Rightarrow> bytes" where
  "encode_cid_plus_ice cid candidate_json = be_bytes32 cid @ as_bytes candidate_json"

definition encode_cid_plus_kind :: "u32 \<Rightarrow> VideoKind \<Rightarrow> bytes" where
  "encode_cid_plus_kind cid kind = be_bytes32 cid @ be_bytes16 (wire kind)"

definition encode_cid_kind_gen :: "u32 \<Rightarrow> VideoKind \<Rightarrow> u32 \<Rightarrow> bytes" where
  "encode_cid_kind_gen cid kind gen = encode_cid_plus_kind cid kind @ be_bytes32 gen"

definition encode_cid_kind_paused_gen :: "u32 \<Rightarrow> VideoKind \<Rightarrow> bool \<Rightarrow> u32 \<Rightarrow> bytes" where
  "encode_cid_kind_paused_gen cid kind paused gen =
     encode_cid_plus_kind cid kind @ be_bytes16 (of_bool paused) @ be_bytes32 gen"

definition encode_cid_plus_streams :: "u32 \<Rightarrow> Stream list \<Rightarrow> bytes" where
  "encode_cid_plus_streams cid streams =
     be_bytes32 cid @
     concat (map (\<lambda>st. be_bytes16 (st_user_id st) @ be_bytes16 (wire (st_kind st))) streams)"

definition encode_cid_plus_muted :: "u32 \<Rightarrow> bool \<Rightarrow> bytes" where
  "encode_cid_plus_muted cid mtd = be_bytes32 cid @ be_bytes16 (of_bool mtd)"

lemmas encode_defs =
  encode_cid_only_def encode_cid_plus_sdp_def encode_cid_plus_ice_def encode_cid_plus_kind_def
  encode_cid_kind_gen_def encode_cid_kind_paused_gen_def encode_cid_plus_streams_def
  encode_cid_plus_muted_def

section \<open>Signals and states\<close>

definition local_changed :: "VideoKind \<Rightarrow> bool option \<Rightarrow> Action" where
  "local_changed kind st =
     EmitSignal SignalKind.VideoLocalChanged
       (SignalPayload.VideoLocalChanged kind (st \<noteq> None) (case st of None \<Rightarrow> False | Some p \<Rightarrow> p))"

fun connection_state_for_session :: "SessionState \<Rightarrow> ConnectionState" where
  "connection_state_for_session SessionState.Idle = ConnectionState.Closed"
| "connection_state_for_session SessionState.JoinSent = ConnectionState.Connecting"
| "connection_state_for_session SessionState.OfferPending = ConnectionState.Connecting"
| "connection_state_for_session SessionState.Connecting = ConnectionState.Connecting"
| "connection_state_for_session SessionState.Connected = ConnectionState.Connected"
| "connection_state_for_session SessionState.Leaving = ConnectionState.Closed"

definition error_signal :: "string \<Rightarrow> Action" where
  "error_signal text = EmitSignal SignalKind.Error (SignalPayload.Error text)"

text \<open>
  \<open>set_state\<close>: the closure that pushes onto the list becomes the list it pushes; the
  \<open>StateChanged\<close> signal comes last.
\<close>

definition set_state :: "SessionMachine \<Rightarrow> SessionState \<Rightarrow> Action list \<Rightarrow> outcome" where
  "set_state m new_state actions =
     (m\<lparr>state := new_state\<rparr>,
      actions @ [EmitSignal SignalKind.StateChanged (SignalPayload.StateChanged new_state)])"

definition reset_video :: "SessionMachine \<Rightarrow> SessionMachine" where
  "reset_video m =
     m\<lparr>publications := [], wanted := [], subscribed := [], subscribed_stale := False,
       local_video := (\<lambda>_. None), local_listed := (\<lambda>_. False)\<rparr>"

definition flush_subscriptions :: "SessionMachine \<Rightarrow> SessionMachine \<times> Action option" where
  "flush_subscriptions m =
     (if \<not> in_voice m \<or> (wanted m = subscribed m \<and> \<not> subscribed_stale m) then (m, None)
      else case active_cid m of
        None \<Rightarrow> (m, None)
      | Some cid \<Rightarrow>
          (m\<lparr>subscribed := wanted m, subscribed_stale := False\<rparr>,
           Some (SendWireFrame HTLC_HDR_VIDEO_SUBSCRIBE
                   (WireFrameBody (encode_cid_plus_streams cid (wanted m))))))"

definition bind_cid_for_offer :: "SessionMachine \<Rightarrow> u32 \<Rightarrow> SessionMachine" where
  "bind_cid_for_offer m cid = m\<lparr>active_cid := Some cid\<rparr>"

section \<open>Scanning an offer\<close>

definition sdp_lines :: "string \<Rightarrow> string list" where
  "sdp_lines sdp = map (trim_end_matches (\<lambda>c. c = CHR 0x0D)) (str_lines sdp)"

definition mid_line_user :: "string \<Rightarrow> (string \<times> u16) option" where
  "mid_line_user line =
     (case strip_prefix ''a=mid:'' line of
        None \<Rightarrow> None
      | Some rest \<Rightarrow> map_option (Pair rest) (Option.bind (parse_mid rest) track_user_id))"

fun cache_mids :: "(string \<times> u16) list \<Rightarrow> string list \<Rightarrow> (string \<times> u16) list" where
  "cache_mids acc [] = acc"
| "cache_mids acc (l # ls) =
     (case mid_line_user l of
        None \<Rightarrow> cache_mids acc ls
      | Some (mid, uid) \<Rightarrow> cache_mids (AList.update mid uid acc) ls)"

definition cache_offer_mids :: "SessionMachine \<Rightarrow> string \<Rightarrow> SessionMachine" where
  "cache_offer_mids m sdp = m\<lparr>mid_to_user := cache_mids [] (sdp_lines sdp)\<rparr>"

fun inactive_mids_from :: "string option \<Rightarrow> string list \<Rightarrow> string list" where
  "inactive_mids_from cur_mid [] = []"
| "inactive_mids_from cur_mid (l # ls) =
     (if starts_with ''m='' l then inactive_mids_from None ls
      else case strip_prefix ''a=mid:'' l of
        Some rest \<Rightarrow> inactive_mids_from (Some rest) ls
      | None \<Rightarrow>
          (if l = ''a=inactive'' then
             (case cur_mid of
                Some mid \<Rightarrow>
                  (case parse_mid mid of
                     Some t \<Rightarrow> if is_receive t then [mid] else []
                   | None \<Rightarrow> [])
              | None \<Rightarrow> []) @ inactive_mids_from cur_mid ls
           else inactive_mids_from cur_mid ls))"

definition inactive_recv_mids :: "string \<Rightarrow> string list" where
  "inactive_recv_mids sdp = inactive_mids_from None (sdp_lines sdp)"

section \<open>Joining and leaving\<close>

definition join_frame :: "u32 \<Rightarrow> Action" where
  "join_frame cid = SendWireFrame HTLC_HDR_VOICE_JOIN (WireFrameBody (encode_cid_only cid))"

definition leave_frame :: "u32 \<Rightarrow> Action" where
  "leave_frame cid = SendWireFrame HTLC_HDR_VOICE_LEAVE (WireFrameBody (encode_cid_only cid))"

text \<open>\<open>(Idle, JoinRequested)\<close>.\<close>

definition step_join_idle :: "SessionMachine \<Rightarrow> u32 \<Rightarrow> outcome" where
  "step_join_idle m cid =
     set_state
       ((reset_video (m\<lparr>active_cid := Some cid, mid_to_user := [], participants := []\<rparr>))
          \<lparr>queued_offer := None\<rparr>)
       SessionState.JoinSent
       [join_frame cid, ArmTimer JoinReply JOIN_REPLY_TIMEOUT_MS]"

text \<open>\<open>(JoinSent | OfferPending | Connecting | Connected | Leaving, JoinRequested)\<close>.\<close>

definition step_join_switch :: "SessionMachine \<Rightarrow> u32 \<Rightarrow> outcome" where
  "step_join_switch m cid =
     (if state m \<noteq> SessionState.Leaving \<and> active_cid m = Some cid then (m, [])
      else set_state
        ((reset_video (m\<lparr>active_cid := Some cid, mid_to_user := [], participants := []\<rparr>))
           \<lparr>queued_offer := None, muted := False\<rparr>)
        SessionState.JoinSent
        [CancelTimer JoinReply, CancelTimer Dtls, CancelTimer IceConnectivity, CancelTimer Media,
         TearDown, join_frame cid, ArmTimer JoinReply JOIN_REPLY_TIMEOUT_MS])"

definition step_leave :: "SessionMachine \<Rightarrow> u32 \<Rightarrow> outcome" where
  "step_leave m cid =
     (if active_cid m \<noteq> Some cid then (m, [])
      else set_state
        ((reset_video (m\<lparr>queued_offer := None, active_cid := None, mid_to_user := [],
                         participants := []\<rparr>))\<lparr>muted := False\<rparr>)
        SessionState.Idle
        [CancelTimer JoinReply, CancelTimer Dtls, CancelTimer IceConnectivity, CancelTimer Media,
         leave_frame cid, TearDown])"

section \<open>Offers and answers\<close>

definition offer_actions :: "string \<Rightarrow> Action list" where
  "offer_actions sdp =
     map StopReceivePipeline (inactive_recv_mids sdp) @ [SetRemoteDescription sdp, CreateAnswer]"

definition step_offer_first :: "SessionMachine \<Rightarrow> u32 \<Rightarrow> string \<Rightarrow> outcome" where
  "step_offer_first m cid sdp =
     (if active_cid m \<noteq> Some cid then (m, [])
      else
        let (m1, acts) = set_state (bind_cid_for_offer (cache_offer_mids m sdp) cid)
              SessionState.OfferPending (CancelTimer JoinReply # offer_actions sdp);
            (m2, sub) = flush_subscriptions m1
        in (m2, acts @ (case sub of None \<Rightarrow> [] | Some a \<Rightarrow> [a])))"

definition step_offer_renegotiate :: "SessionMachine \<Rightarrow> u32 \<Rightarrow> string \<Rightarrow> outcome" where
  "step_offer_renegotiate m cid sdp =
     (if active_cid m \<noteq> Some cid then (m, [])
      else set_state (bind_cid_for_offer (cache_offer_mids m sdp) cid)
             SessionState.OfferPending (offer_actions sdp))"

definition step_offer_queue :: "SessionMachine \<Rightarrow> u32 \<Rightarrow> string \<Rightarrow> outcome" where
  "step_offer_queue m cid sdp =
     (if active_cid m \<noteq> Some cid then (m, [])
      else (m\<lparr>queued_offer := Some (cid, sdp)\<rparr>, []))"

definition answer_actions :: "u32 \<Rightarrow> string \<Rightarrow> Action list" where
  "answer_actions cid sdp =
     [SetLocalDescription sdp,
      SendWireFrame HTLC_HDR_VOICE_SDP_ANSWER (WireFrameBody (encode_cid_plus_sdp cid sdp))]"

definition cid_or_zero :: "SessionMachine \<Rightarrow> u32" where
  "cid_or_zero m = (case active_cid m of None \<Rightarrow> 0 | Some cid \<Rightarrow> cid)"

definition step_answer_connect :: "SessionMachine \<Rightarrow> Action list \<Rightarrow> outcome" where
  "step_answer_connect m acts =
     set_state m SessionState.Connecting
       (acts @ [ArmTimer Dtls DTLS_TIMEOUT_MS, ArmTimer IceConnectivity ICE_TIMEOUT_MS])"

definition step_answer_created :: "SessionMachine \<Rightarrow> string \<Rightarrow> outcome" where
  "step_answer_created m sdp =
     (let acts = answer_actions (cid_or_zero m) sdp; m' = m\<lparr>queued_offer := None\<rparr>
      in case queued_offer m of
        Some (queued_cid, queued_sdp) \<Rightarrow>
          (if active_cid m = Some queued_cid
           then (bind_cid_for_offer (cache_offer_mids m' queued_sdp) queued_cid,
                 acts @ offer_actions queued_sdp)
           else step_answer_connect m' acts)
      | None \<Rightarrow> step_answer_connect m' acts)"

section \<open>Candidates, pads and participants\<close>

definition step_remote_ice :: "SessionMachine \<Rightarrow> u32 \<Rightarrow> string \<Rightarrow> outcome" where
  "step_remote_ice m cid candidate_json =
     (if active_cid m \<noteq> Some cid then (m, []) else (m, [AddRemoteIce candidate_json]))"

definition step_local_ice :: "SessionMachine \<Rightarrow> string \<Rightarrow> outcome" where
  "step_local_ice m candidate_json =
     (m, [SendWireFrame HTLC_HDR_VOICE_ICE
            (WireFrameBody (encode_cid_plus_ice (cid_or_zero m) candidate_json))])"

definition step_pad_added :: "SessionMachine \<Rightarrow> string \<Rightarrow> outcome" where
  "step_pad_added m mid =
     (m, [StartReceivePipeline mid
            (case map_of (mid_to_user m) mid of None \<Rightarrow> 0 | Some u \<Rightarrow> u)])"

definition step_participants :: "SessionMachine \<Rightarrow> u32 \<Rightarrow> Participant list \<Rightarrow> outcome" where
  "step_participants m cid entries =
     (if active_cid m \<noteq> Some cid then (m, [])
      else (m\<lparr>participants := fold (\<lambda>p. AList.update (pt_user_id p) p) entries []\<rparr>,
            [EmitSignal SignalKind.RoomStatus
               (SignalPayload.RoomStatus cid (connection_state_for_session (state m)))]))"

section \<open>Video\<close>

text \<open>One turn of the loop over \<open>VideoKind::ALL\<close> in the \<open>VideoStatusReceived\<close> arm.\<close>

definition status_kind :: "u16 \<Rightarrow> VideoKind \<Rightarrow> outcome \<Rightarrow> outcome" where
  "status_kind uid kind acc =
     (let (m, actions) = acc in
      if local_video m kind = None then (m, actions)
      else if list_ex (\<lambda>p. pub_user_id p = uid \<and> pub_kind p = kind) (publications m)
      then (m\<lparr>local_listed := (local_listed m)(kind := True)\<rparr>, actions)
      else if local_listed m kind
      then (m\<lparr>local_video := (local_video m)(kind := None),
              local_listed := (local_listed m)(kind := False)\<rparr>,
            actions @ [SetVideoPublishing kind False, local_changed kind None])
      else (m, actions))"

definition step_video_status ::
  "SessionMachine \<Rightarrow> u32 \<Rightarrow> Publication list \<Rightarrow> u16 option \<Rightarrow> outcome" where
  "step_video_status m cid pubs self_uid =
     (if active_cid m \<noteq> Some cid then (m, [])
      else
        let m0 = m\<lparr>publications := pubs\<rparr>;
            (m1, actions) =
              (case self_uid of None \<Rightarrow> (m0, []) | Some uid \<Rightarrow> fold (status_kind uid) ALL_KINDS (m0, []))
        in (m1, actions @ [EmitSignal SignalKind.VideoStatus (SignalPayload.VideoStatus cid)]))"

definition step_subscriptions_wanted :: "SessionMachine \<Rightarrow> Stream list \<Rightarrow> outcome" where
  "step_subscriptions_wanted m streams =
     (let (m', sub) = flush_subscriptions (m\<lparr>wanted := remdups_adj (sort streams)\<rparr>)
      in (m', case sub of None \<Rightarrow> [] | Some a \<Rightarrow> [a]))"

definition step_video_start :: "SessionMachine \<Rightarrow> VideoKind \<Rightarrow> outcome" where
  "step_video_start m kind =
     (if \<not> in_voice m \<or> local_video m kind \<noteq> None then (m, [])
      else
        let gen = start_gen m kind + 1
        in (m\<lparr>local_video := (local_video m)(kind := Some False),
              local_listed := (local_listed m)(kind := False),
              start_gen := (start_gen m)(kind := gen),
              pause_gen := (pause_gen m)(kind := pause_gen m kind + 1)\<rparr>,
            [SetVideoPublishing kind True,
             SendWireFrame HTLC_HDR_VIDEO_START
               (WireFrameBody (encode_cid_kind_gen (cid_or_zero m) kind gen)),
             local_changed kind (Some False)]))"

definition step_video_stop :: "SessionMachine \<Rightarrow> VideoKind \<Rightarrow> outcome" where
  "step_video_stop m kind =
     (if \<not> in_voice m \<or> local_video m kind = None then (m, [])
      else (m\<lparr>local_video := (local_video m)(kind := None)\<rparr>,
            [SetVideoPublishing kind False,
             SendWireFrame HTLC_HDR_VIDEO_STOP
               (WireFrameBody (encode_cid_plus_kind (cid_or_zero m) kind)),
             local_changed kind None]))"

definition step_video_pause :: "SessionMachine \<Rightarrow> VideoKind \<Rightarrow> bool \<Rightarrow> outcome" where
  "step_video_pause m kind paused =
     (if \<not> in_voice m then (m, [])
      else case local_video m kind of
        None \<Rightarrow> (m, [])
      | Some p \<Rightarrow>
          (if p = paused then (m, [])
           else
             let gen = pause_gen m kind + 1
             in (m\<lparr>local_video := (local_video m)(kind := Some paused),
                   pause_gen := (pause_gen m)(kind := gen)\<rparr>,
                 [SetVideoPaused kind paused,
                  SendWireFrame HTLC_HDR_VIDEO_STATE
                    (WireFrameBody (encode_cid_kind_paused_gen (cid_or_zero m) kind paused gen)),
                  local_changed kind (Some paused)])))"

definition step_video_start_failed ::
  "SessionMachine \<Rightarrow> u32 \<Rightarrow> VideoKind \<Rightarrow> u32 \<Rightarrow> string \<Rightarrow> outcome" where
  "step_video_start_failed m cid kind gen text =
     (if active_cid m = Some cid \<and> gen = start_gen m kind \<and> local_video m kind \<noteq> None
      then (m\<lparr>local_video := (local_video m)(kind := None)\<rparr>,
            [SetVideoPublishing kind False, local_changed kind None, error_signal text])
      else (m, [error_signal text]))"

definition step_video_pause_failed ::
  "SessionMachine \<Rightarrow> u32 \<Rightarrow> VideoKind \<Rightarrow> u32 \<Rightarrow> string \<Rightarrow> outcome" where
  "step_video_pause_failed m cid kind gen text =
     (case local_video m kind of
        Some paused \<Rightarrow>
          (if active_cid m = Some cid \<and> gen = pause_gen m kind
           then (m\<lparr>local_video := (local_video m)(kind := Some (\<not> paused))\<rparr>,
                 [SetVideoPaused kind (\<not> paused), local_changed kind (Some (\<not> paused)),
                  error_signal text])
           else (m, [error_signal text]))
      | None \<Rightarrow> (m, [error_signal text]))"

definition step_capture_failed :: "SessionMachine \<Rightarrow> VideoKind \<Rightarrow> string \<Rightarrow> outcome" where
  "step_capture_failed m kind text =
     (if local_video m kind = None then (m, [])
      else (m\<lparr>local_video := (local_video m)(kind := None)\<rparr>,
            [SetVideoPublishing kind False] @
            (case active_cid m of
               Some cid \<Rightarrow>
                 (if in_voice m
                  then [SendWireFrame HTLC_HDR_VIDEO_STOP
                          (WireFrameBody (encode_cid_plus_kind cid kind))]
                  else [])
             | None \<Rightarrow> []) @
            [local_changed kind None, error_signal text]))"

section \<open>Mute, connection state, errors and timeouts\<close>

definition step_mute :: "SessionMachine \<Rightarrow> bool \<Rightarrow> outcome" where
  "step_mute m mtd =
     (if muted m = mtd then (m, [])
      else (m\<lparr>muted := mtd\<rparr>,
            [SetSendPipelineMute mtd,
             SendWireFrame HTLC_HDR_VOICE_MUTE
               (WireFrameBody (encode_cid_plus_muted (cid_or_zero m) mtd)),
             EmitSignal SignalKind.MuteChanged (SignalPayload.MuteChanged mtd)]))"

definition step_connected :: "SessionMachine \<Rightarrow> outcome" where
  "step_connected m =
     set_state m SessionState.Connected
       [CancelTimer Dtls, CancelTimer IceConnectivity, ArmTimer Media MEDIA_TIMEOUT_MS]"

definition fail :: "SessionMachine \<Rightarrow> string \<Rightarrow> outcome" where
  "fail m text =
     ((reset_video (m\<lparr>active_cid := None, queued_offer := None\<rparr>))\<lparr>state := SessionState.Leaving\<rparr>,
      [CancelTimer JoinReply] @
      (if state m \<in> {SessionState.Connecting, SessionState.Connected}
       then [CancelTimer Dtls, CancelTimer IceConnectivity] else []) @
      (if state m = SessionState.Connected then [CancelTimer Media] else []) @
      [error_signal text,
       EmitSignal SignalKind.StateChanged (SignalPayload.StateChanged SessionState.Leaving)] @
      (case active_cid m of Some cid \<Rightarrow> [leave_frame cid] | None \<Rightarrow> []) @
      [TearDown])"

definition handle_server_error :: "SessionMachine \<Rightarrow> ServerError \<Rightarrow> outcome" where
  "handle_server_error m err =
     (if origin_opcode err = HTLC_HDR_VOICE_JOIN \<or> origin_opcode err = HTLC_HDR_VOICE_SDP_ANSWER
      then fail m (err_text err)
      else if origin_opcode err = HTLC_HDR_VIDEO_SUBSCRIBE
      then (m\<lparr>subscribed_stale := True\<rparr>, [error_signal (err_text err)])
      else (m, [error_signal (err_text err)]))"

text \<open>The em dash of the user-facing texts, as its UTF-8 bytes.\<close>

definition em_dash :: string where
  "em_dash = [CHR 0xE2, CHR 0x80, CHR 0x94]"

definition step_timeout :: "SessionMachine \<Rightarrow> Timeout \<Rightarrow> outcome" where
  "step_timeout m kind =
     (case kind of
        JoinReply \<Rightarrow>
          (if state m = SessionState.JoinSent
           then fail m ''Server did not reply to voice join'' else (m, []))
      | IceConnectivity \<Rightarrow>
          (if state m \<in> {SessionState.Connecting, SessionState.Connected}
           then (m, [error_signal (''Voice ICE connectivity check slow '' @ em_dash @
                                   '' keeping session alive'')])
           else (m, []))
      | Dtls \<Rightarrow>
          (if state m = SessionState.Connecting
           then (m, [error_signal (''Voice DTLS handshake slow '' @ em_dash @
                                   '' keeping session alive'')])
           else (m, []))
      | Media \<Rightarrow>
          (if state m = SessionState.Connected
           then (m, [error_signal (''Voice quiet for 30s '' @ em_dash @
                                   '' no audio received from any participant (everyone muted?)'')])
           else (m, []))
      | WedgeDeadline \<Rightarrow>
          (if state m = SessionState.Connecting
           then fail m (''Voice connection wedged '' @ em_dash @
                        '' no media received during the runtime's wedge-watchdog window'')
           else (m, [])))"

definition step_connection_state :: "SessionMachine \<Rightarrow> ConnectionState \<Rightarrow> outcome" where
  "step_connection_state m cs =
     (if cs = ConnectionState.Connected \<and> state m = SessionState.Connecting then step_connected m
      else if cs = ConnectionState.Failed \<and> in_voice m then fail m ''WebRTC connection failed''
      else (m, []))"

section \<open>One transition\<close>

text \<open>The states of a room that was asked for and not left: from \<open>JoinSent\<close> to \<open>Connected\<close>.\<close>

definition joined :: "SessionMachine \<Rightarrow> bool" where
  "joined m \<longleftrightarrow>
     state m \<in> {SessionState.JoinSent, SessionState.OfferPending, SessionState.Connecting,
                SessionState.Connected}"

fun step :: "SessionMachine \<Rightarrow> Event \<Rightarrow> outcome" where
  "step m (JoinRequested cid) =
     (if state m = SessionState.Idle then step_join_idle m cid else step_join_switch m cid)"
| "step m (LeaveRequested cid) = (if joined m then step_leave m cid else (m, []))"
| "step m (SdpOfferReceived cid sdp) =
     (case state m of
        SessionState.JoinSent \<Rightarrow> step_offer_first m cid sdp
      | SessionState.Connected \<Rightarrow> step_offer_renegotiate m cid sdp
      | SessionState.Connecting \<Rightarrow> step_offer_renegotiate m cid sdp
      | SessionState.OfferPending \<Rightarrow> step_offer_queue m cid sdp
      | _ \<Rightarrow> (m, []))"
| "step m (WebrtcAnswerCreated sdp) =
     (if state m = SessionState.OfferPending then step_answer_created m sdp else (m, []))"
| "step m (IceCandidateReceived cid candidate_json) =
     (if in_voice m then step_remote_ice m cid candidate_json else (m, []))"
| "step m (EndOfRemoteCandidates cid) = (m, [])"
| "step m (WebrtcLocalIceGathered candidate_json) =
     (if in_voice m then step_local_ice m candidate_json else (m, []))"
| "step m (WebrtcPadAdded mid) = (if in_voice m then step_pad_added m mid else (m, []))"
| "step m (WebrtcPadRemoved mid) = (if in_voice m then (m, [StopReceivePipeline mid]) else (m, []))"
| "step m (ParticipantsUpdated cid entries) =
     (if joined m then step_participants m cid entries else (m, []))"
| "step m (VideoStatusReceived cid pubs self_uid) =
     (if joined m then step_video_status m cid pubs self_uid else (m, []))"
| "step m (VideoSubscriptionsWanted streams) = step_subscriptions_wanted m streams"
| "step m (VideoStartRequested kind) = step_video_start m kind"
| "step m (VideoStopRequested kind) = step_video_stop m kind"
| "step m (VideoPauseRequested kind paused) = step_video_pause m kind paused"
| "step m (VideoStartFailed cid kind gen text) = step_video_start_failed m cid kind gen text"
| "step m (VideoPauseFailed cid kind gen text) = step_video_pause_failed m cid kind gen text"
| "step m (VideoCaptureFailed kind text) = step_capture_failed m kind text"
| "step m (MuteToggleRequested mtd) = (if joined m then step_mute m mtd else (m, []))"
| "step m (WebrtcConnectionStateChanged cs) = step_connection_state m cs"
| "step m (ServerTaskError err) = handle_server_error m err"
| "step m (Timeout kind) = step_timeout m kind"

end
