(* ===== verification/Voice_Inv.thy ===== *)
theory Voice_Inv
  imports Voice_State
begin

text \<open>
  The invariant of the voice session machine and its preservation by every handler, with the
  lemmas on the offer scanners the properties rest on.  The machine is an \<open>event_machine\<close>.
\<close>

lemmas outcome_defs =
  set_state_def reset_video_def bind_cid_for_offer_def cache_offer_mids_def

lemmas handler_defs =
  step_join_idle_def step_join_switch_def step_leave_def step_offer_first_def
  step_offer_renegotiate_def step_offer_queue_def step_answer_created_def step_answer_connect_def
  step_remote_ice_def step_local_ice_def step_pad_added_def step_participants_def
  step_video_status_def step_subscriptions_wanted_def step_video_start_def step_video_stop_def
  step_video_pause_def step_video_start_failed_def step_video_pause_failed_def
  step_capture_failed_def step_mute_def step_connected_def fail_def handle_server_error_def
  step_timeout_def step_connection_state_def

section \<open>What an offer caches\<close>

lemma distinct_cache_mids:
  "distinct (map fst acc) \<Longrightarrow> distinct (map fst (cache_mids acc ls))"
  by (induction acc ls rule: cache_mids.induct)
     (auto simp: distinct_update split: option.splits)

lemma mid_line_user_iff:
  "mid_line_user l = Some (mid, uid) \<longleftrightarrow>
   l = ''a=mid:'' @ mid \<and> (\<exists>t. parse_mid mid = Some t \<and> track_user_id t = Some uid)"
  by (auto simp: mid_line_user_def strip_prefix_iff bind_eq_Some_conv split: option.splits)

lemma map_of_cache_mids:
  "map_of (cache_mids acc ls) mid =
     (if (''a=mid:'' @ mid) \<in> set ls \<and> Option.bind (parse_mid mid) track_user_id \<noteq> None
      then Option.bind (parse_mid mid) track_user_id else map_of acc mid)"
proof (induction ls arbitrary: acc)
  case (Cons l ls)
  show ?case
  proof (cases "mid_line_user l")
    case None
    then have "l = ''a=mid:'' @ mid \<Longrightarrow> Option.bind (parse_mid mid) track_user_id = None"
      by (auto simp: mid_line_user_def)
    with None Cons show ?thesis by auto
  next
    case (Some p)
    then obtain mid' uid' where p: "mid_line_user l = Some (mid', uid')" by (cases p) auto
    then have "l = ''a=mid:'' @ mid'" and "Option.bind (parse_mid mid') track_user_id = Some uid'"
      by (auto simp: mid_line_user_iff)
    with p Cons show ?thesis by (auto simp: update_conv')
  qed
qed simp

definition mids_ok :: "(string \<times> u16) list \<Rightarrow> bool" where
  "mids_ok c \<longleftrightarrow> distinct (map fst c) \<and>
     list_all (\<lambda>(mid, uid). Option.bind (parse_mid mid) track_user_id = Some uid) c"

lemma mids_ok_Nil [simp]: "mids_ok []"
  by (simp add: mids_ok_def)

lemma mids_ok_cache_mids [simp]: "mids_ok (cache_mids [] ls)"
proof -
  have d: "distinct (map fst (cache_mids [] ls))" by (rule distinct_cache_mids) simp
  have "Option.bind (parse_mid mid) track_user_id = Some uid"
    if "(mid, uid) \<in> set (cache_mids [] ls)" for mid uid
  proof -
    from that d have "map_of (cache_mids [] ls) mid = Some uid" by simp
    then show ?thesis by (simp add: map_of_cache_mids split: if_splits)
  qed
  with d show ?thesis by (auto simp: mids_ok_def list_all_iff)
qed

lemma distinct_fold_update:
  "distinct (map fst acc) \<Longrightarrow>
   distinct (map fst (fold (\<lambda>p. AList.update (f p) p) ps acc))"
  by (induction ps arbitrary: acc) (simp_all add: distinct_update)

section \<open>The invariant\<close>

definition session_inv :: "SessionMachine \<Rightarrow> bool" where
  "session_inv m \<longleftrightarrow>
     (active_cid m = None \<longleftrightarrow> state m = SessionState.Idle \<or> state m = SessionState.Leaving) \<and>
     (queued_offer m \<noteq> None \<longrightarrow>
        state m = SessionState.OfferPending \<and> map_option fst (queued_offer m) = active_cid m) \<and>
     (if in_voice m then subscribed m = wanted m
      else subscribed m = [] \<and> (\<forall>k. local_video m k = None)) \<and>
     sorted (wanted m) \<and> distinct (wanted m) \<and>
     (state m = SessionState.Idle \<longrightarrow>
        \<not> muted m \<and> mid_to_user m = [] \<and> participants m = []) \<and>
     mids_ok (mid_to_user m) \<and> distinct (map fst (participants m))"

lemma session_inv_new: "session_inv new_machine"
  by (simp add: session_inv_def new_machine_def in_voice_def)

lemma distinct_remdups_adj_sorted:
  "sorted xs \<Longrightarrow> distinct (remdups_adj xs)" for xs :: "Stream list"
  by (induction xs rule: remdups_adj.induct) (auto simp: order_antisym)

lemma wanted_normal [simp]:
  "sorted (remdups_adj (sort (xs :: Stream list)))" "distinct (remdups_adj (sort xs))"
  by (simp_all add: sorted_remdups_adj distinct_remdups_adj_sorted)

lemmas inv_simps = session_inv_def in_voice_def joined_def outcome_defs

text \<open>
  One lemma per handler; each is stated under the guard \<open>step\<close> calls the handler with, where
  the handler relies on it.
\<close>

lemma inv_join_idle: "session_inv (fst (step_join_idle m cid))" if "session_inv m" "\<not> muted m"
  using that by (simp add: inv_simps step_join_idle_def)

lemma inv_join_switch: "session_inv m \<Longrightarrow> session_inv (fst (step_join_switch m cid))"
  by (cases "state m \<noteq> SessionState.Leaving \<and> active_cid m = Some cid")
     (simp_all add: step_join_switch_def, auto simp: inv_simps)

lemma inv_leave: "session_inv m \<Longrightarrow> session_inv (fst (step_leave m cid))"
  by (cases "active_cid m = Some cid") (simp_all add: step_leave_def, simp add: inv_simps)

lemma inv_fail: "session_inv m \<Longrightarrow> session_inv (fst (fail m text))"
  by (simp add: inv_simps fail_def)

lemma inv_offer_first:
  "session_inv m \<Longrightarrow> state m = SessionState.JoinSent \<Longrightarrow>
   session_inv (fst (step_offer_first m cid sdp))"
  by (cases "active_cid m = Some cid"; cases "queued_offer m")
     (auto simp: step_offer_first_def flush_subscriptions_def inv_simps Let_def)

lemma inv_offer_renegotiate:
  "session_inv m \<Longrightarrow> state m = SessionState.Connected \<or> state m = SessionState.Connecting \<Longrightarrow>
   session_inv (fst (step_offer_renegotiate m cid sdp))"
  by (cases "active_cid m = Some cid"; cases "queued_offer m")
     (auto simp: step_offer_renegotiate_def inv_simps)

lemma inv_offer_queue:
  "session_inv m \<Longrightarrow> state m = SessionState.OfferPending \<Longrightarrow>
   session_inv (fst (step_offer_queue m cid sdp))"
  by (cases "active_cid m = Some cid") (auto simp: step_offer_queue_def inv_simps)

lemma inv_answer_created:
  "session_inv m \<Longrightarrow> state m = SessionState.OfferPending \<Longrightarrow>
   session_inv (fst (step_answer_created m sdp))"
  by (cases "queued_offer m")
     (auto simp: step_answer_created_def step_answer_connect_def inv_simps Let_def)

lemma inv_participants:
  assumes "session_inv m" and "joined m"
  shows "session_inv (fst (step_participants m cid ps))"
proof (cases "active_cid m = Some cid")
  case True
  with assms show ?thesis
    by (auto simp: step_participants_def inv_simps distinct_fold_update)
qed (simp add: assms step_participants_def)

lemma inv_local_video:
  assumes "session_inv m" and "local_video m kind \<noteq> None \<or> in_voice m"
  shows "session_inv (m\<lparr>local_video := (local_video m)(kind := v)\<rparr>)"
  using assms by (auto simp: session_inv_def in_voice_def split: if_splits)

lemma inv_frame [simp]:
  "session_inv (m\<lparr>publications := pubs\<rparr>) = session_inv m"
  "session_inv (m\<lparr>local_listed := l\<rparr>) = session_inv m"
  "session_inv (m\<lparr>start_gen := g\<rparr>) = session_inv m"
  "session_inv (m\<lparr>pause_gen := g\<rparr>) = session_inv m"
  "session_inv (m\<lparr>subscribed_stale := b\<rparr>) = session_inv m"
  by (simp_all add: session_inv_def in_voice_def)

lemma inv_status_kind:
  "session_inv (fst acc) \<Longrightarrow> session_inv (fst (status_kind uid kind acc))"
  by (cases acc) (simp add: status_kind_def inv_local_video)

lemma inv_video_status:
  assumes "session_inv m"
  shows "session_inv (fst (step_video_status m cid pubs self_uid))"
proof -
  have "session_inv (fst (fold (status_kind uid) ALL_KINDS (m\<lparr>publications := pubs\<rparr>, [])))" for uid
    using assms by (simp add: ALL_KINDS_def inv_status_kind)
  then show ?thesis
    using assms
    by (simp add: step_video_status_def Let_def case_prod_unfold split: option.splits)
qed

lemma inv_flush:
  assumes "session_inv (m\<lparr>subscribed := if in_voice m then wanted m else subscribed m\<rparr>)"
  shows "session_inv (fst (flush_subscriptions m))"
proof (cases "in_voice m")
  case True
  with assms obtain cid where cid: "active_cid m = Some cid"
    by (cases "active_cid m") (auto simp: session_inv_def in_voice_def)
  from True assms have "session_inv (m\<lparr>subscribed := wanted m\<rparr>)" by simp
  then have "session_inv (m\<lparr>subscribed := wanted m, subscribed_stale := False\<rparr>)" by simp
  moreover have "session_inv m" if "wanted m = subscribed m"
    using that True assms by (simp add: session_inv_def in_voice_def)
  ultimately show ?thesis using True cid by (simp add: flush_subscriptions_def)
qed (use assms in \<open>simp add: flush_subscriptions_def\<close>)

lemma in_voice_frame [simp]:
  "in_voice (m\<lparr>wanted := w\<rparr>) = in_voice m" "in_voice (m\<lparr>subscribed := w\<rparr>) = in_voice m"
  "in_voice (m\<lparr>local_video := v\<rparr>) = in_voice m"
  by (simp_all add: in_voice_def)

lemma inv_subscriptions_wanted:
  assumes "session_inv m"
  shows "session_inv (fst (step_subscriptions_wanted m streams))"
proof -
  let ?m = "m\<lparr>wanted := remdups_adj (sort streams)\<rparr>"
  have "session_inv (?m\<lparr>subscribed := if in_voice ?m then wanted ?m else subscribed ?m\<rparr>)"
    using assms by (cases "in_voice m") (simp_all add: session_inv_def)
  then have "session_inv (fst (flush_subscriptions ?m))" by (rule inv_flush)
  then show ?thesis
    by (simp add: step_subscriptions_wanted_def Let_def case_prod_unfold)
qed

lemma inv_video_start: "session_inv m \<Longrightarrow> session_inv (fst (step_video_start m kind))"
  by (simp add: step_video_start_def Let_def inv_local_video)

lemma inv_video_stop: "session_inv m \<Longrightarrow> session_inv (fst (step_video_stop m kind))"
  by (simp add: step_video_stop_def inv_local_video)

lemma inv_video_pause: "session_inv m \<Longrightarrow> session_inv (fst (step_video_pause m kind p))"
  by (simp add: step_video_pause_def Let_def inv_local_video split: option.splits)

lemma inv_video_start_failed:
  "session_inv m \<Longrightarrow> session_inv (fst (step_video_start_failed m cid kind gen text))"
  by (simp add: step_video_start_failed_def inv_local_video)

lemma inv_video_pause_failed:
  "session_inv m \<Longrightarrow> session_inv (fst (step_video_pause_failed m cid kind gen text))"
  by (simp add: step_video_pause_failed_def inv_local_video split: option.splits)

lemma inv_capture_failed: "session_inv m \<Longrightarrow> session_inv (fst (step_capture_failed m kind text))"
  by (simp add: step_capture_failed_def inv_local_video)

lemma inv_muted:
  "session_inv m \<Longrightarrow> state m \<noteq> SessionState.Idle \<Longrightarrow> session_inv (m\<lparr>muted := b\<rparr>)"
  by (simp add: session_inv_def in_voice_def)

lemma inv_mute: "session_inv m \<Longrightarrow> joined m \<Longrightarrow> session_inv (fst (step_mute m mtd))"
  by (cases "muted m = mtd") (auto simp: step_mute_def joined_def intro!: inv_muted)

lemma inv_connected:
  "session_inv m \<Longrightarrow> state m = SessionState.Connecting \<Longrightarrow> session_inv (fst (step_connected m))"
  by (simp add: step_connected_def inv_simps)

lemma inv_connection_state: "session_inv m \<Longrightarrow> session_inv (fst (step_connection_state m cs))"
  by (simp add: step_connection_state_def inv_fail inv_connected)

lemma inv_server_error: "session_inv m \<Longrightarrow> session_inv (fst (handle_server_error m err))"
  by (simp add: handle_server_error_def inv_fail)

lemma inv_timeout: "session_inv m \<Longrightarrow> session_inv (fst (step_timeout m kind))"
  by (simp add: step_timeout_def inv_fail split: Timeout.splits)

lemma idle_not_muted: "session_inv m \<Longrightarrow> state m = SessionState.Idle \<Longrightarrow> \<not> muted m"
  by (simp add: session_inv_def)

lemmas inv_handlers =
  inv_join_idle inv_join_switch inv_leave inv_offer_first inv_offer_renegotiate inv_offer_queue
  inv_answer_created inv_participants inv_video_status inv_subscriptions_wanted inv_video_start
  inv_video_stop inv_video_pause inv_video_start_failed inv_video_pause_failed inv_capture_failed
  inv_mute inv_connection_state inv_server_error inv_timeout idle_not_muted

lemma session_inv_step:
  assumes "session_inv m" shows "session_inv (fst (step m e))"
  using assms
  by (cases e)
     (simp_all add: inv_handlers step_remote_ice_def step_local_ice_def step_pad_added_def
        split: SessionState.splits)

interpretation voice: event_machine new_machine step session_inv
  by unfold_locales (simp_all add: session_inv_new session_inv_step)

end
