(* ===== verification/Voice_Monitors.thy ===== *)
theory Voice_Monitors
  imports Voice_Inv
begin

text \<open>
  Observers of the voice session machine: what the server, the peer connection and the timer
  service can tell from the frames, the webrtcbin calls and the timer requests a run of the machine
  emits.  Each observer folds over the events and the actions; it is related to the machine's
  state by an agreement that every step keeps, which makes the machine a \<open>monitored_machine\<close>.

  The four observers:
  \<^item> \<open>room_obs\<close>, the server's view of which room the client is in, read off the join and leave
    frames, and whether any other frame was addressed to another room;
  \<^item> \<open>nego_obs\<close>, how many answers webrtcbin has been asked for and not delivered;
  \<^item> \<open>timer_obs\<close>, which timers are armed;
  \<^item> \<open>video_obs\<close>, the last subscription frame since the join, and per kind how many start and
    state frames were sent.
\<close>

section \<open>Quiet actions\<close>

text \<open>The actions none of the observers looks at.\<close>

fun quiet :: "Action \<Rightarrow> bool" where
  "quiet (SendWireFrame _ _) = False"
| "quiet (SetRemoteDescription _) = False"
| "quiet CreateAnswer = False"
| "quiet (ArmTimer _ _) = False"
| "quiet (CancelTimer _) = False"
| "quiet TearDown = False"
| "quiet _ = True"

lemma foldl_quiet:
  assumes "\<And>a r. quiet a \<Longrightarrow> obs r a = r" and "list_all quiet acts"
  shows "foldl obs r acts = r"
  using assms by (induction acts arbitrary: r) simp_all

lemma quiet_stop_receive [simp]: "list_all quiet (map StopReceivePipeline xs)"
  by (induction xs) simp_all

lemma quiet_signals [simp]: "quiet (local_changed k v)" "quiet (error_signal t)"
  by (simp_all add: local_changed_def error_signal_def)

lemma quiet_status_kind:
  "list_all quiet (snd acc) \<Longrightarrow> list_all quiet (snd (status_kind uid kind acc))"
  by (cases acc) (simp add: status_kind_def)

lemma quiet_video_status: "list_all quiet (snd (step_video_status m cid pubs self_uid))"
proof -
  have "list_all quiet (snd (fold (status_kind uid) ALL_KINDS (m\<lparr>publications := pubs\<rparr>, [])))" for uid
    by (simp add: ALL_KINDS_def quiet_status_kind)
  then show ?thesis
    by (simp add: step_video_status_def Let_def case_prod_unfold split: option.splits)
qed

lemma status_kind_frame [simp]:
  "state (fst (status_kind uid k acc)) = state (fst acc)"
  "active_cid (fst (status_kind uid k acc)) = active_cid (fst acc)"
  "subscribed (fst (status_kind uid k acc)) = subscribed (fst acc)"
  "start_gen (fst (status_kind uid k acc)) = start_gen (fst acc)"
  "pause_gen (fst (status_kind uid k acc)) = pause_gen (fst acc)"
  by (simp_all add: status_kind_def case_prod_unfold Let_def)

lemma video_status_frame [simp]:
  "state (fst (step_video_status m cid pubs self_uid)) = state m"
  "active_cid (fst (step_video_status m cid pubs self_uid)) = active_cid m"
  "subscribed (fst (step_video_status m cid pubs self_uid)) = subscribed m"
  "start_gen (fst (step_video_status m cid pubs self_uid)) = start_gen m"
  "pause_gen (fst (step_video_status m cid pubs self_uid)) = pause_gen m"
  by (simp_all add: step_video_status_def ALL_KINDS_def Let_def case_prod_unfold split: option.splits)

lemma video_status_quiet_fold:
  assumes "\<And>a r. quiet a \<Longrightarrow> obs r a = r"
  shows "foldl obs r (snd (step_video_status m cid pubs self_uid)) = r"
  using assms quiet_video_status by (rule foldl_quiet)

text \<open>
  What the step lemmas unfold: every handler but \<open>step_video_status\<close>, of which the frame lemmas
  above say all an observer needs.
\<close>

lemmas observed_defs =
  step_join_idle_def step_join_switch_def step_leave_def step_offer_first_def
  step_offer_renegotiate_def step_offer_queue_def step_answer_created_def step_answer_connect_def
  step_remote_ice_def step_local_ice_def step_pad_added_def step_participants_def
  step_subscriptions_wanted_def step_video_start_def step_video_stop_def
  step_video_pause_def step_video_start_failed_def step_video_pause_failed_def
  step_capture_failed_def step_mute_def step_connected_def fail_def handle_server_error_def
  step_timeout_def step_connection_state_def flush_subscriptions_def
  outcome_defs opcode_defs cid_or_zero_def join_frame_def leave_frame_def error_signal_def
  local_changed_def answer_actions_def Let_def

lemma idle_or_leaving:
  "session_inv m \<Longrightarrow> active_cid m = None \<Longrightarrow>
   state m = SessionState.Idle \<or> state m = SessionState.Leaving"
  by (simp add: session_inv_def)

lemma joined_iff_active: "session_inv m \<Longrightarrow> joined m \<longleftrightarrow> active_cid m \<noteq> None"
  by (cases "state m") (simp_all add: session_inv_def joined_def)

section \<open>The room as the server sees it\<close>

fun frame_cid :: "WireFrameBody \<Rightarrow> u32 option" where
  "frame_cid (WireFrameBody (a # b # c # d # _)) = Some (from_be32 a b c d)"
| "frame_cid _ = None"

record room_obs =
  room :: "u32 option"
  misaddressed :: bool

fun room_action :: "room_obs \<Rightarrow> Action \<Rightarrow> room_obs" where
  "room_action r (SendWireFrame opcode body) =
     (if opcode = HTLC_HDR_VOICE_JOIN then r\<lparr>room := frame_cid body\<rparr>
      else if room r = None \<or> frame_cid body \<noteq> room r then r\<lparr>misaddressed := True\<rparr>
      else if opcode = HTLC_HDR_VOICE_LEAVE then r\<lparr>room := None\<rparr>
      else r)"
| "room_action r _ = r"

definition room_mon :: "room_obs \<Rightarrow> Event \<Rightarrow> Action list \<Rightarrow> room_obs" where
  "room_mon r e acts = foldl room_action r acts"

definition room_init :: room_obs where
  "room_init = \<lparr>room = None, misaddressed = False\<rparr>"

definition room_agree :: "SessionMachine \<Rightarrow> room_obs \<Rightarrow> bool" where
  "room_agree m r \<longleftrightarrow> room r = active_cid m \<and> \<not> misaddressed r"

lemma frame_cid_be32 [simp]:
  "frame_cid (WireFrameBody (be_bytes32 cid)) = Some cid"
  "frame_cid (WireFrameBody (be_bytes32 cid @ rest)) = Some cid"
  by (simp_all add: be_bytes32_def be_simps)

lemma frame_cid_encode [simp]:
  "frame_cid (WireFrameBody (encode_cid_only cid)) = Some cid"
  "frame_cid (WireFrameBody (encode_cid_plus_sdp cid s)) = Some cid"
  "frame_cid (WireFrameBody (encode_cid_plus_ice cid s)) = Some cid"
  "frame_cid (WireFrameBody (encode_cid_plus_kind cid k)) = Some cid"
  "frame_cid (WireFrameBody (encode_cid_kind_gen cid k g)) = Some cid"
  "frame_cid (WireFrameBody (encode_cid_kind_paused_gen cid k b g)) = Some cid"
  "frame_cid (WireFrameBody (encode_cid_plus_streams cid sts)) = Some cid"
  "frame_cid (WireFrameBody (encode_cid_plus_muted cid b)) = Some cid"
  by (simp_all add: encode_defs)

lemma room_action_quiet: "quiet a \<Longrightarrow> room_action r a = r"
  by (cases a) simp_all

lemmas room_foldl_quiet [simp] = foldl_quiet [of room_action, OF room_action_quiet]

lemma active_cid_in_voice: "session_inv m \<Longrightarrow> joined m \<Longrightarrow> \<exists>cid. active_cid m = Some cid"
  by (auto simp: session_inv_def joined_def)

lemma in_voice_joined: "in_voice m \<Longrightarrow> joined m"
  by (auto simp: in_voice_def joined_def)

lemmas room_simps = room_agree_def room_mon_def observed_defs joined_def in_voice_def

lemma room_offer_actions [simp]: "foldl room_action r (offer_actions sdp) = r"
  by (simp add: offer_actions_def)

lemma room_agree_step:
  assumes "session_inv m" and "room_agree m r"
  shows "room_agree (fst (step m e)) (room_mon r e (snd (step m e)))"
proof (cases "active_cid m")
  case None
  then show ?thesis
    using assms idle_or_leaving [OF assms(1) None]
    by (cases e) (auto simp: room_simps split: option.splits Timeout.splits)
next
  case (Some c)
  then show ?thesis
    using assms
    by (cases e)
       (simp_all add: room_simps video_status_quiet_fold [of room_action, OF room_action_quiet]
          split: option.splits SessionState.splits Timeout.splits)
qed

interpretation voice_room: monitored_machine new_machine step session_inv room_init room_mon room_agree
  by unfold_locales
     (simp_all add: room_agree_step, simp add: room_agree_def room_init_def new_machine_def)

section \<open>The offer/answer exchange with webrtcbin\<close>

text \<open>
  \<open>outstanding\<close> counts the answers webrtcbin was asked for and has not produced; a teardown closes
  webrtcbin and forgets them.  \<open>overlapped\<close> records that a remote description was set or an answer
  asked for while one was outstanding.
\<close>

record nego_obs =
  outstanding :: nat
  overlapped :: bool

fun nego_event :: "nego_obs \<Rightarrow> Event \<Rightarrow> nego_obs" where
  "nego_event n (WebrtcAnswerCreated _) = n\<lparr>outstanding := outstanding n - 1\<rparr>"
| "nego_event n _ = n"

fun nego_action :: "nego_obs \<Rightarrow> Action \<Rightarrow> nego_obs" where
  "nego_action n (SetRemoteDescription _) =
     n\<lparr>overlapped := (overlapped n \<or> outstanding n \<noteq> 0)\<rparr>"
| "nego_action n CreateAnswer =
     n\<lparr>overlapped := (overlapped n \<or> outstanding n \<noteq> 0), outstanding := Suc (outstanding n)\<rparr>"
| "nego_action n TearDown = n\<lparr>outstanding := 0\<rparr>"
| "nego_action n _ = n"

definition nego_mon :: "nego_obs \<Rightarrow> Event \<Rightarrow> Action list \<Rightarrow> nego_obs" where
  "nego_mon n e acts = foldl nego_action (nego_event n e) acts"

definition nego_init :: nego_obs where
  "nego_init = \<lparr>outstanding = 0, overlapped = False\<rparr>"

definition nego_agree :: "SessionMachine \<Rightarrow> nego_obs \<Rightarrow> bool" where
  "nego_agree m n \<longleftrightarrow>
     outstanding n = (if state m = SessionState.OfferPending then 1 else 0) \<and> \<not> overlapped n"

lemma nego_action_quiet: "quiet a \<Longrightarrow> nego_action r a = r"
  by (cases a) simp_all

lemmas nego_foldl_quiet [simp] = foldl_quiet [of nego_action, OF nego_action_quiet]

lemma nego_offer_actions [simp]:
  "foldl nego_action n (offer_actions sdp) =
     n\<lparr>overlapped := (overlapped n \<or> outstanding n \<noteq> 0), outstanding := Suc (outstanding n)\<rparr>"
  by (simp add: offer_actions_def)

lemmas nego_simps = nego_agree_def nego_mon_def observed_defs joined_def in_voice_def

lemma nego_agree_step:
  assumes "session_inv m" and "nego_agree m n"
  shows "nego_agree (fst (step m e)) (nego_mon n e (snd (step m e)))"
  using assms
  by (cases e)
     (simp_all add: nego_simps video_status_quiet_fold [of nego_action, OF nego_action_quiet]
        split: option.splits SessionState.splits Timeout.splits)

interpretation voice_nego: monitored_machine new_machine step session_inv nego_init nego_mon nego_agree
  by unfold_locales
     (simp_all add: nego_agree_step, simp add: nego_agree_def nego_init_def new_machine_def)

section \<open>Timers\<close>

type_synonym timer_obs = "Timeout \<Rightarrow> bool"

fun timer_event :: "timer_obs \<Rightarrow> Event \<Rightarrow> timer_obs" where
  "timer_event t (Timeout k) = t(k := False)"
| "timer_event t _ = t"

fun timer_action :: "timer_obs \<Rightarrow> Action \<Rightarrow> timer_obs" where
  "timer_action t (ArmTimer k _) = t(k := True)"
| "timer_action t (CancelTimer k) = t(k := False)"
| "timer_action t _ = t"

definition timer_mon :: "timer_obs \<Rightarrow> Event \<Rightarrow> Action list \<Rightarrow> timer_obs" where
  "timer_mon t e acts = foldl timer_action (timer_event t e) acts"

definition timer_init :: timer_obs where
  "timer_init = (\<lambda>_. False)"

definition timer_agree :: "SessionMachine \<Rightarrow> timer_obs \<Rightarrow> bool" where
  "timer_agree m t \<longleftrightarrow>
     (t JoinReply \<longleftrightarrow> state m = SessionState.JoinSent) \<and> \<not> t WedgeDeadline \<and>
     (state m = SessionState.Idle \<or> state m = SessionState.JoinSent \<longrightarrow>
        \<not> t Dtls \<and> \<not> t IceConnectivity \<and> \<not> t Media)"

lemma timer_action_quiet: "quiet a \<Longrightarrow> timer_action r a = r"
  by (cases a) simp_all

lemmas timer_foldl_quiet [simp] = foldl_quiet [of timer_action, OF timer_action_quiet]

lemma timer_offer_actions [simp]: "foldl timer_action t (offer_actions sdp) = t"
  by (simp add: offer_actions_def)

lemmas timer_simps = timer_agree_def timer_mon_def observed_defs joined_def in_voice_def

lemma timer_agree_step:
  assumes "session_inv m" and "timer_agree m t"
  shows "timer_agree (fst (step m e)) (timer_mon t e (snd (step m e)))"
  using assms
  by (cases e)
     (simp_all add: timer_simps video_status_quiet_fold [of timer_action, OF timer_action_quiet]
        split: option.splits SessionState.splits Timeout.splits)

interpretation voice_timers: monitored_machine new_machine step session_inv timer_init timer_mon timer_agree
  by unfold_locales
     (simp_all add: timer_agree_step, simp add: timer_agree_def timer_init_def new_machine_def)

section \<open>Video requests\<close>

text \<open>
  \<open>last_subscribe\<close> is the body of the last 610 since the join; \<open>starts\<close> and \<open>states\<close> count, per
  kind, the 607 and the 609 frames sent so far.
\<close>

fun frame_kind :: "WireFrameBody \<Rightarrow> VideoKind option" where
  "frame_kind (WireFrameBody (_ # _ # _ # _ # a # b # _)) = from_wire (from_be16 a b)"
| "frame_kind _ = None"

record video_obs =
  last_subscribe :: "bytes option"
  starts :: "VideoKind \<Rightarrow> nat"
  states :: "VideoKind \<Rightarrow> nat"

definition count_kind :: "(VideoKind \<Rightarrow> nat) \<Rightarrow> VideoKind option \<Rightarrow> VideoKind \<Rightarrow> nat" where
  "count_kind f k = (case k of None \<Rightarrow> f | Some k \<Rightarrow> f(k := Suc (f k)))"

fun video_action :: "video_obs \<Rightarrow> Action \<Rightarrow> video_obs" where
  "video_action v (SendWireFrame opcode body) =
     (if opcode = HTLC_HDR_VOICE_JOIN \<or> opcode = HTLC_HDR_VOICE_LEAVE then v\<lparr>last_subscribe := None\<rparr>
      else if opcode = HTLC_HDR_VIDEO_SUBSCRIBE then v\<lparr>last_subscribe := Some (body_bytes body)\<rparr>
      else if opcode = HTLC_HDR_VIDEO_START then v\<lparr>starts := count_kind (starts v) (frame_kind body)\<rparr>
      else if opcode = HTLC_HDR_VIDEO_STATE then v\<lparr>states := count_kind (states v) (frame_kind body)\<rparr>
      else v)"
| "video_action v _ = v"

definition video_mon :: "video_obs \<Rightarrow> Event \<Rightarrow> Action list \<Rightarrow> video_obs" where
  "video_mon v e acts = foldl video_action v acts"

definition video_init :: video_obs where
  "video_init = \<lparr>last_subscribe = None, starts = (\<lambda>_. 0), states = (\<lambda>_. 0)\<rparr>"

definition video_agree :: "SessionMachine \<Rightarrow> video_obs \<Rightarrow> bool" where
  "video_agree m v \<longleftrightarrow>
     (if last_subscribe v = None then subscribed m = []
      else last_subscribe v =
             map_option (\<lambda>cid. encode_cid_plus_streams cid (subscribed m)) (active_cid m)) \<and>
     (\<forall>k. start_gen m k = of_nat (starts v k)) \<and>
     (\<forall>k. pause_gen m k = of_nat (starts v k + states v k))"

lemma video_action_quiet: "quiet a \<Longrightarrow> video_action r a = r"
  by (cases a) simp_all

lemmas video_foldl_quiet [simp] = foldl_quiet [of video_action, OF video_action_quiet]

lemma video_offer_actions [simp]: "foldl video_action v (offer_actions sdp) = v"
  by (simp add: offer_actions_def)

lemma frame_kind_encode [simp]:
  "frame_kind (WireFrameBody (encode_cid_kind_gen cid k g)) = Some k"
  "frame_kind (WireFrameBody (encode_cid_kind_paused_gen cid k b g)) = Some k"
  by (simp_all add: encode_defs be_bytes32_def be_bytes16_def be_simps)

lemmas video_simps = video_agree_def video_mon_def count_kind_def observed_defs joined_def in_voice_def

lemma video_agree_step:
  assumes "session_inv m" and "video_agree m v"
  shows "video_agree (fst (step m e)) (video_mon v e (snd (step m e)))"
proof (cases "active_cid m")
  case None
  then show ?thesis
    using assms idle_or_leaving [OF assms(1) None]
    by (cases e) (auto simp: video_simps split: option.splits Timeout.splits if_splits)
next
  case (Some c)
  then show ?thesis
    using assms
    by (cases e)
       (simp_all add: video_simps video_status_quiet_fold [of video_action, OF video_action_quiet]
          split: option.splits SessionState.splits Timeout.splits if_splits)
qed

interpretation voice_video: monitored_machine new_machine step session_inv video_init video_mon video_agree
  by unfold_locales
     (simp_all add: video_agree_step, simp add: video_agree_def video_init_def new_machine_def)

end
