(* ===== verification/Voice_Props.thy ===== *)
theory Voice_Props
  imports Voice_Monitors
begin

text \<open>
  The properties of the voice session machine: what holds of every run from a new machine, what a
  stale message or refusal can do, what an offer and a queued offer cause, and what a join starts
  from.  Each rests on the invariant of \<open>Voice_Inv\<close> or on an observer of \<open>Voice_Monitors\<close>.
\<close>

section \<open>Every run\<close>

text \<open>C1: whatever events arrive, in whatever order, the machine keeps its invariant: it is bound
  to a room exactly when it is neither idle nor failed; an offer is queued only while another is
  being answered, and for the bound room; outside voice it holds no subscription and no publication,
  inside voice the subscription set is the wanted set, sorted and without duplicates; an idle
  machine is unmuted and has forgotten the last room; every cached mid names the user its label
  names.\<close>

theorem voice_invariant: "session_inv (fst (run_machine step new_machine es))"
  by (rule voice.inv_run)

text \<open>C2: the server's view of the client's room, read off the join and leave frames alone, is the
  machine's own room after every run, and no other frame was ever sent outside a room or addressed
  to a room other than the joined one: no failure path leaves a ghost participant behind.\<close>

theorem voice_server_room:
  "let (m, r) = run_monitor step room_mon new_machine room_init es
   in room r = active_cid m \<and> \<not> misaddressed r"
  using voice_room.agree_run [of es] by (simp add: room_agree_def case_prod_unfold)

text \<open>C7: webrtcbin is never given a remote description or asked for an answer while an answer is
  outstanding, and one is outstanding exactly while the machine waits in \<open>OfferPending\<close>.\<close>

theorem voice_offers_serialised:
  "let (m, n) = run_monitor step nego_mon new_machine nego_init es
   in \<not> overlapped n \<and> outstanding n = (if state m = SessionState.OfferPending then 1 else 0)"
  using voice_nego.agree_run [of es] by (simp add: nego_agree_def case_prod_unfold)


definition rejoin_events :: "Event list" where
  "rejoin_events = [JoinRequested 7, SdpOfferReceived 7 ''v=0'', WebrtcAnswerCreated ''v=0'', JoinRequested 9]"



definition subscribe_events :: "Event list" where
  "subscribe_events =
     [JoinRequested 7, VideoSubscriptionsWanted [Stream 3 Screen, Stream 3 Camera, Stream 3 Screen],
      SdpOfferReceived 7 ''v=0'']"

lemma subscribe_events_run:
  "run_monitor step video_mon new_machine video_init subscribe_events =
     (fst (run_machine step new_machine subscribe_events),
      video_init\<lparr>last_subscribe := Some (encode_cid_plus_streams 7 [Stream 3 Camera, Stream 3 Screen])\<rparr>)"
  by (simp add: subscribe_events_def new_machine_def observed_defs offer_actions_def in_voice_def
      inactive_recv_mids_def sdp_lines_def str_lines_def trim_end_matches_def starts_with_def
      video_mon_def video_init_def less_eq_Stream_def less_eq_VideoKind_def)


section \<open>Stale messages and refusals\<close>

fun names_room :: "Event \<Rightarrow> u32 option" where
  "names_room (LeaveRequested cid) = Some cid"
| "names_room (SdpOfferReceived cid _) = Some cid"
| "names_room (IceCandidateReceived cid _) = Some cid"
| "names_room (EndOfRemoteCandidates cid) = Some cid"
| "names_room (ParticipantsUpdated cid _) = Some cid"
| "names_room (VideoStatusReceived cid _ _) = Some cid"
| "names_room _ = None"

text \<open>a message or a request that names a room other than the bound one is dropped: the machine
  is unchanged and nothing is sent.  This covers offers, candidates, participant lists, publication
  lists and leave requests.\<close>

theorem voice_other_room_ignored:
  assumes "names_room e = Some cid" and "active_cid m \<noteq> Some cid"
  shows "step m e = (m, [])"
  using assms
  by (cases e)
     (simp_all add: step_leave_def step_offer_first_def step_offer_renegotiate_def
        step_offer_queue_def step_remote_ice_def step_participants_def step_video_status_def
        split: SessionState.splits)

theorem voice_other_room_ignored_witness:
  "step (new_machine\<lparr>state := SessionState.Connected, active_cid := Some 7\<rparr>)
     (SdpOfferReceived 9 ''a=mid:user-5'') =
   (new_machine\<lparr>state := SessionState.Connected, active_cid := Some 7\<rparr>, [])"
  by (rule voice_other_room_ignored [of _ 9]) simp_all

lemma of_nat_minus_neq:
  "0 < d \<Longrightarrow> d < 2 ^ 32 \<Longrightarrow> d \<le> n \<Longrightarrow> (of_nat (n - d) :: u32) \<noteq> of_nat n"
proof
  assume d: "0 < d" "d < 2 ^ 32" "d \<le> n" and eq: "(of_nat (n - d) :: u32) = of_nat n"
  then have "(of_nat (n - (n - d)) :: u32) = 0" by (simp add: of_nat_diff)
  with d have "(of_nat d :: u32) = 0" by simp
  then have "unat (of_nat d :: u32) = 0" by simp
  with d show False by (simp add: unat_of_nat)
qed

text \<open>a refusal undoes only the request it answers.  After any run, a refused start that is not
  the latest start of its kind, and a refused pause that is older than the latest start or pause of
  its kind, changes nothing but the error shown; requests are told apart as long as fewer than
  \<open>2 ^ 32\<close> of them lie between.\<close>

theorem voice_stale_refusals_ignored:
  assumes "run_monitor step video_mon new_machine video_init es = (m, v)"
    and "0 < d" and "d < 2 ^ 32"
  shows "(d \<le> starts v k \<longrightarrow>
            step m (VideoStartFailed cid k (of_nat (starts v k - d)) text) = (m, [error_signal text])) \<and>
         (d \<le> starts v k + states v k \<longrightarrow>
            step m (VideoPauseFailed cid k (of_nat (starts v k + states v k - d)) text) =
              (m, [error_signal text]))"
proof -
  have "start_gen m k = of_nat (starts v k)" and "pause_gen m k = of_nat (starts v k + states v k)"
    using voice_video.agree_run [of es] assms(1) by (simp_all add: video_agree_def)
  then show ?thesis
    using of_nat_minus_neq [OF assms(2,3)]
    by (auto simp: step_video_start_failed_def step_video_pause_failed_def split: option.splits)
qed

definition restart_events :: "Event list" where
  "restart_events =
     [JoinRequested 7, SdpOfferReceived 7 ''v=0'', VideoStartRequested Camera,
      VideoStopRequested Camera, VideoStartRequested Camera]"

theorem voice_stale_refusals_ignored_witness:
  "(let (m, v) = run_monitor step video_mon new_machine video_init restart_events
    in starts v Camera = 2 \<and> local_video m Camera = Some False \<and>
       step m (VideoStartFailed 7 Camera 1 ''refused'') = (m, [error_signal ''refused'']))"
proof -
  obtain m v where run: "run_monitor step video_mon new_machine video_init restart_events = (m, v)"
    by (cases "run_monitor step video_mon new_machine video_init restart_events")
  then have mv: "starts v Camera = 2 \<and> local_video m Camera = Some False"
    by (auto simp: restart_events_def new_machine_def observed_defs offer_actions_def in_voice_def
        inactive_recv_mids_def sdp_lines_def str_lines_def trim_end_matches_def starts_with_def
        video_mon_def video_init_def count_kind_def)
  then show ?thesis
    using voice_stale_refusals_ignored [OF run, of 1 Camera 7 "''refused''"] run by simp
qed

section \<open>Offers\<close>

text \<open>the mid scanner accepts exactly the canonical labels: a mid names a track if and only if
  it is that track's label and the track's user id is not zero, so no two labels name one track and
  no label with a leading zero, a sign or an id past 65535 is taken.\<close>

theorem parse_mid_iff:
  "parse_mid mid = Some t \<longleftrightarrow> mid = track_label t \<and> track_user_id t \<noteq> Some 0"
  using parse_mid_label parse_mid_SomeD by blast

lemma flush_frame [simp]:
  "state (fst (flush_subscriptions m)) = state m"
  "mid_to_user (fst (flush_subscriptions m)) = mid_to_user m"
  by (simp_all add: flush_subscriptions_def split: option.splits)

lemma offer_taken:
  assumes "active_cid m = Some cid"
    and "state m \<in> {SessionState.JoinSent, SessionState.Connecting, SessionState.Connected}"
  shows "in_voice (fst (step m (SdpOfferReceived cid sdp)))"
    and "mid_to_user (fst (step m (SdpOfferReceived cid sdp))) = cache_mids [] (sdp_lines sdp)"
  using assms
  by (auto simp: step_offer_first_def step_offer_renegotiate_def outcome_defs in_voice_def Let_def
      case_prod_unfold)

lemma parse_user_5: "parse_mid ''user-5'' = Some (Audio 5)"
proof -
  have "''user-5'' = track_label (Audio 5)" by code_simp
  then show ?thesis using parse_mid_label [of "Audio 5"] by simp
qed

text \<open>C34: a receive pad that appears after an offer was taken is played as the user its mid names, if
  the offer has that mid on a line of its own, and as the anonymous user 0 otherwise.\<close>

theorem voice_pad_attribution:
  assumes "active_cid m = Some cid"
    and "state m \<in> {SessionState.JoinSent, SessionState.Connecting, SessionState.Connected}"
  shows "step (fst (step m (SdpOfferReceived cid sdp))) (WebrtcPadAdded mid) =
    (fst (step m (SdpOfferReceived cid sdp)),
     [StartReceivePipeline mid
        (case Option.bind (parse_mid mid) track_user_id of
           Some uid \<Rightarrow> if (''a=mid:'' @ mid) \<in> set (sdp_lines sdp) then uid else 0
         | None \<Rightarrow> 0)])"
  using offer_taken [OF assms, of sdp]
  by (simp add: step_pad_added_def map_of_cache_mids split: option.splits)

theorem voice_pad_attribution_witness:
  "snd (step (fst (step (new_machine\<lparr>state := SessionState.JoinSent, active_cid := Some 7\<rparr>)
        (SdpOfferReceived 7 (''m=audio'' @ [CHR 0x0D, CHR 0x0A] @ ''a=mid:user-5'' @ [CHR 0x0D, CHR 0x0A]))))
      (WebrtcPadAdded ''user-5'')) = [StartReceivePipeline ''user-5'' 5]"
  by (subst voice_pad_attribution)
     (simp_all add: parse_user_5 sdp_lines_def str_lines_def strip_cr_def trim_end_matches_def)

lemma queue_offers:
  "state m = SessionState.OfferPending \<Longrightarrow> active_cid m = Some cid \<Longrightarrow>
   run_machine step m (map (SdpOfferReceived cid) (sdps @ [sdp])) =
     (m\<lparr>queued_offer := Some (cid, sdp)\<rparr>, [])"
  by (induction sdps arbitrary: m) (simp_all add: step_offer_queue_def Let_def)

text \<open>of the offers that arrive while one is being answered, only the newest is taken up: the
  next answer is flushed first, then that offer's remote description is set and its answer asked
  for, and the machine stays in \<open>OfferPending\<close> with an empty queue.\<close>

theorem voice_newest_offer_wins:
  assumes "state m = SessionState.OfferPending" and "active_cid m = Some cid"
  shows "\<exists>m'. run_machine step m (map (SdpOfferReceived cid) (sdps @ [sdp]) @ [WebrtcAnswerCreated answer]) =
           (m', answer_actions cid answer @ offer_actions sdp) \<and>
         state m' = SessionState.OfferPending \<and> queued_offer m' = None \<and>
         mid_to_user m' = cache_mids [] (sdp_lines sdp)"
  unfolding run_machine_append queue_offers [OF assms]
  using assms by (simp add: step_answer_created_def cid_or_zero_def outcome_defs Let_def)

theorem voice_newest_offer_wins_witness:
  "\<exists>m'. run_machine step (new_machine\<lparr>state := SessionState.OfferPending, active_cid := Some 7\<rparr>)
      [SdpOfferReceived 7 ''old'', SdpOfferReceived 7 ''new'', WebrtcAnswerCreated ''answer''] =
      (m', answer_actions 7 ''answer'' @ offer_actions ''new'') \<and>
    state m' = SessionState.OfferPending \<and> queued_offer m' = None \<and>
    mid_to_user m' = cache_mids [] (sdp_lines ''new'')"
  using voice_newest_offer_wins
      [of "new_machine\<lparr>state := SessionState.OfferPending, active_cid := Some 7\<rparr>" 7 "[''old'']" "''new''"
          "''answer''"]
  by simp

section \<open>Departed participants\<close>

text \<open>
  An offer's lines, cut before every \<open>m=\<close> line; the first piece is the session part.  A section
  is in order when it has at most one mid line and no \<open>a=inactive\<close> line before it.
\<close>

fun sections_from :: "string list \<Rightarrow> string list \<Rightarrow> string list list" where
  "sections_from cur [] = [cur]"
| "sections_from cur (l # ls) =
     (if starts_with ''m='' l then cur # sections_from [l] ls else sections_from (cur @ [l]) ls)"

definition line_mid :: "string \<Rightarrow> string option" where
  "line_mid l = strip_prefix ''a=mid:'' l"

fun section_in_order :: "string list \<Rightarrow> bool" where
  "section_in_order [] = True"
| "section_in_order (l # ls) =
     (if line_mid l \<noteq> None
      then list_all (\<lambda>k. line_mid k = None) ls
      else (l = ''a=inactive'' \<longrightarrow> list_all (\<lambda>k. line_mid k = None) ls) \<and> section_in_order ls)"

definition section_mid :: "string list \<Rightarrow> string option" where
  "section_mid sec = (case List.map_filter line_mid sec of [] \<Rightarrow> None | mid # _ \<Rightarrow> Some mid)"

definition receives :: "string \<Rightarrow> bool" where
  "receives mid = (case parse_mid mid of Some t \<Rightarrow> is_receive t | None \<Rightarrow> False)"

definition section_inactive :: "string list \<Rightarrow> string list" where
  "section_inactive sec =
     (case section_mid sec of
        None \<Rightarrow> []
      | Some mid \<Rightarrow> if receives mid then replicate (count_list sec ''a=inactive'') mid else [])"

lemma inactive_mids_no_mid:
  "list_all (\<lambda>k. line_mid k = None) ls \<Longrightarrow> list_all (\<lambda>k. \<not> starts_with ''m='' k) ls \<Longrightarrow>
   inactive_mids_from cur ls =
     (case cur of
        None \<Rightarrow> []
      | Some mid \<Rightarrow> if receives mid then replicate (count_list ls ''a=inactive'') mid else [])"
  by (induction ls)
     (auto simp: line_mid_def receives_def split: option.splits)

lemma section_mid_Cons:
  "section_mid (l # ls) = (case line_mid l of None \<Rightarrow> section_mid ls | Some mid \<Rightarrow> Some mid)"
  by (simp add: section_mid_def map_filter_simps split: option.splits)

lemma section_mid_None: "list_all (\<lambda>k. line_mid k = None) ls \<Longrightarrow> section_mid ls = None"
  by (induction ls) (simp_all add: section_mid_Cons, simp add: section_mid_def map_filter_simps)

lemma line_mid_not_inactive: "line_mid l = Some mid \<Longrightarrow> l \<noteq> ''a=inactive''"
  by (auto simp: line_mid_def strip_prefix_iff)

lemma inactive_mids_section:
  "section_in_order ls \<Longrightarrow> list_all (\<lambda>k. \<not> starts_with ''m='' k) ls \<Longrightarrow>
   inactive_mids_from None ls = section_inactive ls"
proof (induction ls)
  case (Cons l ls)
  show ?case
  proof (cases "line_mid l")
    case None
    with Cons show ?thesis
      by (auto simp: section_inactive_def section_mid_Cons section_mid_None
          inactive_mids_no_mid line_mid_def split: option.splits)
  next
    case (Some mid)
    with Cons.prems show ?thesis
      by (simp add: section_inactive_def section_mid_Cons inactive_mids_no_mid
          line_mid_not_inactive line_mid_def [symmetric])
  qed
qed (simp add: section_inactive_def section_mid_def map_filter_simps)

lemma media_line:
  assumes "starts_with ''m='' l"
  shows "line_mid l = None" and "l \<noteq> ''a=inactive''"
  using assms by (auto simp: starts_with_iff line_mid_def not_Some_eq [symmetric] strip_prefix_iff)

lemma section_media_line:
  assumes "starts_with ''m='' l"
  shows "section_inactive (l # ls) = section_inactive ls"
    and "section_in_order (l # ls) = section_in_order ls"
  using media_line [OF assms] by (auto simp: section_inactive_def section_mid_Cons split: option.splits)

lemma inactive_mids_next_section:
  "list_all (\<lambda>k. \<not> starts_with ''m='' k) xs \<Longrightarrow> starts_with ''m='' l \<Longrightarrow>
   inactive_mids_from cur (xs @ l # rest) = inactive_mids_from cur xs @ inactive_mids_from None rest"
  by (induction xs arbitrary: cur) (simp_all split: option.splits)

lemma inactive_mids_sections:
  assumes "list_all (\<lambda>k. \<not> starts_with ''m='' k) cur" and "list_all (starts_with ''m='') pre"
    and "length pre \<le> 1" and "list_all section_in_order (sections_from (pre @ cur) ls)"
  shows "inactive_mids_from None (cur @ ls) = concat (map section_inactive (sections_from (pre @ cur) ls))"
  using assms
proof (induction ls arbitrary: pre cur)
  case Nil
  then show ?case
    by (cases pre) (simp_all add: inactive_mids_section section_media_line del: section_in_order.simps)
next
  case (Cons l ls)
  show ?case
  proof (cases "starts_with ''m='' l")
    case True
    with Cons.prems have "inactive_mids_from None cur = section_inactive (pre @ cur)"
      by (cases pre) (simp_all add: inactive_mids_section section_media_line del: section_in_order.simps)
    moreover have "inactive_mids_from None ([] @ ls) =
        concat (map section_inactive (sections_from ([l] @ []) ls))"
      using Cons.prems True by (intro Cons.IH) simp_all
    ultimately show ?thesis
      using True Cons.prems by (simp add: inactive_mids_next_section)
  next
    case False
    then show ?thesis
      using Cons.IH [of "cur @ [l]" pre] Cons.prems by simp
  qed
qed

text \<open>an offer whose sections put the mid before the direction tears down exactly the departed
  receive legs: for each section marked inactive, the section's mid if it names somebody else's
  media, and nothing else.\<close>

theorem inactive_recv_mids_by_section:
  assumes "list_all section_in_order (sections_from [] (sdp_lines sdp))"
  shows "inactive_recv_mids sdp = concat (map section_inactive (sections_from [] (sdp_lines sdp)))"
  using inactive_mids_sections [of "[]" "[]" "sdp_lines sdp"] assms
  by (simp add: inactive_recv_mids_def)

definition departed_sdp :: string where
  "departed_sdp = concat (map (\<lambda>l. l @ [CHR 0x0D, CHR 0x0A])
     [''v=0'', ''m=audio'', ''a=mid:send'', ''a=sendrecv'', ''m=audio'', ''a=mid:user-5'', ''a=inactive'',
      ''m=audio'', ''a=mid:user-6'', ''a=sendonly''])"

theorem inactive_recv_mids_by_section_witness:
  "list_all section_in_order (sections_from [] (sdp_lines departed_sdp)) \<and>
   inactive_recv_mids departed_sdp = concat (map section_inactive (sections_from [] (sdp_lines departed_sdp))) \<and>
   concat (map section_inactive (sections_from [] (sdp_lines departed_sdp))) = [''user-5'']"
proof -
  have ord: "list_all section_in_order (sections_from [] (sdp_lines departed_sdp))"
    by code_simp
  moreover have "sections_from [] (sdp_lines departed_sdp) =
      [[''v=0''], [''m=audio'', ''a=mid:send'', ''a=sendrecv''],
       [''m=audio'', ''a=mid:user-5'', ''a=inactive''], [''m=audio'', ''a=mid:user-6'', ''a=sendonly'']]"
    by code_simp
  then have "concat (map section_inactive (sections_from [] (sdp_lines departed_sdp))) = [''user-5'']"
    by (simp add: section_inactive_def section_mid_def line_mid_def map_filter_simps receives_def parse_user_5)
  ultimately show ?thesis
    using inactive_recv_mids_by_section [OF ord] by simp
qed

text \<open>the scan is sensitive to the order of a section's lines: a departed participant whose
  section says \<open>a=inactive\<close> before its mid is not torn down, although the section carries both.\<close>

theorem inactive_before_mid_missed:
  "inactive_recv_mids (''m=audio'' @ [CHR 0x0A] @ ''a=inactive'' @ [CHR 0x0A] @ ''a=mid:user-5'' @ [CHR 0x0A]) = []
   \<and> receives ''user-5''"
proof -
  have "sdp_lines (''m=audio'' @ [CHR 0x0A] @ ''a=inactive'' @ [CHR 0x0A] @ ''a=mid:user-5'' @ [CHR 0x0A]) =
      [''m=audio'', ''a=inactive'', ''a=mid:user-5'']"
    by code_simp
  then show ?thesis
    by (simp add: inactive_recv_mids_def starts_with_def receives_def parse_user_5)
qed

section \<open>Joining afresh, failing, timing out\<close>

text \<open>after any run, a join that is not the repetition of a live one starts from nothing: the
  machine is a new one bound to the requested room, but for the request counters.\<close>

theorem voice_join_fresh:
  assumes "m = fst (run_machine step new_machine es)"
    and "state m = SessionState.Leaving \<or> active_cid m \<noteq> Some cid"
  shows "fst (step m (JoinRequested cid)) =
    new_machine\<lparr>state := SessionState.JoinSent, active_cid := Some cid,
                start_gen := start_gen m, pause_gen := pause_gen m\<rparr>"
proof -
  have "state m = SessionState.Idle \<Longrightarrow> \<not> muted m"
    using voice.inv_run [of es] assms(1) by (simp add: idle_not_muted)
  moreover have "\<not> (state m \<noteq> SessionState.Leaving \<and> active_cid m = Some cid)"
    using assms(2) by blast
  ultimately show ?thesis
    by (intro SessionMachine.equality)
       (simp_all only: step.simps step_join_idle_def step_join_switch_def if_False,
        simp_all add: outcome_defs new_machine_def)
qed

theorem voice_join_fresh_witness:
  "fst (step (fst (run_machine step new_machine rejoin_events)) (JoinRequested 3)) =
     new_machine\<lparr>state := SessionState.JoinSent, active_cid := Some 3,
       start_gen := start_gen (fst (run_machine step new_machine rejoin_events)),
       pause_gen := pause_gen (fst (run_machine step new_machine rejoin_events))\<rparr>"
proof (rule voice_join_fresh [OF refl])
  show "state (fst (run_machine step new_machine rejoin_events)) = SessionState.Leaving \<or>
      active_cid (fst (run_machine step new_machine rejoin_events)) \<noteq> Some 3"
    by (simp add: rejoin_events_def new_machine_def observed_defs in_voice_def)
qed

text \<open>only the join watchdog, and the runtime's wedge deadline while connecting, end a session;
  every other expiry leaves the machine as it was and at most shows an error.\<close>

theorem voice_timeouts:
  "(fst (step m (Timeout k)) = m \<and> list_all quiet (snd (step m (Timeout k)))) \<or>
   ((k = JoinReply \<and> state m = SessionState.JoinSent \<or>
     k = WedgeDeadline \<and> state m = SessionState.Connecting) \<and>
    (\<exists>text. step m (Timeout k) = fail m text))"
  by (cases k) (auto simp: step_timeout_def)

definition failed_renegotiation :: "Event list" where
  "failed_renegotiation =
     [JoinRequested 7, SdpOfferReceived 7 ''v=0'', WebrtcAnswerCreated ''v=0'', SdpOfferReceived 7 ''v=0'',
      WebrtcConnectionStateChanged ConnectionState.Failed]"

text \<open>a failure during a renegotiation leaves the watchdogs of the finished negotiation armed,
  though the session is torn down; they expire without effect, since a failed machine ignores every
  timeout, and the next join cancels them.\<close>

theorem voice_failed_renegotiation_timers:
  "let (m, t) = run_monitor step timer_mon new_machine timer_init failed_renegotiation
   in state m = SessionState.Leaving \<and> t Dtls \<and> t IceConnectivity \<and>
      (\<forall>k. step m (Timeout k) = (m, []))"
proof -
  have "inactive_recv_mids ''v=0'' = []"
    by (simp add: inactive_recv_mids_def sdp_lines_def str_lines_def trim_end_matches_def starts_with_def)
  then show ?thesis
    by (simp add: failed_renegotiation_def new_machine_def observed_defs offer_actions_def in_voice_def
        timer_mon_def timer_init_def split: Timeout.splits)
qed

end
