(* ===== verification/Voice_Arbiter.thy ===== *)
theory Voice_Arbiter
  imports Hx_Prelude
begin

text \<open>
  Who owns the microphone (crate \<open>gtkhx-ui\<close>, \<open>voice_arbiter.rs\<close>): a token that one connection and
  room holds, or nobody.

  A session is a number, 0 the null pointer; \<open>key_for_session\<close>, which names its connection, lives in
  the widget code and is an argument of the operations.  The tab mark \<open>show_holder\<close> sets is an
  output.
\<close>

type_synonym conn_key = u16

record Holder =
  hd_conn :: conn_key
  hd_cid :: u32

datatype AcquireAnswer = Free | Preempts Holder

definition acquire_voice :: "(nat \<Rightarrow> conn_key) \<Rightarrow> Holder option \<Rightarrow> nat \<Rightarrow> u32 \<Rightarrow> AcquireAnswer" where
  "acquire_voice key_for_session holder sess cid =
     (case holder of
        Some h \<Rightarrow> if hd_conn h = key_for_session sess \<and> hd_cid h = cid then Free else Preempts h
      | None \<Rightarrow> Free)"

definition show_holder :: "Holder option \<Rightarrow> conn_key option" where
  "show_holder holder = map_option hd_conn holder"

type_synonym marked = "Holder option \<times> conn_key option list"

definition take_voice :: "(nat \<Rightarrow> conn_key) \<Rightarrow> Holder option \<Rightarrow> nat \<Rightarrow> u32 \<Rightarrow> marked" where
  "take_voice key_for_session holder sess cid =
     (let h = Some \<lparr>hd_conn = key_for_session sess, hd_cid = cid\<rparr> in (h, [show_holder h]))"

definition release_conn :: "Holder option \<Rightarrow> conn_key \<Rightarrow> u32 \<Rightarrow> marked" where
  "release_conn holder conn cid =
     (let h = (if holder = Some \<lparr>hd_conn = conn, hd_cid = cid\<rparr> then None else holder)
      in (h, [show_holder h]))"

definition release_voice :: "(nat \<Rightarrow> conn_key) \<Rightarrow> Holder option \<Rightarrow> nat \<Rightarrow> u32 \<Rightarrow> marked" where
  "release_voice key_for_session holder sess cid = release_conn holder (key_for_session sess) cid"

definition release_session :: "(nat \<Rightarrow> conn_key) \<Rightarrow> Holder option \<Rightarrow> nat \<Rightarrow> marked" where
  "release_session key_for_session holder sess =
     (if key_for_session sess = 0 then (holder, [])
      else let h = (if map_option hd_conn holder = Some (key_for_session sess) then None else holder)
        in (h, [show_holder h]))"

datatype VoiceOp = Take nat u32 | ReleaseRoom nat u32 | ReleaseConn conn_key u32 | ReleaseSession nat

fun voice_op :: "(nat \<Rightarrow> conn_key) \<Rightarrow> Holder option \<Rightarrow> VoiceOp \<Rightarrow> marked" where
  "voice_op key h (Take s cid) = take_voice key h s cid"
| "voice_op key h (ReleaseRoom s cid) = release_voice key h s cid"
| "voice_op key h (ReleaseConn c cid) = release_conn h c cid"
| "voice_op key h (ReleaseSession s) = release_session key h s"

text \<open>The observer: the mark last put on the tabs, none at the start, and the last room taken with no
  release of it since.\<close>

record MicObs =
  mo_mark :: "conn_key option"
  mo_claim :: "(conn_key \<times> u32) option"

definition mic_obs :: "(nat \<Rightarrow> conn_key) \<Rightarrow> MicObs \<Rightarrow> VoiceOp \<Rightarrow> conn_key option list \<Rightarrow> MicObs" where
  "mic_obs key m e outs =
     \<lparr>mo_mark = (if outs = [] then mo_mark m else last outs),
      mo_claim = (case e of
          Take s cid \<Rightarrow> Some (key s, cid)
        | ReleaseRoom s cid \<Rightarrow> if mo_claim m = Some (key s, cid) then None else mo_claim m
        | ReleaseConn c cid \<Rightarrow> if mo_claim m = Some (c, cid) then None else mo_claim m
        | ReleaseSession s \<Rightarrow>
            if key s \<noteq> 0 \<and> map_option fst (mo_claim m) = Some (key s) then None else mo_claim m)\<rparr>"

definition mic_agree :: "Holder option \<Rightarrow> MicObs \<Rightarrow> bool" where
  "mic_agree h m \<longleftrightarrow> mo_mark m = map_option hd_conn h \<and>
     mo_claim m = map_option (\<lambda>h. (hd_conn h, hd_cid h)) h"

lemma holder_eq: "h = \<lparr>hd_conn = c, hd_cid = d\<rparr> \<longleftrightarrow> hd_conn h = c \<and> hd_cid h = d"
  by (cases h) simp

lemma mic_agree_step:
  "mic_agree h m \<Longrightarrow> mic_agree (fst (voice_op key h e)) (mic_obs key m e (snd (voice_op key h e)))"
  by (cases e; cases h)
    (auto simp: mic_agree_def mic_obs_def take_voice_def release_voice_def release_conn_def
      release_session_def show_holder_def Let_def holder_eq)

interpretation mic: monitored_machine "None :: Holder option" "voice_op key" "\<lambda>_. True"
  "\<lparr>mo_mark = None, mo_claim = None\<rparr>" "mic_obs key" mic_agree
  by unfold_locales (simp_all add: mic_agree_step, simp add: mic_agree_def)

text \<open>the microphone token, the mark on the tabs and the joins agree: after any sequence of joins
  and releases by any sessions, the token is with the last room joined unless that very room, or its
  whole connection, was released since, and the tab marked is that of the token.\<close>

theorem microphone_token:
  "mo_mark (snd (run_monitor (voice_op key) (mic_obs key) None \<lparr>mo_mark = None, mo_claim = None\<rparr> es)) =
     show_holder (fst (run_machine (voice_op key) None es)) \<and>
   mo_claim (snd (run_monitor (voice_op key) (mic_obs key) None \<lparr>mo_mark = None, mo_claim = None\<rparr> es)) =
     map_option (\<lambda>h. (hd_conn h, hd_cid h)) (fst (run_machine (voice_op key) None es))"
  using mic.agree_run [of key es]
  by (simp add: mic_agree_def show_holder_def run_monitor_state)

end
