(* ===== verification/Hx_Text.thy ===== *)
theory Hx_Text
  imports Hx_Prelude
begin

text \<open>
  UTF-8 text, the way the standard library reads it.

  A Rust \<open>String\<close> is the list of its UTF-8 bytes.  \<open>utf8_lossy\<close> is \<open>String::from_utf8_lossy\<close>: each
  maximal prefix of an ill-formed sequence becomes one replacement character; \<open>utf8_valid\<close> is the
  type invariant of \<open>str\<close>.  \<open>split_whitespace\<close> splits on the characters with the Unicode
  property \<open>White_Space\<close>, and \<open>eq_ignore_ascii_case\<close> compares with ASCII letters folded.  The lemmas
  show that decoding is the identity on valid text and always produces valid text, that valid text
  may be cut at an ASCII character, and how tokens are read off a line.
\<close>

section \<open>Decoding\<close>

abbreviation code :: "char \<Rightarrow> nat" where
  "code c \<equiv> of_char c"

definition utf8_char_width :: "char \<Rightarrow> nat" where
  "utf8_char_width c =
     (if code c < 0x80 then 1 else if code c < 0xC2 then 0 else if code c < 0xE0 then 2
      else if code c < 0xF0 then 3 else if code c < 0xF5 then 4 else 0)"

definition is_cont :: "char \<Rightarrow> bool" where
  "is_cont c \<longleftrightarrow> 0x80 \<le> code c \<and> code c < 0xC0"

text \<open>The second byte of a sequence: over-long forms, surrogates and values past U+10FFFF are
  ill-formed.\<close>

definition second_ok :: "char \<Rightarrow> char \<Rightarrow> bool" where
  "second_ok b c \<longleftrightarrow> is_cont c \<and>
     (code b = 0xE0 \<longrightarrow> 0xA0 \<le> code c) \<and> (code b = 0xED \<longrightarrow> code c < 0xA0) \<and>
     (code b = 0xF0 \<longrightarrow> 0x90 \<le> code c) \<and> (code b = 0xF4 \<longrightarrow> code c < 0x90)"

text \<open>How many bytes after the first continue the sequence.\<close>

definition cont_len :: "char \<Rightarrow> string \<Rightarrow> nat" where
  "cont_len b s = (case s of [] \<Rightarrow> 0 | c # r \<Rightarrow>
     if second_ok b c then Suc (length (takeWhile is_cont (take (utf8_char_width b - 2) r))) else 0)"

definition replacement_character :: string where
  "replacement_character = [char_of (0xEF :: nat), char_of (0xBF :: nat), char_of (0xBD :: nat)]"

function (sequential) utf8_lossy :: "string \<Rightarrow> string" where
  "utf8_lossy [] = []"
| "utf8_lossy (b # s) =
     (if utf8_char_width b = 1 then b # utf8_lossy s
      else if utf8_char_width b = 0 then replacement_character @ utf8_lossy s
      else let k = cont_len b s in
        if Suc k = utf8_char_width b then b # take k s @ utf8_lossy (drop k s)
        else replacement_character @ utf8_lossy (drop k s))"
  by pat_completeness auto
termination by (relation "measure length") auto

function (sequential) utf8_valid :: "string \<Rightarrow> bool" where
  "utf8_valid [] = True"
| "utf8_valid (b # s) =
     (if utf8_char_width b = 1 then utf8_valid s
      else utf8_char_width b \<noteq> 0 \<and> Suc (cont_len b s) = utf8_char_width b \<and>
        utf8_valid (drop (cont_len b s) s))"
  by pat_completeness auto
termination by (relation "measure length") auto

declare utf8_lossy.simps(2) [simp del] utf8_valid.simps(2) [simp del]

lemma length_takeWhile_take_le:
  "length (takeWhile P (take n r)) = n \<Longrightarrow> n \<le> length r"
  using length_takeWhile_le [of P "take n r"] by simp

lemma takeWhile_full: "length (takeWhile P xs) = length xs \<Longrightarrow> takeWhile P xs = xs"
  by (metis append_Nil2 append_eq_conv_conj takeWhile_dropWhile_id takeWhile_eq_take)

lemma takeWhile_take_full:
  assumes n: "length (takeWhile P (take n (r @ c # t))) = n" and c: "\<not> P c"
  shows "n \<le> length r"
proof (rule ccontr)
  assume "\<not> n \<le> length r"
  then have "c \<in> set (take n (r @ c # t))"
    by (cases "n - length r") simp_all
  moreover have "length (take n (r @ c # t)) = n"
    using length_takeWhile_take_le [OF n] by simp
  with n have "takeWhile P (take n (r @ c # t)) = take n (r @ c # t)"
    by (intro takeWhile_full) simp
  ultimately show False using c by (metis set_takeWhileD)
qed

text \<open>A complete sequence is recognised without looking past it.\<close>

lemma cont_len_full:
  assumes "Suc (cont_len b s) = utf8_char_width b" "utf8_char_width b \<noteq> 1"
  obtains c r where "s = c # r" "second_ok b c" "utf8_char_width b - 2 \<le> length r"
    "takeWhile is_cont (take (utf8_char_width b - 2) r) = take (utf8_char_width b - 2) r"
    "cont_len b s = Suc (utf8_char_width b - 2)"
proof -
  from assms obtain c r where s: "s = c # r" "second_ok b c"
    by (cases s) (auto simp: cont_len_def split: if_splits)
  let ?n = "utf8_char_width b - 2"
  from assms s have n: "length (takeWhile is_cont (take ?n r)) = ?n"
    by (auto simp: cont_len_def)
  then have le: "?n \<le> length r" by (rule length_takeWhile_take_le)
  with n have "length (takeWhile is_cont (take ?n r)) = length (take ?n r)" by simp
  then have tw: "takeWhile is_cont (take ?n r) = take ?n r"
    by (rule takeWhile_full)
  show ?thesis using that [OF s le tw] s n by (simp add: cont_len_def)
qed

lemma cont_len_append:
  assumes "Suc (cont_len b s) = utf8_char_width b" "utf8_char_width b \<noteq> 1"
  shows "cont_len b (s @ t) = cont_len b s"
    and "cont_len b (take (cont_len b s) s @ t) = cont_len b s"
    and "cont_len b s \<le> length s"
  by (rule cont_len_full [OF assms]; simp add: cont_len_def)+

lemma cont_len_cut:
  assumes "Suc (cont_len b (s @ c # t)) = utf8_char_width b" "utf8_char_width b \<noteq> 1"
    and c: "code c < 0x80"
  shows "cont_len b s = cont_len b (s @ c # t)" and "cont_len b s \<le> length s"
proof -
  have nc: "\<not> is_cont c" using c by (simp add: is_cont_def)
  from assms(1,2) obtain d r where s: "s = d # r"
    using nc by (cases s) (auto simp: cont_len_def second_ok_def split: if_splits)
  let ?n = "utf8_char_width b - 2"
  from assms s have sec: "second_ok b d" and n: "length (takeWhile is_cont (take ?n (r @ c # t))) = ?n"
    by (auto simp: cont_len_def split: if_splits)
  from takeWhile_take_full [OF n nc] have "?n \<le> length r" .
  with s sec n show "cont_len b s = cont_len b (s @ c # t)" and "cont_len b s \<le> length s"
    by (simp_all add: cont_len_def)
qed

lemma utf8_lossy_valid [simp]: "utf8_valid s \<Longrightarrow> utf8_lossy s = s"
proof (induction s rule: utf8_valid.induct)
  case (2 b s)
  then show ?case
    by (auto simp: utf8_lossy.simps utf8_valid.simps Let_def split: if_splits)
qed simp

lemma utf8_valid_append:
  "utf8_valid s \<Longrightarrow> utf8_valid t \<Longrightarrow> utf8_valid (s @ t)"
proof (induction s rule: utf8_valid.induct)
  case (2 b s)
  then show ?case
    using cont_len_append(1,3) [of b s]
    by (auto simp: utf8_valid.simps split: if_splits)
qed simp

lemma utf8_valid_replacement: "utf8_valid replacement_character"
  by code_simp

lemma utf8_valid_lossy [simp]: "utf8_valid (utf8_lossy s)"
proof (induction s rule: utf8_lossy.induct)
  case (2 b s)
  show ?case
  proof (cases "utf8_char_width b = 1 \<or> utf8_char_width b = 0 \<or>
      Suc (cont_len b s) \<noteq> utf8_char_width b")
    case True
    with 2 show ?thesis
      by (auto simp: utf8_lossy.simps Let_def utf8_valid_append utf8_valid_replacement
          utf8_valid.simps(2) [of b])
  next
    case False
    with 2 show ?thesis
      using cont_len_append [of b s]
      by (auto simp: utf8_lossy.simps Let_def utf8_valid.simps(2) [of b])
  qed
qed simp

text \<open>Valid text may be cut at any ASCII character.\<close>

lemma utf8_valid_cut:
  "utf8_valid (s @ c # t) \<Longrightarrow> code c < 0x80 \<Longrightarrow> utf8_valid s \<and> utf8_valid t"
proof (induction s rule: utf8_valid.induct)
  case 1
  then show ?case by (simp add: utf8_valid.simps utf8_char_width_def)
next
  case (2 b s)
  then show ?case
    using cont_len_cut [of b s c t]
    by (auto simp: utf8_valid.simps(2) [of b] split: if_splits)
qed

lemma utf8_valid_ascii: "list_all (\<lambda>c. code c < 0x80) s \<Longrightarrow> utf8_valid s"
  by (induction s) (simp_all add: utf8_valid.simps utf8_char_width_def)

lemma utf8_valid_Cons_ascii [simp]: "code c < 0x80 \<Longrightarrow> utf8_valid (c # s) = utf8_valid s"
  by (simp add: utf8_valid.simps utf8_char_width_def)

section \<open>White space\<close>

text \<open>The length in bytes of the white-space character a text starts with, 0 for none.\<close>

fun ws_len :: "string \<Rightarrow> nat" where
  "ws_len [] = 0"
| "ws_len (a # s) =
     (if code a \<in> {9, 10, 11, 12, 13, 32} then 1
      else case s of [] \<Rightarrow> 0 | b # s' \<Rightarrow>
        if code a = 0xC2 \<and> (code b = 0x85 \<or> code b = 0xA0) then 2
        else case s' of [] \<Rightarrow> 0 | c # _ \<Rightarrow>
          if code a = 0xE1 \<and> code b = 0x9A \<and> code c = 0x80 \<or>
             code a = 0xE2 \<and> code b = 0x80 \<and>
               (0x80 \<le> code c \<and> code c \<le> 0x8A \<or> code c = 0xA8 \<or> code c = 0xA9 \<or> code c = 0xAF) \<or>
             code a = 0xE2 \<and> code b = 0x81 \<and> code c = 0x9F \<or>
             code a = 0xE3 \<and> code b = 0x80 \<and> code c = 0x80
          then 3 else 0)"

definition flush :: "string \<Rightarrow> string list" where
  "flush acc = (if acc = [] then [] else [acc])"

function (sequential) split_ws :: "string \<Rightarrow> string \<Rightarrow> string list" where
  "split_ws acc [] = flush acc"
| "split_ws acc (c # s) =
     (if ws_len (c # s) = 0 then split_ws (acc @ [c]) s
      else flush acc @ split_ws [] (drop (ws_len (c # s) - 1) s))"
  by pat_completeness auto
termination by (relation "measure (\<lambda>(acc, s). length s)") auto

declare split_ws.simps(2) [simp del] ws_len.simps(2) [simp del]

definition split_whitespace :: "string \<Rightarrow> string list" where
  "split_whitespace s = split_ws [] s"

fun ws_free :: "string \<Rightarrow> bool" where
  "ws_free [] = True"
| "ws_free (c # s) = (ws_len (c # s) = 0 \<and> ws_free s)"

lemma ws_len_append: "s \<noteq> [] \<Longrightarrow> code c < 0x80 \<Longrightarrow> ws_len (s @ c # r) = ws_len s"
  by (cases s; cases "tl s"; cases "tl (tl s)"; cases r)
    (auto simp: ws_len.simps)

lemma ws_len_space [simp]: "ws_len (CHR '' '' # s) = 1"
  by (simp add: ws_len.simps)

lemma ws_free_append:
  "ws_free s \<Longrightarrow> ws_free (c # t) \<Longrightarrow> code c < 0x80 \<Longrightarrow> ws_free (s @ c # t)"
  by (induction s) (simp_all add: ws_len_append [where s = "_ # _", simplified])

lemma split_ws_token:
  "ws_free s \<Longrightarrow> split_ws acc (s @ CHR '' '' # t) = flush (acc @ s) @ split_ws [] t"
proof (induction s arbitrary: acc)
  case Nil
  show ?case by (simp add: split_ws.simps)
next
  case (Cons d s)
  then show ?case
    using ws_len_append [of "d # s" "CHR '' ''" t] by (simp add: split_ws.simps)
qed

lemma split_whitespace_Cons:
  "ws_free s \<Longrightarrow> s \<noteq> [] \<Longrightarrow> split_whitespace (s @ CHR '' '' # t) = s # split_whitespace t"
  by (simp add: split_whitespace_def split_ws_token flush_def)

lemma ws_free_ascii: "list_all (\<lambda>c. 32 < code c \<and> code c < 0x80) s \<Longrightarrow> ws_free s"
  by (induction s) (auto simp: ws_len.simps split: list.splits)

text \<open>\<open>str::trim\<close>: white space off both ends.\<close>

definition ws_end_len :: "string \<Rightarrow> nat" where
  "ws_end_len s =
     (case find (\<lambda>n. n \<le> length s \<and> ws_len (drop (length s - n) s) = n) [1, 2, 3] of
        Some n \<Rightarrow> n | None \<Rightarrow> 0)"

function trim_start :: "string \<Rightarrow> string" where
  "trim_start s = (if ws_len s = 0 then s else trim_start (drop (ws_len s) s))"
  by pat_completeness auto
termination
proof (relation "measure length")
  fix s :: string assume "ws_len s \<noteq> 0"
  then have "s \<noteq> []" by auto
  with \<open>ws_len s \<noteq> 0\<close> show "(drop (ws_len s) s, s) \<in> measure length" by simp
qed simp

lemma ws_end_len_bound: "ws_end_len s \<le> length s"
  by (auto simp: ws_end_len_def find_Some_iff split: option.splits)

function trim_end :: "string \<Rightarrow> string" where
  "trim_end s = (if ws_end_len s = 0 then s else trim_end (take (length s - ws_end_len s) s))"
  by pat_completeness auto
termination
proof (relation "measure length")
  fix s :: string assume "ws_end_len s \<noteq> 0"
  then show "(take (length s - ws_end_len s) s, s) \<in> measure length"
    using ws_end_len_bound [of s] by simp
qed simp

declare trim_start.simps [simp del] trim_end.simps [simp del]

definition str_trim :: "string \<Rightarrow> string" where
  "str_trim s = trim_end (trim_start s)"

lemma str_trim_id: "ws_len s = 0 \<Longrightarrow> ws_end_len s = 0 \<Longrightarrow> str_trim s = s"
  by (simp add: str_trim_def trim_start.simps trim_end.simps)

lemma ws_len_graphic: "32 < code c \<Longrightarrow> code c < 0x80 \<Longrightarrow> ws_len (c # s) = 0"
  by (auto simp: ws_len.simps split: list.splits)

lemma ws_end_len_graphic: "32 < code c \<Longrightarrow> code c < 0x80 \<Longrightarrow> ws_end_len (s @ [c]) = 0"
proof -
  assume c: "32 < code c" "code c < 0x80"
  have one: "ws_len [c] = 0" using c by (rule ws_len_graphic)
  have two: "ws_len [a, c] \<noteq> 2" for a using c by (auto simp: ws_len.simps)
  have three: "ws_len [a, b, c] \<noteq> 3" for a b using c by (auto simp: ws_len.simps)
  show ?thesis
  proof (cases s rule: rev_cases)
    case Nil
    then show ?thesis using one by (simp add: ws_end_len_def)
  next
    case s1: (snoc s1 b)
    show ?thesis
    proof (cases s1 rule: rev_cases)
      case Nil
      then show ?thesis using s1 one two by (simp add: ws_end_len_def)
    next
      case (snoc s2 a)
      then show ?thesis using s1 one two three by (simp add: ws_end_len_def)
    qed
  qed
qed

text \<open>Text of printable ASCII characters is its own trim.\<close>

lemma str_trim_graphic: "list_all (\<lambda>c. 32 < code c \<and> code c < 0x80) s \<Longrightarrow> str_trim s = s"
proof (cases s rule: rev_cases)
  case Nil
  then show ?thesis by (simp add: str_trim_id ws_end_len_def)
next
  case (snoc r c)
  assume all: "list_all (\<lambda>c. 32 < code c \<and> code c < 0x80) s"
  obtain d t where s: "s = d # t" using snoc by (metis Nil_is_append_conv list.exhaust not_Cons_self2)
  show ?thesis
  proof (rule str_trim_id)
    show "ws_len s = 0" using all s by (simp add: ws_len_graphic)
    show "ws_end_len s = 0" using all snoc by (simp add: ws_end_len_graphic)
  qed
qed

section \<open>Cutting at a character\<close>

text \<open>\<open>str::split_once\<close> and \<open>str::rsplit_once\<close> of an ASCII character.\<close>

definition split_once :: "char \<Rightarrow> string \<Rightarrow> (string \<times> string) option" where
  "split_once c s =
     (if c \<in> set s then Some (takeWhile (\<lambda>x. x \<noteq> c) s, tl (dropWhile (\<lambda>x. x \<noteq> c) s)) else None)"

definition rsplit_once :: "char \<Rightarrow> string \<Rightarrow> (string \<times> string) option" where
  "rsplit_once c s = (case split_once c (rev s) of Some (b, a) \<Rightarrow> Some (rev a, rev b) | None \<Rightarrow> None)"

lemma split_once_iff [str_simps]:
  "split_once c s = Some (a, b) \<longleftrightarrow> s = a @ c # b \<and> c \<notin> set a"
proof
  assume "split_once c s = Some (a, b)"
  then have c: "c \<in> set s" and ab: "a = takeWhile (\<lambda>x. x \<noteq> c) s" "b = tl (dropWhile (\<lambda>x. x \<noteq> c) s)"
    by (auto simp: split_once_def split: if_splits)
  have "dropWhile (\<lambda>x. x \<noteq> c) s \<noteq> []" using c by (simp add: dropWhile_eq_Nil_conv)
  moreover from this have "hd (dropWhile (\<lambda>x. x \<noteq> c) s) = c" using hd_dropWhile by blast
  ultimately have "dropWhile (\<lambda>x. x \<noteq> c) s = c # b" using ab by (metis list.collapse)
  then show "s = a @ c # b \<and> c \<notin> set a"
    using ab takeWhile_dropWhile_id [of "\<lambda>x. x \<noteq> c" s] by (auto dest: set_takeWhileD)
next
  assume "s = a @ c # b \<and> c \<notin> set a"
  then show "split_once c s = Some (a, b)"
    by (auto simp: split_once_def takeWhile_append dropWhile_append)
qed

lemma split_once_None_iff [str_simps]: "split_once c s = None \<longleftrightarrow> c \<notin> set s"
  by (simp add: split_once_def)

lemma rsplit_once_iff [str_simps]:
  "rsplit_once c s = Some (a, b) \<longleftrightarrow> s = a @ c # b \<and> c \<notin> set b"
proof -
  have "rsplit_once c s = Some (a, b) \<longleftrightarrow> split_once c (rev s) = Some (rev b, rev a)"
    by (auto simp: rsplit_once_def split: option.splits)
  also have "\<dots> \<longleftrightarrow> rev s = rev b @ c # rev a \<and> c \<notin> set b" by (simp add: split_once_iff)
  also have "rev s = rev b @ c # rev a \<longleftrightarrow> s = a @ c # b"
    by (metis append.assoc append_Cons append_Nil rev.simps(2) rev_append rev_rev_ident)
  finally show ?thesis .
qed

lemma rsplit_once_None_iff [str_simps]: "rsplit_once c s = None \<longleftrightarrow> c \<notin> set s"
  using split_once_None_iff [of c "rev s"]
  by (auto simp: rsplit_once_def split: option.splits)

section \<open>Case folding\<close>

definition to_ascii_lowercase :: "char \<Rightarrow> char" where
  "to_ascii_lowercase c = (if 65 \<le> code c \<and> code c \<le> 90 then char_of (code c + 32) else c)"

definition eq_ignore_ascii_case :: "string \<Rightarrow> string \<Rightarrow> bool" where
  "eq_ignore_ascii_case s t \<longleftrightarrow> map to_ascii_lowercase s = map to_ascii_lowercase t"

lemma eq_ignore_ascii_case_refl [simp]: "eq_ignore_ascii_case s s"
  by (simp add: eq_ignore_ascii_case_def)

lemma eq_ignore_ascii_case_sym: "eq_ignore_ascii_case s t \<Longrightarrow> eq_ignore_ascii_case t s"
  by (simp add: eq_ignore_ascii_case_def)

lemma eq_ignore_ascii_case_trans:
  "eq_ignore_ascii_case s t \<Longrightarrow> eq_ignore_ascii_case t u \<Longrightarrow> eq_ignore_ascii_case s u"
  by (simp add: eq_ignore_ascii_case_def)

end
