(* ===== verification/Tls_Trust.thy ===== *)
theory Tls_Trust
  imports Hx_Text
begin

text \<open>
  The trust-on-first-use store of crate \<open>hxtls-trust\<close>: the \<open>known_hosts\<close> format and its lookup and
  pin operations (\<open>lib.rs\<close>), the atomic write, and the connect-side decision with its overrides
  (\<open>ffi.rs\<close>).

  A file is the list of its bytes, read through \<open>utf8_lossy\<close>; a disk maps paths to files and counts
  the temporary files left behind.  What the operating system answers (whether a temporary file
  could be created, written, renamed, removed), the environment variables, the clock and the
  dialog's verdict are the fields of \<open>Trust_Env\<close>.
\<close>

datatype TrustStatus = Trusted | Unknown | Mismatch

section \<open>The file format\<close>

definition parse_port :: "string \<Rightarrow> u16 option" where
  "parse_port s = (case parse_uint 16 s of None \<Rightarrow> None
     | Some n \<Rightarrow> if n = 0 then None else Some (of_nat n))"

definition parse_host_field :: "string \<Rightarrow> (string \<times> u16) option" where
  "parse_host_field field =
     (case strip_prefix ''['' field of
        Some rest \<Rightarrow>
          if CHR '']'' \<notin> set rest then None
          else let host = takeWhile (\<lambda>c. c \<noteq> CHR '']'') rest;
                   after = tl (dropWhile (\<lambda>c. c \<noteq> CHR '']'') rest)
            in if host = [] then None
               else if after = [] then Some (host, 0)
               else (case strip_prefix '':'' after of None \<Rightarrow> None
                  | Some p \<Rightarrow> map_option (Pair host) (parse_port p))
      | None \<Rightarrow>
          if count_list field (CHR '':'') \<noteq> 1 then Some (field, 0)
          else let host = takeWhile (\<lambda>c. c \<noteq> CHR '':'') field;
                   port_str = tl (dropWhile (\<lambda>c. c \<noteq> CHR '':'') field)
            in if host = [] then None else map_option (Pair host) (parse_port port_str))"

record Entry =
  en_host :: string
  en_port :: u16
  en_fingerprint :: string

definition parse_line :: "string \<Rightarrow> Entry option" where
  "parse_line line =
     (let trimmed = trim_start_matches (\<lambda>c. c = CHR '' '' \<or> c = CHR 0x09) line
      in if trimmed = [] \<or> starts_with ''#'' trimmed then None
         else case split_whitespace trimmed of
             [] \<Rightarrow> None
           | host_field # rest \<Rightarrow>
               (case parse_host_field host_field of
                  None \<Rightarrow> None
                | Some (host, port) \<Rightarrow>
                    (case rest of
                       [] \<Rightarrow> None
                     | fp_token # _ \<Rightarrow>
                         let fp = takeWhile (\<lambda>c. c \<noteq> CHR ''#'') fp_token
                         in if starts_with ''sha256:'' fp
                            then Some \<lparr>en_host = host, en_port = port, en_fingerprint = fp\<rparr>
                            else None)))"

definition host_port_match :: "string \<Rightarrow> u16 \<Rightarrow> string \<Rightarrow> u16 \<Rightarrow> bool" where
  "host_port_match entry_host entry_port host port \<longleftrightarrow>
     eq_ignore_ascii_case entry_host host \<and> (entry_port = 0 \<or> entry_port = port)"

definition entry_matches :: "string \<Rightarrow> u16 \<Rightarrow> Entry \<Rightarrow> bool" where
  "entry_matches host port e = host_port_match (en_host e) (en_port e) host port"

fun lookup_lines :: "string \<Rightarrow> u16 \<Rightarrow> string \<Rightarrow> TrustStatus \<Rightarrow> string list \<Rightarrow> TrustStatus" where
  "lookup_lines host port fp result [] = result"
| "lookup_lines host port fp result (line # lines) =
     (case parse_line line of
        None \<Rightarrow> lookup_lines host port fp result lines
      | Some e \<Rightarrow>
          if \<not> entry_matches host port e then lookup_lines host port fp result lines
          else if en_fingerprint e = fp then Trusted
          else lookup_lines host port fp Mismatch lines)"

definition lookup :: "string option \<Rightarrow> string \<Rightarrow> u16 \<Rightarrow> string \<Rightarrow> TrustStatus" where
  "lookup known_hosts host port fp =
     (case known_hosts of
        None \<Rightarrow> Unknown
      | Some data \<Rightarrow> lookup_lines host port fp Unknown (str_lines (utf8_lossy data)))"

definition host_has_fingerprint :: "string option \<Rightarrow> string \<Rightarrow> string \<Rightarrow> bool" where
  "host_has_fingerprint known_hosts host fp =
     (case known_hosts of
        None \<Rightarrow> False
      | Some data \<Rightarrow>
          list_ex (\<lambda>e. eq_ignore_ascii_case (en_host e) host \<and> en_fingerprint e = fp)
            (List.map_filter parse_line (str_lines (utf8_lossy data))))"

text \<open>The text \<open>pin\<close> writes: the lines it keeps, then the new entry.\<close>

definition pin_keeps :: "string \<Rightarrow> u16 \<Rightarrow> string \<Rightarrow> bool" where
  "pin_keeps host port line =
     (case parse_line line of Some e \<Rightarrow> \<not> entry_matches host port e | None \<Rightarrow> True)"

definition pin_line :: "string \<Rightarrow> u16 \<Rightarrow> string \<Rightarrow> string \<Rightarrow> string" where
  "pin_line host port fp now_date =
     host @ '':'' @ dec_of_nat (unat port) @ '' '' @ fp @ '' # added '' @ now_date"

definition unlines :: "string list \<Rightarrow> string" where
  "unlines ls = concat (map (\<lambda>l. l @ [CHR 0x0A]) ls)"

definition pin_text :: "string option \<Rightarrow> string \<Rightarrow> u16 \<Rightarrow> string \<Rightarrow> string \<Rightarrow> string" where
  "pin_text known_hosts host port fp now_date =
     (let existing = (case known_hosts of None \<Rightarrow> [] | Some data \<Rightarrow> utf8_lossy data)
      in unlines (filter (pin_keeps host port) (str_lines existing))
           @ unlines [pin_line host port fp now_date])"

section \<open>The disk\<close>

datatype OpenResult = Opened | AlreadyExists | OpenError
datatype IoError = TempCollision | OpenFailed | WriteFailed | RenameFailed

record Disk =
  files :: "string \<Rightarrow> string option"
  temps :: nat

text \<open>What the system calls of one \<open>write_atomic\<close> answer: attempt \<open>i\<close> to create a temporary file,
  the write with its sync, the rename, and the removal of the temporary file.\<close>

record Io =
  io_open :: "nat \<Rightarrow> OpenResult"
  io_write :: bool
  io_rename :: bool
  io_remove :: bool

fun open_temp :: "(nat \<Rightarrow> OpenResult) \<Rightarrow> nat \<Rightarrow> nat \<Rightarrow> IoError option" where
  "open_temp try_open i 0 = Some TempCollision"
| "open_temp try_open i (Suc n) =
     (case try_open i of
        Opened \<Rightarrow> None
      | AlreadyExists \<Rightarrow> open_temp try_open (Suc i) n
      | OpenError \<Rightarrow> Some OpenFailed)"

definition discard_temp :: "Io \<Rightarrow> Disk \<Rightarrow> Disk" where
  "discard_temp io d = (if io_remove io then d\<lparr>temps := temps d - 1\<rparr> else d)"

definition write_atomic :: "Io \<Rightarrow> Disk \<Rightarrow> string \<Rightarrow> string \<Rightarrow> Disk \<times> IoError option" where
  "write_atomic io d path data =
     (case open_temp (io_open io) 0 16 of
        Some e \<Rightarrow> (d, Some e)
      | None \<Rightarrow>
          let d' = d\<lparr>temps := Suc (temps d)\<rparr>
          in if \<not> io_write io then (discard_temp io d', Some WriteFailed)
             else if \<not> io_rename io then (discard_temp io d', Some RenameFailed)
             else (d'\<lparr>files := (files d)(path \<mapsto> data), temps := temps d\<rparr>, None))"

definition pin ::
  "Io \<Rightarrow> Disk \<Rightarrow> string \<Rightarrow> string \<Rightarrow> u16 \<Rightarrow> string \<Rightarrow> string \<Rightarrow> Disk \<times> IoError option" where
  "pin io d path host port fp now_date =
     write_atomic io d path (pin_text (files d path) host port fp now_date)"

section \<open>The date of a pin\<close>

text \<open>Division of \<open>i64\<close> rounds towards zero.\<close>

definition tdiv :: "int \<Rightarrow> int \<Rightarrow> int" where
  "tdiv a b = sgn a * sgn b * (\<bar>a\<bar> div \<bar>b\<bar>)"

definition civil_from_days :: "int \<Rightarrow> int \<times> int \<times> int" where
  "civil_from_days z0 =
     (let z = z0 + 719468;
          era = tdiv (if z \<ge> 0 then z else z - 146096) 146097;
          doe = z - era * 146097;
          yoe = tdiv (doe - tdiv doe 1460 + tdiv doe 36524 - tdiv doe 146096) 365;
          y = yoe + era * 400;
          doy = doe - (365 * yoe + tdiv yoe 4 - tdiv yoe 100);
          mp = tdiv (5 * doy + 2) 153;
          d = (doy - tdiv (153 * mp + 2) 5 + 1) mod 2 ^ 32;
          m = (if mp < 10 then mp + 3 else mp - 9) mod 2 ^ 32
      in (y + (if m \<le> 2 then 1 else 0), m, d))"

definition zero_padded :: "nat \<Rightarrow> int \<Rightarrow> string" where
  "zero_padded w n =
     (let sign = (if n < 0 then ''-'' else ''''); digits = dec_of_nat (nat \<bar>n\<bar>)
      in sign @ replicate (w - length sign - length digits) (CHR ''0'') @ digits)"

definition today_utc :: "nat \<Rightarrow> string" where
  "today_utc secs =
     (case civil_from_days (int (secs div 86400)) of
        (y, m, d) \<Rightarrow> zero_padded 4 y @ ''-'' @ zero_padded 2 m @ ''-'' @ zero_padded 2 d)"

section \<open>The decision\<close>

record Trust_Env =
  AUTO_ACCEPT_OV :: int
  PROMPT_OV :: int
  known_hosts_ov :: "string option"
  env_var :: "string \<Rightarrow> string option"
  gtkhx_config_dir :: "string option"
  prompt_slot :: "(string \<Rightarrow> u16 \<Rightarrow> string \<Rightarrow> TrustStatus \<Rightarrow> string option \<Rightarrow> bool) option"
  now_secs :: nat
  pin_io :: Io

definition env_nonempty :: "Trust_Env \<Rightarrow> string \<Rightarrow> bool" where
  "env_nonempty env name = (case env_var env name of None \<Rightarrow> False | Some v \<Rightarrow> v \<noteq> [])"

definition auto_accept :: "Trust_Env \<Rightarrow> bool" where
  "auto_accept env =
     (if AUTO_ACCEPT_OV env \<ge> 0 then AUTO_ACCEPT_OV env \<noteq> 0
      else env_nonempty env ''GTKHX_TLS_AUTO_ACCEPT'')"

definition prompt_verdict :: "Trust_Env \<Rightarrow> int" where
  "prompt_verdict env =
     (if PROMPT_OV env \<noteq> 0 then PROMPT_OV env
      else case env_var env ''GTKHX_TLS_TEST_PROMPT'' of
          None \<Rightarrow> 0
        | Some s \<Rightarrow> if eq_ignore_ascii_case s ''accept'' then 1
                    else if eq_ignore_ascii_case s ''reject'' then 2 else 0)"

text \<open>\<open>Path::join\<close> of a relative name.\<close>

definition path_join :: "string \<Rightarrow> string \<Rightarrow> string" where
  "path_join dir name =
     (if dir = [] \<or> last dir = CHR ''/'' then dir @ name else dir @ ''/'' @ name)"

definition nonempty :: "string option \<Rightarrow> string option" where
  "nonempty v = (case v of Some s \<Rightarrow> if s = [] then None else Some s | None \<Rightarrow> None)"

definition known_hosts_path :: "Trust_Env \<Rightarrow> string option" where
  "known_hosts_path env =
     (case nonempty (known_hosts_ov env) of
        Some p \<Rightarrow> Some p
      | None \<Rightarrow> (case nonempty (env_var env ''GTKHX_KNOWN_HOSTS'') of
            Some p \<Rightarrow> Some p
          | None \<Rightarrow> map_option (\<lambda>cfg. path_join cfg ''known_hosts'') (gtkhx_config_dir env)))"

text \<open>\<open>CString::new\<close> fails on an interior NUL.\<close>

definition c_string :: "string \<Rightarrow> string option" where
  "c_string s = (if CHR 0x00 \<in> set s then None else Some s)"

definition call_prompt ::
  "Trust_Env \<Rightarrow> string \<Rightarrow> u16 \<Rightarrow> string \<Rightarrow> TrustStatus \<Rightarrow> string option \<Rightarrow> bool" where
  "call_prompt env host port fp status kh =
     (case prompt_slot env of
        None \<Rightarrow> False
      | Some cb \<Rightarrow>
          cb (case c_string host of None \<Rightarrow> [] | Some h \<Rightarrow> h) port
            (case c_string fp of None \<Rightarrow> [] | Some g \<Rightarrow> g) status
            (case kh of None \<Rightarrow> None | Some p \<Rightarrow> c_string p))"

definition pin_now :: "Trust_Env \<Rightarrow> Disk \<Rightarrow> string \<Rightarrow> string \<Rightarrow> u16 \<Rightarrow> string \<Rightarrow> Disk" where
  "pin_now env d path host port fp =
     fst (pin (pin_io env) d path host port fp (today_utc (now_secs env)))"

definition pin_if_resolved ::
  "Trust_Env \<Rightarrow> Disk \<Rightarrow> string option \<Rightarrow> string \<Rightarrow> u16 \<Rightarrow> string \<Rightarrow> Disk" where
  "pin_if_resolved env d path host port fp =
     (case path of None \<Rightarrow> d | Some p \<Rightarrow> pin_now env d p host port fp)"

definition decide :: "Trust_Env \<Rightarrow> Disk \<Rightarrow> string \<Rightarrow> u16 \<Rightarrow> string \<Rightarrow> bool \<times> Disk" where
  "decide env d host port fp =
     (let path = known_hosts_path env;
          status = (case path of Some p \<Rightarrow> lookup (files d p) host port fp | None \<Rightarrow> Unknown)
      in if status = Trusted then (True, d)
         else if status = Unknown \<and>
             (case path of Some p \<Rightarrow> host_has_fingerprint (files d p) host fp | None \<Rightarrow> False)
         then (True, pin_if_resolved env d path host port fp)
         else if auto_accept env then (True, pin_if_resolved env d path host port fp)
         else let accepted =
                (if prompt_verdict env = 1 then True
                 else if prompt_verdict env = 2 then False
                 else call_prompt env host port fp status path)
           in (accepted, if accepted then pin_if_resolved env d path host port fp else d))"

definition hx_tls_trust_pin :: "Trust_Env \<Rightarrow> Disk \<Rightarrow> string \<Rightarrow> u16 \<Rightarrow> string \<Rightarrow> bool \<times> Disk" where
  "hx_tls_trust_pin env d host port fp =
     (case known_hosts_path env of
        None \<Rightarrow> (False, d)
      | Some p \<Rightarrow>
          (case pin (pin_io env) d p host port fp (today_utc (now_secs env)) of
             (d', None) \<Rightarrow> (True, d')
           | (d', Some _) \<Rightarrow> (False, d')))"

end
