(* ===== verification/Tls_Trust_Props.thy ===== *)
theory Tls_Trust_Props
  imports Tls_Trust
begin

text \<open>
  Correctness of the trust store.  The file is abstracted to the list of its entries
  (\<open>entries\<close>); \<open>lookup\<close>, \<open>host_has_fingerprint\<close> and \<open>pin\<close> are shown to act on that list
  (\<open>lookup_entries\<close>, \<open>host_has_fingerprint_entries\<close>, \<open>entries_pin_text\<close>), and the properties
  of the store and of \<open>decide\<close> follow from it.
\<close>

section \<open>The entries of a file\<close>

definition decoded :: "string option \<Rightarrow> string" where
  "decoded kh = (case kh of None \<Rightarrow> [] | Some data \<Rightarrow> utf8_lossy data)"

definition entries :: "string option \<Rightarrow> Entry list" where
  "entries kh = List.map_filter parse_line (str_lines (decoded kh))"

lemma entries_None [simp]: "entries None = []"
  by (simp add: entries_def decoded_def List.map_filter_def)

lemma map_filter_append [simp]:
  "List.map_filter f (xs @ ys) = List.map_filter f xs @ List.map_filter f ys"
  by (simp add: List.map_filter_def)

lemma lookup_lines_entries:
  "lookup_lines host port fp r ls =
     (let es = filter (entry_matches host port) (List.map_filter parse_line ls)
      in if list_ex (\<lambda>e. en_fingerprint e = fp) es then Trusted
         else if es = [] then r else Mismatch)"
  by (induction ls arbitrary: r)
    (simp_all add: List.map_filter_def Let_def split: option.splits)

lemma lookup_entries:
  "lookup kh host port fp =
     (let es = filter (entry_matches host port) (entries kh)
      in if list_ex (\<lambda>e. en_fingerprint e = fp) es then Trusted
         else if es = [] then Unknown else Mismatch)"
  by (cases kh) (simp_all add: lookup_def entries_def decoded_def lookup_lines_entries Let_def List.map_filter_def)

lemma host_has_fingerprint_entries:
  "host_has_fingerprint kh host fp \<longleftrightarrow>
     list_ex (\<lambda>e. eq_ignore_ascii_case (en_host e) host \<and> en_fingerprint e = fp) (entries kh)"
  by (cases kh) (simp_all add: host_has_fingerprint_def entries_def decoded_def List.map_filter_def)

section \<open>Lines\<close>

lemma strip_cr_subset: "set (strip_cr l) \<subseteq> set l"
  by (auto simp: strip_cr_def dest: in_set_butlastD)

lemma lines_from_no_nl:
  "CHR 0x0A \<notin> set acc \<Longrightarrow> l \<in> set (lines_from acc s) \<Longrightarrow> CHR 0x0A \<notin> set l"
proof (induction s arbitrary: acc)
  case (Cons c s)
  show ?case
  proof (cases "c = CHR 0x0A")
    case True
    with Cons.prems Cons.IH [of "[]"] strip_cr_subset [of acc] show ?thesis by auto
  next
    case False
    with Cons.prems Cons.IH [of "acc @ [c]"] show ?thesis by simp
  qed
qed (auto split: if_splits)

lemma str_lines_no_nl: "l \<in> set (str_lines s) \<Longrightarrow> CHR 0x0A \<notin> set l"
  unfolding str_lines_def by (rule lines_from_no_nl [of "[]"]) simp_all

lemma strip_cr_valid: "utf8_valid l \<Longrightarrow> utf8_valid (strip_cr l)"
  using utf8_valid_cut [of "butlast l" "CHR 0x0D" "[]"]
  by (auto simp: strip_cr_def) (metis append_butlast_last_id)

lemma lines_from_valid:
  "utf8_valid (acc @ s) \<Longrightarrow> l \<in> set (lines_from acc s) \<Longrightarrow> utf8_valid l"
proof (induction s arbitrary: acc)
  case (Cons c s)
  show ?case
  proof (cases "c = CHR 0x0A")
    case True
    with Cons.prems utf8_valid_cut [of acc c s] have "utf8_valid acc" "utf8_valid s" by simp_all
    with Cons.prems Cons.IH [of "[]"] True show ?thesis by (auto simp: strip_cr_valid)
  next
    case False
    with Cons.prems Cons.IH [of "acc @ [c]"] show ?thesis by simp
  qed
qed (auto split: if_splits)

lemma str_lines_valid: "utf8_valid s \<Longrightarrow> l \<in> set (str_lines s) \<Longrightarrow> utf8_valid l"
  unfolding str_lines_def using lines_from_valid [of "[]"] by simp

lemma unlines_Cons [simp]: "unlines (l # ls) = l @ CHR 0x0A # unlines ls"
  by (simp add: unlines_def)

lemma unlines_Nil [simp]: "unlines [] = []"
  by (simp add: unlines_def)

lemma str_lines_unlines:
  "list_all (\<lambda>l. CHR 0x0A \<notin> set l) ls \<Longrightarrow> str_lines (unlines ls @ s) = map strip_cr ls @ str_lines s"
  by (induction ls) (simp_all add: str_lines_Cons)

lemma unlines_valid: "list_all utf8_valid ls \<Longrightarrow> utf8_valid (unlines ls)"
  by (induction ls) (simp_all add: utf8_valid_append)

text \<open>A carriage return at the end of a line does not change its entry.\<close>

lemma ws_len_le: "ws_len s \<le> length s"
  by (cases s; cases "tl s"; cases "tl (tl s)") (simp_all add: ws_len.simps)

lemma split_ws_cr: "split_ws acc (s @ [CHR 0x0D]) = split_ws acc s"
proof (induction acc s rule: split_ws.induct)
  case (1 acc)
  show ?case by (simp add: split_ws.simps ws_len.simps flush_def)
next
  case (2 acc c s)
  have "ws_len (c # s @ [CHR 0x0D]) = ws_len (c # s)"
    using ws_len_append [of "c # s" "CHR 0x0D" "[]"] by simp
  with 2 ws_len_le [of "c # s"] show ?case by (simp add: split_ws.simps)
qed

lemma starts_with_snoc: "s \<noteq> [] \<Longrightarrow> starts_with [c] (s @ t) = starts_with [c] s"
  by (cases s) (simp_all add: starts_with_def)

lemma parse_line_cr: "parse_line (l @ [CHR 0x0D]) = parse_line l"
proof (cases "list_all (\<lambda>c. c = CHR '' '' \<or> c = CHR 0x09) l")
  case True
  then have "dropWhile (\<lambda>c. c = CHR '' '' \<or> c = CHR 0x09) l = []"
    by (simp add: dropWhile_eq_Nil_conv list_all_iff)
  moreover have "dropWhile (\<lambda>c. c = CHR '' '' \<or> c = CHR 0x09) (l @ [CHR 0x0D]) = [CHR 0x0D]"
    using True by (simp add: dropWhile_append list_all_iff)
  moreover have "split_whitespace [CHR 0x0D] = []"
    using split_ws_cr [of "[]" "[]"] by (simp add: split_whitespace_def flush_def)
  ultimately show ?thesis
    by (simp add: parse_line_def trim_start_matches_def starts_with_def Let_def)
next
  case False
  let ?p = "\<lambda>c. c = CHR '' '' \<or> c = CHR 0x09"
  from False have "dropWhile ?p (l @ [CHR 0x0D]) = dropWhile ?p l @ [CHR 0x0D]" "dropWhile ?p l \<noteq> []"
    by (auto simp: dropWhile_append list_all_iff dropWhile_eq_Nil_conv)
  then show ?thesis
    by (simp add: parse_line_def trim_start_matches_def Let_def starts_with_snoc
        split_whitespace_def split_ws_cr del: dropWhile_eq_Nil_conv)
qed

lemma parse_line_strip_cr [simp]: "parse_line (strip_cr l) = parse_line l"
proof (cases "l \<noteq> [] \<and> last l = CHR 0x0D")
  case True
  then have "l = strip_cr l @ [CHR 0x0D]"
    by (metis append_butlast_last_id strip_cr_def)
  then show ?thesis by (metis parse_line_cr)
qed (auto simp: strip_cr_def)

section \<open>What a pin writes\<close>

text \<open>
  The arguments a pin reads back: a host name or an IPv4 address (not empty, no white space, no
  colon, not starting a comment or a bracketed literal), a nonzero port, a fingerprint token, and
  a date without line breaks.
\<close>

definition plain_host :: "string \<Rightarrow> bool" where
  "plain_host host \<longleftrightarrow> host \<noteq> [] \<and> utf8_valid host \<and> ws_free host \<and> CHR '':'' \<notin> set host \<and>
     hd host \<noteq> CHR ''['' \<and> hd host \<noteq> CHR ''#''"

definition fingerprint_token :: "string \<Rightarrow> bool" where
  "fingerprint_token fp \<longleftrightarrow> starts_with ''sha256:'' fp \<and> utf8_valid fp \<and> ws_free fp \<and>
     CHR ''#'' \<notin> set fp"

definition date_text :: "string \<Rightarrow> bool" where
  "date_text s \<longleftrightarrow> list_all (\<lambda>c. c = CHR ''-'' \<or> is_ascii_digit c) s"

lemma ws_free_chars: "ws_free s \<Longrightarrow> c \<in> set s \<Longrightarrow> code c \<notin> {9, 10, 11, 12, 13, 32}"
  by (induction s) (auto simp: ws_len.simps split: if_splits)

lemma ws_free_nl: "ws_free s \<Longrightarrow> CHR 0x0A \<notin> set s"
  using ws_free_chars [of s "CHR 0x0A"] by fastforce

lemma list_all_notin: "list_all P s \<Longrightarrow> \<not> P c \<Longrightarrow> c \<notin> set s"
  by (auto simp: list_all_iff)

lemma digits_ascii: "list_all (\<lambda>c. 32 < code c \<and> code c < 0x80) (dec_of_nat n)"
  using dec_of_nat_digits [of n] by (auto simp: list_all_iff is_ascii_digit_def)

lemma parse_host_field_plain:
  assumes "plain_host host" "port \<noteq> 0"
  shows "parse_host_field (host @ CHR '':'' # dec_of_nat (unat port)) = Some (host, port)"
proof -
  obtain c h where h: "host = c # h" using assms by (cases host) (auto simp: plain_host_def)
  have nb: "strip_prefix ''['' (host @ r) = None" for r
    using assms h by (auto simp: plain_host_def)
  have nc: "CHR '':'' \<notin> set (dec_of_nat n)" for n
    using dec_of_nat_digits [of n] by (auto simp: list_all_iff is_ascii_digit_def)
  have cnt: "count_list (host @ CHR '':'' # dec_of_nat (unat port)) (CHR '':'') = 1"
    using assms nc by (simp add: plain_host_def)
  have tw: "takeWhile (\<lambda>c. c \<noteq> CHR '':'') (host @ CHR '':'' # r) = host"
    "dropWhile (\<lambda>c. c \<noteq> CHR '':'') (host @ CHR '':'' # r) = CHR '':'' # r" for r
    using assms by (auto simp: plain_host_def takeWhile_append dropWhile_append)
  have "unat port < 2 ^ 16" using unsigned_less [of port, where ?'a = nat] by simp
  moreover have "unat port \<noteq> 0" using assms by (simp add: unat_eq_zero)
  ultimately have "parse_port (dec_of_nat (unat port)) = Some port"
    by (simp add: parse_port_def)
  with assms show ?thesis
    by (simp add: parse_host_field_def nb nc cnt tw plain_host_def)
qed

lemma parse_pin_line_field:
  assumes host: "host \<noteq> []" "ws_free host" "hd host \<noteq> CHR ''#''" and fp: "fingerprint_token fp"
    and field: "parse_host_field (host @ CHR '':'' # dec_of_nat (unat port)) = Some (h', p')"
  shows "parse_line (pin_line host port fp date) =
     Some \<lparr>en_host = h', en_port = p', en_fingerprint = fp\<rparr>"
proof -
  let ?f = "host @ CHR '':'' # dec_of_nat (unat port)"
  have split: "pin_line host port fp date = ?f @ CHR '' '' # fp @ CHR '' '' # ''# added '' @ date"
    by (simp add: pin_line_def)
  obtain c h where h: "host = c # h" using host by (cases host) auto
  have c: "code c \<notin> {9, 10, 11, 12, 13, 32}" "c \<noteq> CHR ''#''"
    using host h ws_free_chars [of host c] by auto
  then have trim: "trim_start_matches (\<lambda>c. c = CHR '' '' \<or> c = CHR 0x09) (pin_line host port fp date) =
      pin_line host port fp date"
    by (auto simp: trim_start_matches_def pin_line_def h)
  have "ws_free (dec_of_nat (unat port))" by (rule ws_free_ascii [OF digits_ascii])
  then have "ws_free ?f"
    using host by (intro ws_free_append) (auto simp: ws_len.simps split: list.splits)
  moreover have "fp \<noteq> []" "ws_free fp" and tw: "takeWhile (\<lambda>c. c \<noteq> CHR ''#'') fp = fp"
    using fp by (auto simp: fingerprint_token_def starts_with_iff takeWhile_eq_all_conv)
  ultimately have "split_whitespace (pin_line host port fp date) =
      ?f # fp # split_whitespace (''# added '' @ date)"
    using split_whitespace_Cons [of ?f "fp @ CHR '' '' # ''# added '' @ date"]
      split_whitespace_Cons [of fp "''# added '' @ date"]
    by (simp add: split)
  moreover have "pin_line host port fp date \<noteq> []" "\<not> starts_with ''#'' (pin_line host port fp date)"
    using c by (simp_all add: pin_line_def h starts_with_def)
  ultimately show ?thesis
    using fp field
    by (simp add: parse_line_def Let_def fingerprint_token_def trim tw)
qed

lemma parse_pin_line:
  assumes "plain_host host" "port \<noteq> 0" "fingerprint_token fp"
  shows "parse_line (pin_line host port fp date) =
     Some \<lparr>en_host = host, en_port = port, en_fingerprint = fp\<rparr>"
  using assms by (intro parse_pin_line_field parse_host_field_plain) (simp_all add: plain_host_def)

lemma pin_line_text:
  assumes "utf8_valid host" "ws_free host" "fingerprint_token fp" "date_text date"
  shows "CHR 0x0A \<notin> set (pin_line host port fp date)"
    and "utf8_valid (pin_line host port fp date)"
proof -
  have "CHR 0x0A \<notin> set host" "CHR 0x0A \<notin> set fp"
    using assms by (simp_all add: fingerprint_token_def ws_free_nl)
  moreover have "CHR 0x0A \<notin> set date" "CHR 0x0A \<notin> set (dec_of_nat (unat port))"
    using assms digits_ascii [of "unat port"] unfolding date_text_def
    by (simp_all add: list_all_notin is_ascii_digit_def)
  ultimately show "CHR 0x0A \<notin> set (pin_line host port fp date)"
    by (simp add: pin_line_def)
  have "utf8_valid (dec_of_nat (unat port))" "utf8_valid date"
    using assms digits_ascii [of "unat port"]
    by (auto intro!: utf8_valid_ascii elim!: list.pred_mono_strong
        simp: date_text_def is_ascii_digit_def)
  then show "utf8_valid (pin_line host port fp date)"
    using assms by (auto simp: pin_line_def fingerprint_token_def
        intro!: utf8_valid_append)
qed

lemma decoded_valid: "utf8_valid (decoded kh)"
  by (cases kh) (simp_all add: decoded_def)

lemma map_filter_strip_cr:
  "List.map_filter parse_line (map strip_cr ls) = List.map_filter parse_line ls"
  by (induction ls) (simp_all add: List.map_filter_def)

lemma map_filter_pin_keeps:
  "List.map_filter parse_line (filter (pin_keeps host port) ls) =
     filter (\<lambda>e. \<not> entry_matches host port e) (List.map_filter parse_line ls)"
  by (induction ls) (auto simp: List.map_filter_def pin_keeps_def split: option.splits)

lemma entries_pin_line:
  assumes "utf8_valid host" "ws_free host" "fingerprint_token fp" "date_text date"
  shows "entries (Some (pin_text kh host port fp date)) =
     filter (\<lambda>e. \<not> entry_matches host port e) (entries kh) @
       List.map_filter parse_line [pin_line host port fp date]"
proof -
  let ?kept = "filter (pin_keeps host port) (str_lines (decoded kh))"
  let ?ls = "?kept @ [pin_line host port fp date]"
  have txt_eq: "pin_text kh host port fp date = unlines ?ls"
    by (simp add: pin_text_def decoded_def unlines_def)
  have "list_all utf8_valid ?ls"
    using pin_line_text [OF assms] str_lines_valid [OF decoded_valid]
    by (auto simp: list_all_iff)
  then have "utf8_lossy (unlines ?ls) = unlines ?ls"
    by (intro utf8_lossy_valid unlines_valid)
  moreover have "list_all (\<lambda>l. CHR 0x0A \<notin> set l) ?ls"
    using pin_line_text [OF assms] str_lines_no_nl by (auto simp: list_all_iff)
  then have "str_lines (unlines ?ls) = map strip_cr ?ls"
    using str_lines_unlines [of ?ls "[]"] by simp
  ultimately have "entries (Some (unlines ?ls)) = List.map_filter parse_line ?ls"
    by (simp only: entries_def decoded_def option.case map_filter_strip_cr)
  then show ?thesis
    by (simp add: txt_eq map_filter_pin_keeps) (simp add: entries_def)
qed

text \<open>A pin replaces the entries that match its host and port by the new one.\<close>

lemma entries_pin_text:
  assumes "plain_host host" "port \<noteq> 0" "fingerprint_token fp" "date_text date"
  shows "entries (Some (pin_text kh host port fp date)) =
     filter (\<lambda>e. \<not> entry_matches host port e) (entries kh) @
       [\<lparr>en_host = host, en_port = port, en_fingerprint = fp\<rparr>]"
  using entries_pin_line [of host fp date kh port] parse_pin_line [OF assms(1-3), of date] assms
  by (simp add: plain_host_def List.map_filter_def)

lemma date_text_simps:
  "date_text []" "date_text (s @ t) \<longleftrightarrow> date_text s \<and> date_text t"
  "date_text (c # t) \<longleftrightarrow> (c = CHR ''-'' \<or> is_ascii_digit c) \<and> date_text t"
  by (auto simp: date_text_def)

lemma date_text_today: "date_text (today_utc secs)"
proof -
  have "date_text (dec_of_nat n)" for n
    using dec_of_nat_digits [of n] by (auto simp: date_text_def list_all_iff)
  moreover have "date_text (replicate n (CHR ''0''))" for n
    by (auto simp: date_text_def list_all_iff is_ascii_digit_def)
  ultimately have "date_text (zero_padded w n)" for w n
    by (simp add: zero_padded_def Let_def date_text_simps)
  then show ?thesis by (simp add: today_utc_def date_text_simps split: prod.splits)
qed

section \<open>The disk\<close>

lemma files_write_atomic:
  "write_atomic io d path data = (d', None) \<Longrightarrow> files d' = (files d)(path \<mapsto> data)"
  "write_atomic io d path data = (d', Some e) \<Longrightarrow> files d' = files d"
  by (auto simp: write_atomic_def discard_temp_def Let_def split: option.splits if_splits)


text \<open>a pin, whether or not its write succeeds, leaves every other file alone and changes no
  verdict about another host.\<close>

theorem pin_keeps_other_hosts:
  assumes "plain_host host" "port \<noteq> 0" "fingerprint_token fp" "date_text date"
    and "pin io d path host port fp date = (d', r)"
    and "path' = path \<Longrightarrow> \<not> eq_ignore_ascii_case host' host"
  shows "lookup (files d' path') host' port' fp' = lookup (files d path') host' port' fp'"
proof (cases "r = None \<and> path' = path")
  case True
  have other: "entry_matches host' port' e \<Longrightarrow> \<not> entry_matches host port e" for e
    using assms(6) True
    by (auto simp: entry_matches_def host_port_match_def eq_ignore_ascii_case_def)
  then have "filter (entry_matches host' port') (filter (\<lambda>e. \<not> entry_matches host port e) es) =
      filter (entry_matches host' port') es" for es
    by (induction es) auto
  moreover have "\<not> entry_matches host' port' \<lparr>en_host = host, en_port = port, en_fingerprint = fp\<rparr>"
    using assms(6) True by (auto simp: entry_matches_def host_port_match_def eq_ignore_ascii_case_def)
  moreover have "files d' path = Some (pin_text (files d path) host port fp date)"
    using files_write_atomic(1) [of io d path _ d'] True assms(5) by (simp add: pin_def)
  ultimately show ?thesis
    using True entries_pin_text [OF assms(1-4), of "files d path"]
    by (simp only: lookup_entries filter_append) simp
next
  case False
  have "files d' path' = files d path'"
    using files_write_atomic [of io d path _ d'] assms(5) False
    by (cases r) (simp_all add: pin_def)
  then show ?thesis by simp
qed


section \<open>Samples\<close>

definition good_io :: Io where
  "good_io = \<lparr>io_open = (\<lambda>_. Opened), io_write = True, io_rename = True, io_remove = True\<rparr>"

definition empty_disk :: Disk where
  "empty_disk = \<lparr>files = (\<lambda>_. None), temps = 0\<rparr>"

definition gui_env :: "bool \<Rightarrow> Trust_Env" where
  "gui_env answer = \<lparr>AUTO_ACCEPT_OV = -1, PROMPT_OV = 0, known_hosts_ov = None,
     env_var = (\<lambda>_. None), gtkhx_config_dir = Some ''/cfg'',
     prompt_slot = Some (\<lambda>_ _ _ _ _. answer), now_secs = 0, pin_io = good_io\<rparr>"

lemma pin_good_io [simp]:
  "pin good_io d path host port fp date =
     (d\<lparr>files := (files d)(path \<mapsto> pin_text (files d path) host port fp date)\<rparr>, None)"
  by (simp add: pin_def write_atomic_def good_io_def numeral_eq_Suc)

lemma sample_hosts:
  "plain_host ''hotline.example''" "plain_host ''tracker''"
  "fingerprint_token ''sha256:aa''" "fingerprint_token ''sha256:bb''"
  "date_text ''2026-01-02''"
  "eq_ignore_ascii_case ''HOTLINE.Example'' ''hotline.example''"
  "\<not> eq_ignore_ascii_case ''tracker'' ''hotline.example''"
  by code_simp+


theorem pin_keeps_other_hosts_witness:
  "lookup (files (fst (pin good_io empty_disk ''kh'' ''hotline.example'' 5600 ''sha256:aa'' ''2026-01-02''))
     ''kh'') ''tracker'' 5600 ''sha256:aa'' = Unknown"
  by (subst pin_keeps_other_hosts [of "''hotline.example''" 5600 "''sha256:aa''" "''2026-01-02''"
        good_io empty_disk "''kh''" _ None])
    (simp_all add: sample_hosts empty_disk_def lookup_def)

section \<open>The decision\<close>

text \<open>C9: a certificate that contradicts the pinned ones is accepted only if the user says so: with
  no test override in force, the verdict is the dialog's answer to the mismatch, asked with the
  host and fingerprint at hand, and a refusal leaves the disk as it was.\<close>

theorem decide_mismatch_asks:
  assumes "known_hosts_path env = Some p" "\<not> auto_accept env" "prompt_verdict env = 0"
    and "e \<in> set (entries (files d p))" "entry_matches host port e"
    and "list_all (\<lambda>e. entry_matches host port e \<longrightarrow> en_fingerprint e \<noteq> fp) (entries (files d p))"
  shows "fst (decide env d host port fp) = call_prompt env host port fp Mismatch (Some p) \<and>
    (\<not> fst (decide env d host port fp) \<longrightarrow> snd (decide env d host port fp) = d)"
proof -
  have "filter (entry_matches host port) (entries (files d p)) \<noteq> []"
    using assms(4,5) by (auto simp: filter_empty_conv)
  moreover have "\<not> list_ex (\<lambda>e. en_fingerprint e = fp) (filter (entry_matches host port) (entries (files d p)))"
    using assms(6) by (auto simp: list_ex_iff list_all_iff)
  ultimately have "lookup (files d p) host port fp = Mismatch"
    by (simp add: lookup_entries)
  with assms(1-3) show ?thesis by (simp add: decide_def Let_def)
qed

definition pinned_disk :: Disk where
  "pinned_disk =
     fst (pin good_io empty_disk ''/cfg/known_hosts'' ''hotline.example'' 5600 ''sha256:aa'' ''2026-01-02'')"

lemma gui_env_path: "known_hosts_path (gui_env b) = Some ''/cfg/known_hosts''"
  by (simp add: known_hosts_path_def gui_env_def nonempty_def path_join_def)

lemma gui_env_no_override: "\<not> auto_accept (gui_env b)" "prompt_verdict (gui_env b) = 0"
  by (simp_all add: auto_accept_def prompt_verdict_def gui_env_def env_nonempty_def)

lemma entries_pinned:
  "entries (files pinned_disk ''/cfg/known_hosts'') =
     [\<lparr>en_host = ''hotline.example'', en_port = 5600, en_fingerprint = ''sha256:aa''\<rparr>]"
  using entries_pin_text [of "''hotline.example''" 5600 "''sha256:aa''" "''2026-01-02''" None]
  by (simp add: pinned_disk_def empty_disk_def sample_hosts)

theorem decide_mismatch_asks_witness:
  "\<not> fst (decide (gui_env False) pinned_disk ''hotline.example'' 5600 ''sha256:bb'')"
  using decide_mismatch_asks [of "gui_env False" "''/cfg/known_hosts''"
      "\<lparr>en_host = ''hotline.example'', en_port = 5600, en_fingerprint = ''sha256:aa''\<rparr>"
      pinned_disk "''hotline.example''" 5600 "''sha256:bb''"]
  by (simp add: gui_env_path gui_env_no_override entries_pinned)
    (simp add: entry_matches_def host_port_match_def call_prompt_def gui_env_def)

text \<open>trust is remembered: once a certificate was accepted and the pin could be written, every
  later connection to the same host and port with it is accepted without a question and without
  touching the disk again, whatever the dialog or the overrides would say then.\<close>

theorem decide_remembers:
  assumes "plain_host host" "port \<noteq> 0" "fingerprint_token fp"
    and "known_hosts_path env = Some p" "known_hosts_path env' = Some p"
    and "\<exists>i < 16. io_open (pin_io env) i = Opened \<and> (\<forall>j < i. io_open (pin_io env) j = AlreadyExists)"
    and "io_write (pin_io env)" "io_rename (pin_io env)"
    and "fst (decide env d host port fp)"
  shows "decide env' (snd (decide env d host port fp)) host port fp =
    (True, snd (decide env d host port fp))"
proof -
  let ?d = "snd (decide env d host port fp)"
  have opens: "open_temp f i n = None" if "k < i + n" "i \<le> k" "f k = Opened" "\<forall>j < k. f j = AlreadyExists"
    for f :: "nat \<Rightarrow> OpenResult" and i k n
    using that
  proof (induction n arbitrary: i)
    case (Suc n)
    then show ?case by (cases "i = k") auto
  qed simp
  have "pin_now env d p host port fp = fst (pin good_io d p host port fp (today_utc (now_secs env)))"
    using assms(6-8) opens [of _ 0 16 "io_open (pin_io env)"]
    by (auto simp: pin_now_def pin_def write_atomic_def good_io_def numeral_eq_Suc)
  then have "lookup (files (pin_now env d p host port fp) p) host port fp = Trusted"
    using entries_pin_text [OF assms(1-3) date_text_today, of "files d p" "now_secs env"]
    by (simp add: lookup_entries) (simp add: entry_matches_def host_port_match_def)
  moreover have "lookup (files d p) host port fp = Trusted \<and> ?d = d \<or> ?d = pin_now env d p host port fp"
    using assms(4,9) by (auto simp: decide_def Let_def pin_if_resolved_def split: if_splits)
  ultimately have "lookup (files ?d p) host port fp = Trusted" by auto
  with assms(5) show ?thesis by (simp add: decide_def)
qed

lemma gui_env_accepts: "fst (decide (gui_env True) empty_disk host port fp)"
proof -
  have "call_prompt (gui_env True) host port fp st kh" for st kh
    by (simp add: call_prompt_def gui_env_def)
  then show ?thesis
    by (simp add: decide_def Let_def gui_env_no_override)
qed

lemma gui_env_io: "pin_io (gui_env b) = good_io"
  by (simp add: gui_env_def)

theorem decide_remembers_witness:
  "fst (decide (gui_env False) (snd (decide (gui_env True) empty_disk ''hotline.example'' 5600 ''sha256:aa''))
     ''hotline.example'' 5600 ''sha256:aa'')"
  by (subst decide_remembers [where p = "''/cfg/known_hosts''"])
    (simp_all add: sample_hosts gui_env_path gui_env_accepts gui_env_io good_io_def exI [of _ 0])

text \<open>the pin of a host with a colon, such as an IPv6 literal, is not found again: the entry is
  written without brackets and read back as a host name of its own, so the next connection asks
  the same question.\<close>

theorem pin_ipv6_forgotten:
  assumes "utf8_valid host" "ws_free host" "CHR '':'' \<in> set host" "hd host \<noteq> CHR ''[''"
    and "hd host \<noteq> CHR ''#''" "fingerprint_token fp" "date_text date"
  shows "lookup (Some (pin_text None host port fp date)) host port fp = Unknown"
proof -
  let ?f = "host @ CHR '':'' # dec_of_nat (unat port)"
  have ne: "host \<noteq> []" using assms(3) by auto
  then have "strip_prefix ''['' ?f = None" using assms(4) by (cases host) simp_all
  moreover have "0 < count_list host (CHR '':'')"
    using assms(3) by (simp add: count_list_0_iff zero_less_iff_neq_zero)
  ultimately have "parse_host_field ?f = Some (?f, 0)"
    by (simp add: parse_host_field_def)
  from parse_pin_line_field [OF ne assms(2,5,6) this, of date]
  have "entries (Some (pin_text None host port fp date)) =
      [\<lparr>en_host = ?f, en_port = 0, en_fingerprint = fp\<rparr>]"
    using entries_pin_line [OF assms(1,2,6,7), of None port] by (simp add: List.map_filter_def)
  moreover have "\<not> eq_ignore_ascii_case ?f host"
    unfolding eq_ignore_ascii_case_def by (auto dest: map_eq_imp_length_eq)
  ultimately show ?thesis
    by (simp add: lookup_entries entry_matches_def host_port_match_def)
qed

theorem pin_ipv6_forgotten_witness:
  "lookup (Some (pin_text None ''::1'' 5600 ''sha256:aa'' ''2026-01-02'')) ''::1'' 5600 ''sha256:aa'' = Unknown"
proof (rule pin_ipv6_forgotten)
  show "utf8_valid ''::1''" "ws_free ''::1''" by code_simp+
qed (simp_all add: sample_hosts)

definition any_port_file :: string where
  "any_port_file = ''hotline.example sha256:aa''"

lemma entries_any_port:
  "entries (Some any_port_file) = [\<lparr>en_host = ''hotline.example'', en_port = 0, en_fingerprint = ''sha256:aa''\<rparr>]"
  by code_simp

text \<open>pinning one port of a host drops an entry that vouched for the host on every port.\<close>

theorem pin_drops_any_port_entry:
  "lookup (Some any_port_file) ''hotline.example'' 5500 ''sha256:aa'' = Trusted \<and>
   lookup (Some (pin_text (Some any_port_file) ''hotline.example'' 5600 ''sha256:bb'' ''2026-01-02''))
     ''hotline.example'' 5500 ''sha256:aa'' = Unknown"
  using entries_pin_text [of "''hotline.example''" 5600 "''sha256:bb''" "''2026-01-02''" "Some any_port_file"]
  by (simp add: lookup_entries entries_any_port entry_matches_def host_port_match_def sample_hosts)

end
