(* ===== verification/Macres.thy ===== *)
theory Macres
  imports Hx_Prelude
begin

text \<open>
  The Macintosh resource-fork reader of crate \<open>hxmacres\<close> (\<open>lib.rs\<close>): the bounds-checked big-endian
  reads, the walk over the resource map, and the three queries.  \<open>usize\<close> is 64 bits wide:
  \<open>checked_add\<close> and \<open>checked_mul\<close> fail past it.  A resource id is an \<open>i16\<close>, the word of its bits.
\<close>

type_synonym i16 = "16 word"

section \<open>Checked arithmetic on usize\<close>

definition usize_modulus :: nat where
  "usize_modulus = 18446744073709551616"

definition checked_add :: "nat \<Rightarrow> nat \<Rightarrow> nat option" where
  "checked_add a b = (if a + b < usize_modulus then Some (a + b) else None)"

definition checked_mul :: "nat \<Rightarrow> nat \<Rightarrow> nat option" where
  "checked_mul a b = (if a * b < usize_modulus then Some (a * b) else None)"

text \<open>\<open>u16::checked_add(1)\<close>.\<close>

definition u16_succ :: "u16 \<Rightarrow> u16 option" where
  "u16_succ w = (if w = 0xFFFF then None else Some (w + 1))"

section \<open>Reads\<close>

definition be16 :: "bytes \<Rightarrow> nat \<Rightarrow> u16 option" where
  "be16 b off = Option.bind (checked_add off 2) (\<lambda>end_off.
     map_option (\<lambda>s. from_be16 (s ! 0) (s ! 1)) (get_range b off end_off))"

definition be24 :: "bytes \<Rightarrow> nat \<Rightarrow> u32 option" where
  "be24 b off = Option.bind (checked_add off 3) (\<lambda>end_off.
     map_option (\<lambda>s. push_bit 16 (ucast (s ! 0)) OR push_bit 8 (ucast (s ! 1)) OR ucast (s ! 2))
       (get_range b off end_off))"

definition be32 :: "bytes \<Rightarrow> nat \<Rightarrow> u32 option" where
  "be32 b off = Option.bind (checked_add off 4) (\<lambda>end_off.
     map_option (\<lambda>s. from_be32 (s ! 0) (s ! 1) (s ! 2) (s ! 3)) (get_range b off end_off))"

section \<open>The fork\<close>

record TypeEntry =
  te_res_type :: u32
  te_count :: u32
  te_ref_list_off :: u16

record ResourceFork =
  rf_data :: bytes
  rf_first_res_off :: u32
  rf_res_map_off :: u32
  rf_res_type_list_off :: u16
  rf_types :: "TypeEntry list"

record Resource =
  rs_resid :: i16
  rs_data :: bytes

definition parse_type :: "bytes \<Rightarrow> nat \<Rightarrow> nat \<Rightarrow> TypeEntry option" where
  "parse_type data tl_base i =
     Option.bind (checked_mul i 8) (\<lambda>i8.
     Option.bind (checked_add tl_base i8) (\<lambda>off.
     Option.bind (be32 data off) (\<lambda>res_type.
     Option.bind (Option.bind (checked_add off 4) (be16 data)) (\<lambda>c.
     Option.bind (u16_succ c) (\<lambda>count.
     Option.bind (Option.bind (checked_add off 6) (be16 data)) (\<lambda>ref_list_off.
       Some \<lparr>te_res_type = res_type, te_count = ucast count, te_ref_list_off = ref_list_off\<rparr>))))))"

fun parse_types :: "bytes \<Rightarrow> nat \<Rightarrow> nat list \<Rightarrow> TypeEntry list option" where
  "parse_types data tl_base [] = Some []"
| "parse_types data tl_base (i # is) =
     Option.bind (parse_type data tl_base i) (\<lambda>t. map_option ((#) t) (parse_types data tl_base is))"

definition parse :: "bytes \<Rightarrow> ResourceFork option" where
  "parse data =
     Option.bind (be32 data 0) (\<lambda>first_res_off.
     Option.bind (be32 data 4) (\<lambda>res_map_off.
     Option.bind (be32 data 8) (\<lambda>res_data_len.
     Option.bind (be32 data 12) (\<lambda>res_map_len.
     Option.bind (checked_add (unat first_res_off) (unat res_data_len)) (\<lambda>data_end.
     if data_end > length data then None else
     Option.bind (checked_add (unat res_map_off) (unat res_map_len)) (\<lambda>map_end.
     if map_end > length data then None else
     let mo = unat res_map_off in
     Option.bind (Option.bind (checked_add mo 24) (be16 data)) (\<lambda>res_type_list_off.
     Option.bind (Option.bind (checked_add mo 28) (be16 data)) (\<lambda>n.
     Option.bind (u16_succ n) (\<lambda>num_res_types.
     Option.bind (checked_add mo (unat res_type_list_off)) (\<lambda>tl_off.
     Option.bind (checked_add tl_off 2) (\<lambda>tl_base.
     map_option (\<lambda>types.
         \<lparr>rf_data = data, rf_first_res_off = first_res_off, rf_res_map_off = res_map_off,
          rf_res_type_list_off = res_type_list_off, rf_types = types\<rparr>)
       (parse_types data tl_base [0..<unat num_res_types]))))))))))))"

definition type_entry :: "ResourceFork \<Rightarrow> u32 \<Rightarrow> TypeEntry option" where
  "type_entry f res_type = find (\<lambda>t. te_res_type t = res_type) (rf_types f)"

definition num_res_of_type :: "ResourceFork \<Rightarrow> u32 \<Rightarrow> u32" where
  "num_res_of_type f res_type =
     (case type_entry f res_type of Some t \<Rightarrow> te_count t | None \<Rightarrow> 0)"

definition ref_entry :: "ResourceFork \<Rightarrow> TypeEntry \<Rightarrow> nat \<Rightarrow> (i16 \<times> u32) option" where
  "ref_entry f t n =
     Option.bind (checked_add (unat (rf_res_map_off f)) (unat (rf_res_type_list_off f))) (\<lambda>b0.
     Option.bind (checked_add b0 (unat (te_ref_list_off t))) (\<lambda>base.
     Option.bind (checked_mul n 12) (\<lambda>n12.
     Option.bind (checked_add base n12) (\<lambda>off.
     Option.bind (be16 (rf_data f) off) (\<lambda>resid.
     Option.bind (Option.bind (checked_add off 5) (be24 (rf_data f))) (\<lambda>data_off.
       Some (resid, data_off)))))))"

definition resource_at :: "ResourceFork \<Rightarrow> i16 \<Rightarrow> u32 \<Rightarrow> Resource option" where
  "resource_at f resid data_off =
     Option.bind (checked_add (unat (rf_first_res_off f)) (unat data_off)) (\<lambda>base.
     Option.bind (be32 (rf_data f) base) (\<lambda>len.
     Option.bind (checked_add base 4) (\<lambda>start.
     Option.bind (checked_add start (unat len)) (\<lambda>end_off.
     map_option (\<lambda>d. \<lparr>rs_resid = resid, rs_data = d\<rparr>) (get_range (rf_data f) start end_off)))))"

definition nth_res_of_type :: "ResourceFork \<Rightarrow> u32 \<Rightarrow> u32 \<Rightarrow> Resource option" where
  "nth_res_of_type f res_type n =
     Option.bind (type_entry f res_type) (\<lambda>t.
     if n \<ge> te_count t then None
     else Option.bind (ref_entry f t (unat n)) (\<lambda>(resid, data_off). resource_at f resid data_off))"

fun scan_ids :: "ResourceFork \<Rightarrow> TypeEntry \<Rightarrow> i16 \<Rightarrow> nat list \<Rightarrow> Resource option" where
  "scan_ids f t resid [] = None"
| "scan_ids f t resid (n # ns) =
     (case ref_entry f t n of
        None \<Rightarrow> None
      | Some (rid, data_off) \<Rightarrow>
          if rid = resid then resource_at f resid data_off else scan_ids f t resid ns)"

definition res_of_id :: "ResourceFork \<Rightarrow> u32 \<Rightarrow> i16 \<Rightarrow> Resource option" where
  "res_of_id f res_type resid =
     Option.bind (type_entry f res_type) (\<lambda>t. scan_ids f t resid [0..<unat (te_count t)])"

end
