(* ===== verification/Macres_Props.thy ===== *)
theory Macres_Props
  imports Macres
begin

text \<open>
  Correctness of the resource-fork reader: every resource it hands out is a slice of the file
  whose length is the one its prefix declares, a search by id returns the first resource with that
  id, and the reader inverts the format: \<open>encode_fork\<close> lays a list of typed resources out as a
  fork, and parsing it gives back exactly those resources.
\<close>

section \<open>Reads at an offset\<close>

definition has_at :: "bytes \<Rightarrow> nat \<Rightarrow> bytes \<Rightarrow> bool" where
  "has_at b off s \<longleftrightarrow> off + length s \<le> length b \<and> take (length s) (drop off b) = s"

lemma has_at_append:
  "has_at b off (s @ t) \<longleftrightarrow> has_at b off s \<and> has_at b (off + length s) t"
proof -
  have "take (length s + length t) (drop off b) =
      take (length s) (drop off b) @ take (length t) (drop (off + length s) b)"
    by (simp add: take_add add.commute)
  then show ?thesis
    unfolding has_at_def by (auto simp: append_eq_append_conv)
qed

lemma has_at_Cons:
  "t \<noteq> [] \<Longrightarrow> has_at b off (x # t) \<longleftrightarrow> has_at b off [x] \<and> has_at b (Suc off) t"
  using has_at_append [of b off "[x]" t] by simp

lemma has_at_bound: "has_at b off s \<Longrightarrow> off + length s \<le> length b"
  by (simp add: has_at_def)

lemma has_at_get_range: "has_at b off s \<Longrightarrow> get_range b off (off + length s) = Some s"
  by (simp add: has_at_def get_range_def)

lemma has_at_self: "has_at s 0 s"
  by (simp add: has_at_def)

definition be_bytes24 :: "u32 \<Rightarrow> bytes" where
  "be_bytes24 w = [ucast (drop_bit 16 w), ucast (drop_bit 8 w), ucast w]"

lemma be_bytes24_length [simp]: "length (be_bytes24 w) = 3"
  by (simp add: be_bytes24_def)

lemma be_bytes24_neq_Nil [simp]: "be_bytes24 w \<noteq> []"
  by (simp add: be_bytes24_def)

lemma be24_value:
  assumes "unat w < 2 ^ 24"
  shows "push_bit 16 (ucast (ucast (drop_bit 16 w) :: u8)) OR push_bit 8 (ucast (ucast (drop_bit 8 w) :: u8))
     OR ucast (ucast w :: u8) = (w :: u32)"
proof (rule bit_word_eqI)
  fix n assume "n < LENGTH(32)"
  then have "n < 32" by simp
  have "take_bit 24 w = w"
    using assms by (simp add: word_unat_eq_iff unsigned_take_bit_eq take_bit_nat_eq_self)
  then have high: "bit w n \<Longrightarrow> n < 24" by (metis bit_take_bit_iff)
  from \<open>n < 32\<close> consider "n < 8" | "8 \<le> n \<and> n < 16" | "16 \<le> n \<and> n < 24" | "24 \<le> n \<and> n < 32"
    by fastforce
  then show "bit (push_bit 16 (ucast (ucast (drop_bit 16 w) :: u8)) OR
      push_bit 8 (ucast (ucast (drop_bit 8 w) :: u8)) OR ucast (ucast w :: u8) :: u32) n = bit w n"
    using high by cases (auto simp: bit_simps)
qed

lemma be16_at: "has_at b off (be_bytes16 w) \<Longrightarrow> length b < usize_modulus \<Longrightarrow> be16 b off = Some w"
  using has_at_get_range [of b off "be_bytes16 w"] has_at_bound [of b off "be_bytes16 w"]
  by (simp add: be16_def checked_add_def) (simp add: be_bytes16_def be_simps)

lemma be32_at: "has_at b off (be_bytes32 w) \<Longrightarrow> length b < usize_modulus \<Longrightarrow> be32 b off = Some w"
  using has_at_get_range [of b off "be_bytes32 w"] has_at_bound [of b off "be_bytes32 w"]
  by (simp add: be32_def checked_add_def) (simp add: be_bytes32_def be_simps)

lemma be24_at:
  "has_at b off (be_bytes24 w) \<Longrightarrow> unat w < 2 ^ 24 \<Longrightarrow> length b < usize_modulus \<Longrightarrow> be24 b off = Some w"
  using has_at_get_range [of b off "be_bytes24 w"] has_at_bound [of b off "be_bytes24 w"]
  using be24_value [of w] by (simp add: be24_def checked_add_def) (simp add: be_bytes24_def)

section \<open>Bounds\<close>

lemma resource_at_slice:
  assumes "resource_at f resid data_off = Some r"
  shows "\<exists>off len. off = unat (rf_first_res_off f) + unat data_off \<and> be32 (rf_data f) off = Some len \<and>
    off + 4 + unat len \<le> length (rf_data f) \<and> rs_resid r = resid \<and>
    rs_data r = take (unat len) (drop (off + 4) (rf_data f))"
  using assms
  by (auto simp: resource_at_def checked_add_def get_range_Some_iff bind_eq_Some_conv split: if_splits)

lemma resource_at_resid: "resource_at f resid data_off = Some r \<Longrightarrow> rs_resid r = resid"
  using resource_at_slice by blast

text \<open>a resource handed out lies inside the file: its bytes are the slice behind its length
  prefix, as long as that prefix says.\<close>

theorem nth_res_in_bounds:
  assumes "nth_res_of_type f res_type n = Some r"
  shows "n < num_res_of_type f res_type \<and>
    (\<exists>off len. be32 (rf_data f) off = Some len \<and> off + 4 + unat len \<le> length (rf_data f) \<and>
      rs_data r = take (unat len) (drop (off + 4) (rf_data f)) \<and> length (rs_data r) = unat len)"
proof -
  from assms obtain t resid data_off where t: "type_entry f res_type = Some t" "n < te_count t"
    and r: "resource_at f resid data_off = Some r"
    by (auto simp: nth_res_of_type_def bind_eq_Some_conv split: if_splits)
  have "n < num_res_of_type f res_type" using t by (simp add: num_res_of_type_def)
  with resource_at_slice [OF r] show ?thesis by fastforce
qed

lemma ex_less_cong:
  "(\<And>n. n < (k :: nat) \<Longrightarrow> Q n \<longleftrightarrow> R n) \<Longrightarrow> (\<exists>n < k. P n \<and> R n) \<longleftrightarrow> (\<exists>n < k. Q n \<and> P n)"
  by blast

lemma scan_ids_Some:
  "scan_ids f t resid ns = Some r \<longleftrightarrow>
     (\<exists>k < length ns. (\<forall>j < k. \<exists>rid off. ref_entry f t (ns ! j) = Some (rid, off) \<and> rid \<noteq> resid) \<and>
        (\<exists>off. ref_entry f t (ns ! k) = Some (resid, off) \<and> resource_at f resid off = Some r))"
proof (induction ns)
  case (Cons n ns)
  show ?case
  proof (cases "ref_entry f t n")
    case (Some p)
    obtain rid off where "p = (rid, off)" by (cases p)
    with Some Cons.IH show ?thesis
      by (cases "rid = resid") (simp_all add: Ex_less_Suc2 All_less_Suc2)
  qed (simp add: Ex_less_Suc2 All_less_Suc2)
qed simp

text \<open>a search by id gives the first resource of the type with that id: it succeeds exactly when
  some entry has the id, every earlier entry can be read and has another, and its data lie in the
  file.\<close>

theorem res_of_id_first:
  assumes "type_entry f res_type = Some t"
  shows "res_of_id f res_type resid = Some r \<longleftrightarrow>
    (\<exists>n < unat (te_count t). nth_res_of_type f res_type (of_nat n) = Some r \<and> rs_resid r = resid \<and>
      (\<forall>k < n. \<exists>rid off. ref_entry f t k = Some (rid, off) \<and> rid \<noteq> resid))"
proof -
  have idx: "nth_res_of_type f res_type (of_nat n) = Some r \<and> rs_resid r = resid \<longleftrightarrow>
      (\<exists>off. ref_entry f t n = Some (resid, off) \<and> resource_at f resid off = Some r)"
    if n: "n < unat (te_count t)" for n
  proof -
    have "n < 2 ^ 32" using n unsigned_less [of "te_count t", where ?'a = nat] by simp
    then have u: "unat (of_nat n :: u32) = n" by (simp add: unat_of_nat)
    moreover from u n have "\<not> te_count t \<le> of_nat n" by (simp add: word_le_nat_alt)
    ultimately show ?thesis
      using assms resource_at_resid [of f _ _ r]
      by (cases "ref_entry f t n") (auto simp: nth_res_of_type_def)
  qed
  have "res_of_id f res_type resid = Some r \<longleftrightarrow>
      (\<exists>n < unat (te_count t). (\<forall>k < n. \<exists>rid off. ref_entry f t k = Some (rid, off) \<and> rid \<noteq> resid) \<and>
        (\<exists>off. ref_entry f t n = Some (resid, off) \<and> resource_at f resid off = Some r))"
    using assms by (auto simp: res_of_id_def scan_ids_Some intro: order_less_trans)
  also have "\<dots> \<longleftrightarrow> (\<exists>n < unat (te_count t).
      (nth_res_of_type f res_type (of_nat n) = Some r \<and> rs_resid r = resid) \<and>
      (\<forall>k < n. \<exists>rid off. ref_entry f t k = Some (rid, off) \<and> rid \<noteq> resid))"
    by (rule ex_less_cong) (rule idx)
  finally show ?thesis by (simp only: conj_assoc)
qed

section \<open>The format\<close>

text \<open>A fork as a list of types, each with its resources in order; \<open>encode_fork\<close> lays it out with the
  data section first, then the map: its header, the type list and the reference lists.\<close>

type_synonym fork_contents = "(u32 \<times> (i16 \<times> bytes) list) list"

definition enc_data :: "(i16 \<times> bytes) list \<Rightarrow> bytes" where
  "enc_data rs = concat (map (\<lambda>(i, d). be_bytes32 (of_nat (length d)) @ d) rs)"

fun enc_types :: "nat \<Rightarrow> fork_contents \<Rightarrow> bytes" where
  "enc_types off [] = []"
| "enc_types off ((t, rs) # ts) =
     be_bytes32 t @ be_bytes16 (of_nat (length rs - 1)) @ be_bytes16 (of_nat off)
       @ enc_types (off + 12 * length rs) ts"

fun enc_refs :: "nat \<Rightarrow> (i16 \<times> bytes) list \<Rightarrow> bytes" where
  "enc_refs off [] = []"
| "enc_refs off ((i, d) # rs) =
     be_bytes16 i @ be_bytes16 0xFFFF @ [0] @ be_bytes24 (of_nat off) @ be_bytes32 0
       @ enc_refs (off + 4 + length d) rs"

definition all_resources :: "fork_contents \<Rightarrow> (i16 \<times> bytes) list" where
  "all_resources ts = concat (map snd ts)"

definition enc_map :: "fork_contents \<Rightarrow> bytes" where
  "enc_map ts = replicate 24 0 @ be_bytes16 28 @ be_bytes16 0 @ be_bytes16 (of_nat (length ts - 1))
     @ enc_types (2 + 8 * length ts) ts @ enc_refs 0 (all_resources ts)"

definition encode_fork :: "fork_contents \<Rightarrow> bytes" where
  "encode_fork ts =
     (let dat = enc_data (all_resources ts); mp = enc_map ts
      in be_bytes32 16 @ be_bytes32 (of_nat (16 + length dat)) @ be_bytes32 (of_nat (length dat))
           @ be_bytes32 (of_nat (length mp)) @ dat @ mp)"

text \<open>What the fields of the format can hold.\<close>

definition fork_ok :: "fork_contents \<Rightarrow> bool" where
  "fork_ok ts \<longleftrightarrow> ts \<noteq> [] \<and> distinct (map fst ts) \<and>
     list_all (\<lambda>(t, rs). rs \<noteq> [] \<and> distinct (map fst rs)) ts \<and>
     2 + 8 * length ts + 12 * length (all_resources ts) < 2 ^ 16 \<and>
     length (enc_data (all_resources ts)) < 2 ^ 24"

definition refs_before :: "fork_contents \<Rightarrow> nat \<Rightarrow> nat" where
  "refs_before ts i = length (all_resources (take i ts))"

lemma all_resources_simps [simp]:
  "all_resources [] = []" "all_resources ((t, rs) # ts) = rs @ all_resources ts"
  "all_resources (ts @ us) = all_resources ts @ all_resources us"
  by (simp_all add: all_resources_def)

lemma enc_data_simps [simp]:
  "enc_data [] = []" "enc_data ((i, d) # rs) = be_bytes32 (of_nat (length d)) @ d @ enc_data rs"
  "enc_data (rs @ qs) = enc_data rs @ enc_data qs"
  by (simp_all add: enc_data_def)

lemma length_enc_types [simp]: "length (enc_types off ts) = 8 * length ts"
  by (induction off ts rule: enc_types.induct) simp_all

lemma length_enc_refs [simp]: "length (enc_refs off rs) = 12 * length rs"
  by (induction off rs rule: enc_refs.induct) simp_all

lemma enc_types_nth:
  "has_at b pos (enc_types off ts) \<Longrightarrow> i < length ts \<Longrightarrow> ts ! i = (t, rs) \<Longrightarrow>
   has_at b (pos + 8 * i)
     (be_bytes32 t @ be_bytes16 (of_nat (length rs - 1)) @ be_bytes16 (of_nat (off + 12 * refs_before ts i)))"
proof (induction off ts arbitrary: pos i rule: enc_types.induct)
  case (2 off t' rs' ts)
  then show ?case
  proof (cases i)
    case (Suc j)
    have "has_at b (pos + 8) (enc_types (off + 12 * length rs') ts)"
      using "2.prems"(1) by (simp add: has_at_append add.commute [of pos])
    from "2.IH" [OF this, of j] "2.prems" Suc show ?thesis
      by (simp add: refs_before_def algebra_simps)
  qed (simp add: has_at_append refs_before_def)
qed simp

lemma enc_refs_nth:
  "has_at b pos (enc_refs off rs) \<Longrightarrow> n < length rs \<Longrightarrow> rs ! n = (i, d) \<Longrightarrow>
   has_at b (pos + 12 * n) (be_bytes16 i) \<and>
   has_at b (pos + 12 * n + 5) (be_bytes24 (of_nat (off + length (enc_data (take n rs)))))"
proof (induction off rs arbitrary: pos n rule: enc_refs.induct)
  case (2 off i' d' rs)
  then show ?case
  proof (cases n)
    case (Suc m)
    have "has_at b (pos + 12) (enc_refs (off + 4 + length d') rs)"
      using "2.prems"(1) by (simp add: has_at_append has_at_Cons add.commute [of pos])
    from "2.IH" [OF this, of m] "2.prems" Suc show ?thesis
      by (simp add: algebra_simps)
  qed (simp add: has_at_append has_at_Cons add.commute [of pos] eval_nat_numeral)
qed simp

lemma enc_data_nth:
  "has_at b pos (enc_data rs) \<Longrightarrow> n < length rs \<Longrightarrow> rs ! n = (i, d) \<Longrightarrow>
   has_at b (pos + length (enc_data (take n rs))) (be_bytes32 (of_nat (length d)) @ d)"
proof (induction rs arbitrary: pos n)
  case (Cons r rs)
  obtain i' d' where r: "r = (i', d')" by (cases r)
  show ?case
  proof (cases n)
    case (Suc m)
    have "has_at b (pos + (4 + length d')) (enc_data rs)"
      using Cons.prems(1) r by (simp add: has_at_append add.assoc)
    from Cons.IH [OF this, of m] Cons.prems Suc r show ?thesis
      by (simp add: algebra_simps)
  qed (use Cons.prems r in \<open>simp add: has_at_append\<close>)
qed simp

lemma parse_types_map:
  "(\<And>i. i \<in> set is \<Longrightarrow> parse_type data tl_base i = Some (g i)) \<Longrightarrow>
   parse_types data tl_base is = Some (map g is)"
  by (induction "is") simp_all

lemma u16_succ_of_nat:
  assumes "0 < k" "k < 2 ^ 16"
  shows "u16_succ (of_nat (k - 1)) = Some (of_nat k)"
proof -
  from assms obtain m where k: "k = Suc m" by (cases k) simp_all
  have "unat (of_nat m :: u16) = m" using assms k by (simp add: unat_of_nat)
  then have "(of_nat m :: u16) \<noteq> 0xFFFF" using assms k by (auto simp: word_unat_eq_iff)
  then show ?thesis using k by (simp add: u16_succ_def add.commute)
qed

lemma ucast_of_nat_16_32: "n < 2 ^ 16 \<Longrightarrow> (ucast (of_nat n :: u16) :: u32) = of_nat n"
  by (rule word_unat_eq_iff [THEN iffD2]) (simp add: unat_of_nat unsigned_ucast_eq take_bit_eq_mod)

lemma all_resources_nth:
  assumes "i < length ts" "ts ! i = (t, rs)" "k < length rs"
  shows "refs_before ts i + k < length (all_resources ts)"
    and "all_resources ts ! (refs_before ts i + k) = rs ! k"
    and "length rs \<le> length (all_resources ts)"
proof -
  have ts: "ts = take i ts @ (t, rs) # drop (Suc i) ts"
    using assms by (metis id_take_nth_drop)
  have "all_resources ts = all_resources (take i ts) @ rs @ all_resources (drop (Suc i) ts)"
    by (subst ts) simp
  with assms(3) show "refs_before ts i + k < length (all_resources ts)"
    and "all_resources ts ! (refs_before ts i + k) = rs ! k"
    and "length rs \<le> length (all_resources ts)"
    by (simp_all add: refs_before_def nth_append)
qed

definition type_of :: "fork_contents \<Rightarrow> nat \<Rightarrow> TypeEntry" where
  "type_of ts i = \<lparr>te_res_type = fst (ts ! i), te_count = of_nat (length (snd (ts ! i))),
     te_ref_list_off = of_nat (2 + 8 * length ts + 12 * refs_before ts i)\<rparr>"

definition fork_of :: "fork_contents \<Rightarrow> ResourceFork" where
  "fork_of ts = \<lparr>rf_data = encode_fork ts, rf_first_res_off = 16,
     rf_res_map_off = of_nat (16 + length (enc_data (all_resources ts))),
     rf_res_type_list_off = 28, rf_types = map (type_of ts) [0..<length ts]\<rparr>"

lemma length_enc_map: "length (enc_map ts) = 30 + 8 * length ts + 12 * length (all_resources ts)"
  by (simp add: enc_map_def)

lemma length_encode_fork:
  "length (encode_fork ts) = 16 + length (enc_data (all_resources ts)) + length (enc_map ts)"
  by (simp add: encode_fork_def Let_def)

lemma encode_fork_at:
  fixes ts :: fork_contents
  defines "b \<equiv> encode_fork ts" and "mo \<equiv> 16 + length (enc_data (all_resources ts))"
  shows "has_at b 0 (be_bytes32 16)" "has_at b 4 (be_bytes32 (of_nat mo))"
    "has_at b 8 (be_bytes32 (of_nat (length (enc_data (all_resources ts)))))"
    "has_at b 12 (be_bytes32 (of_nat (length (enc_map ts))))"
    "has_at b 16 (enc_data (all_resources ts))"
    "has_at b (mo + 24) (be_bytes16 28)" "has_at b (mo + 28) (be_bytes16 (of_nat (length ts - 1)))"
    "has_at b (mo + 30) (enc_types (2 + 8 * length ts) ts)"
    "has_at b (mo + 30 + 8 * length ts) (enc_refs 0 (all_resources ts))"
proof -
  have all: "has_at b 0 (be_bytes32 16 @ be_bytes32 (of_nat mo) @
      be_bytes32 (of_nat (length (enc_data (all_resources ts)))) @
      be_bytes32 (of_nat (length (enc_map ts))) @ enc_data (all_resources ts) @ enc_map ts)"
    unfolding b_def mo_def encode_fork_def Let_def by (rule has_at_self)
  then show "has_at b 0 (be_bytes32 16)" "has_at b 4 (be_bytes32 (of_nat mo))"
    "has_at b 8 (be_bytes32 (of_nat (length (enc_data (all_resources ts)))))"
    "has_at b 12 (be_bytes32 (of_nat (length (enc_map ts))))"
    "has_at b 16 (enc_data (all_resources ts))"
    by (simp_all add: has_at_append)
  from all have "has_at b mo (enc_map ts)" by (simp add: has_at_append mo_def)
  then show "has_at b (mo + 24) (be_bytes16 28)" "has_at b (mo + 28) (be_bytes16 (of_nat (length ts - 1)))"
    "has_at b (mo + 30) (enc_types (2 + 8 * length ts) ts)"
    "has_at b (mo + 30 + 8 * length ts) (enc_refs 0 (all_resources ts))"
    unfolding enc_map_def by (simp_all add: has_at_append add.commute)
qed

lemma fork_ok_bounds:
  assumes "fork_ok ts"
  shows "length (encode_fork ts) < usize_modulus" "length (encode_fork ts) < 2 ^ 25"
    "0 < length ts" "length ts < 2 ^ 16"
    "length (enc_data (all_resources ts)) < 2 ^ 24"
    "2 + 8 * length ts + 12 * length (all_resources ts) < 2 ^ 16"
  using assms by (auto simp: fork_ok_def length_encode_fork length_enc_map usize_modulus_def)

lemma parse_type_at:
  assumes at: "has_at b (pos + 8 * i) (be_bytes32 t @ be_bytes16 c @ be_bytes16 r)"
    and b: "length b < usize_modulus" and c: "u16_succ c = Some k"
  shows "parse_type b pos i = Some \<lparr>te_res_type = t, te_count = ucast k, te_ref_list_off = r\<rparr>"
proof -
  let ?o = "pos + i * 8"
  from at have h: "has_at b ?o (be_bytes32 t)" "has_at b (?o + 4) (be_bytes16 c)"
    "has_at b (?o + 6) (be_bytes16 r)"
    by (simp_all add: has_at_append mult.commute add.commute [of _ 6])
  have "?o + 8 < usize_modulus" using has_at_bound [OF h(3)] b by simp
  moreover have "be32 b ?o = Some t" "be16 b (?o + 4) = Some c" "be16 b (?o + 6) = Some r"
    using h b by (simp_all only: be32_at be16_at)
  ultimately have "be32 b ?o = Some t" "be16 b (?o + 4) = Some c" "be16 b (?o + 6) = Some r"
    "?o + 8 < usize_modulus" by simp_all
  with c show ?thesis by (simp add: parse_type_def checked_mul_def checked_add_def)
qed

lemma parse_type_encoded:
  assumes ok: "fork_ok ts" and i: "i < length ts"
  shows "parse_type (encode_fork ts) (46 + length (enc_data (all_resources ts))) i = Some (type_of ts i)"
proof -
  note bd = fork_ok_bounds [OF ok]
  obtain t rs where ti: "ts ! i = (t, rs)" by (cases "ts ! i")
  with ok i have "rs \<noteq> []" by (auto simp: fork_ok_def list_all_length)
  then have len: "0 < length rs" "length rs < 2 ^ 16"
    using all_resources_nth(3) [OF i ti, of 0] bd by simp_all
  have at: "has_at (encode_fork ts) (46 + length (enc_data (all_resources ts)))
      (enc_types (2 + 8 * length ts) ts)"
    using encode_fork_at(8) [of ts] by (simp add: add.commute)
  show ?thesis
    using parse_type_at [OF enc_types_nth [OF at i ti] bd(1) u16_succ_of_nat [OF len]]
      ucast_of_nat_16_32 [OF len(2)] ti
    by (simp add: type_of_def)
qed

lemma parse_reads:
  assumes "be32 b 0 = Some fo" "be32 b 4 = Some mo" "be32 b 8 = Some dl" "be32 b 12 = Some ml"
    and "unat fo + unat dl \<le> length b" "unat mo + unat ml \<le> length b"
    and "be16 b (unat mo + 24) = Some tlo" "be16 b (unat mo + 28) = Some c" "u16_succ c = Some n"
    and "unat mo + unat tlo + 30 < usize_modulus" "length b < usize_modulus"
    and "parse_types b (unat mo + unat tlo + 2) [0..<unat n] = Some types"
  shows "parse b = Some \<lparr>rf_data = b, rf_first_res_off = fo, rf_res_map_off = mo,
    rf_res_type_list_off = tlo, rf_types = types\<rparr>"
  using assms by (simp add: parse_def checked_add_def Let_def)

lemma parse_encoded:
  assumes ok: "fork_ok ts"
  shows "parse (encode_fork ts) = Some (fork_of ts)"
proof -
  note bd = fork_ok_bounds [OF ok]
  let ?b = "encode_fork ts" and ?d = "length (enc_data (all_resources ts))"
  define mo dl ml :: u32 where "mo = of_nat (16 + ?d)" and "dl = of_nat ?d"
    and "ml = of_nat (length (enc_map ts))"
  have u: "unat mo = 16 + ?d" "unat dl = ?d" "unat ml = length (enc_map ts)"
    unfolding mo_def dl_def ml_def
    using bd by (intro unat_of_nat_small, simp add: length_encode_fork)+
  have c: "unat (16 :: u32) = 16" "unat (28 :: u16) = 28" by simp_all
  have "parse ?b = Some \<lparr>rf_data = ?b, rf_first_res_off = 16, rf_res_map_off = mo,
    rf_res_type_list_off = 28, rf_types = map (type_of ts) [0..<length ts]\<rparr>"
  proof (rule parse_reads)
    show "be32 ?b 0 = Some 16" "be32 ?b 4 = Some mo" "be32 ?b 8 = Some dl" "be32 ?b 12 = Some ml"
      "be16 ?b (unat mo + 24) = Some 28" "be16 ?b (unat mo + 28) = Some (of_nat (length ts - 1))"
      unfolding u unfolding mo_def dl_def ml_def
      using encode_fork_at [of ts] bd(1) by (simp_all only: be32_at be16_at)
    show "u16_succ (of_nat (length ts - 1)) = Some (of_nat (length ts))"
      by (rule u16_succ_of_nat [OF bd(3,4)])
    have "parse_types ?b (46 + ?d) [0..<length ts] = Some (map (type_of ts) [0..<length ts])"
      by (rule parse_types_map) (simp add: parse_type_encoded [OF ok])
    moreover have "unat (of_nat (length ts) :: u16) = length ts"
      using bd by (simp only: unat_of_nat_small)
    ultimately show "parse_types ?b (unat mo + unat (28 :: u16) + 2)
        [0..<unat (of_nat (length ts) :: u16)] = Some (map (type_of ts) [0..<length ts])"
      unfolding u c by (simp add: add.commute)
    show "unat (16 :: u32) + unat dl \<le> length ?b" "unat mo + unat ml \<le> length ?b"
      "unat mo + unat (28 :: u16) + 30 < usize_modulus" "length ?b < usize_modulus"
      unfolding u c using bd by (simp_all add: length_encode_fork usize_modulus_def)
  qed
  then show ?thesis by (simp only: fork_of_def mo_def)
qed

lemma type_entry_fork_of:
  assumes ok: "fork_ok ts" and i: "i < length ts" "ts ! i = (t, rs)"
  shows "type_entry (fork_of ts) t = Some (type_of ts i)"
proof -
  have "distinct (map fst ts)" using ok by (simp add: fork_ok_def)
  then have uniq: "j = i" if "j < length ts" "fst (ts ! j) = t" for j
    using nth_eq_iff_index_eq [of "map fst ts" j i] that i by simp
  have "te_res_type (type_of ts j) \<noteq> t" if "j < i" for j
    using uniq [of j] that i(1) by (auto simp: type_of_def)
  moreover have "te_res_type (type_of ts i) = t" using i by (simp add: type_of_def)
  ultimately show ?thesis
    unfolding type_entry_def find_Some_iff
    using i(1) by (intro exI [of _ i]) (simp add: fork_of_def)
qed

lemma ref_entry_at:
  assumes "off = unat (rf_res_map_off f) + unat (rf_res_type_list_off f) + unat (te_ref_list_off t) + n * 12"
    and "has_at (rf_data f) off (be_bytes16 i)" "has_at (rf_data f) (off + 5) (be_bytes24 w)"
    and "unat w < 2 ^ 24" "length (rf_data f) < usize_modulus"
  shows "ref_entry f t n = Some (i, w)"
proof -
  have "off + 8 < usize_modulus" using has_at_bound [OF assms(3)] assms(5) by simp
  with be16_at [OF assms(2,5)] be24_at [OF assms(3,4,5)] show ?thesis
    unfolding assms(1) by (simp add: ref_entry_def checked_add_def checked_mul_def)
qed

lemma resource_at_at:
  assumes "off = unat (rf_first_res_off f) + unat data_off"
    and "has_at (rf_data f) off (be_bytes32 (of_nat (length d)) @ d)"
    and "length d < 2 ^ 32" "length (rf_data f) < usize_modulus"
  shows "resource_at f resid data_off = Some \<lparr>rs_resid = resid, rs_data = d\<rparr>"
proof -
  from assms(2) have at: "has_at (rf_data f) off (be_bytes32 (of_nat (length d)))"
    "has_at (rf_data f) (off + 4) d" by (simp_all add: has_at_append)
  have "off + 4 + length d < usize_modulus" using has_at_bound [OF at(2)] assms(4) by simp
  with be32_at [OF at(1) assms(4)] has_at_get_range [OF at(2)] unat_of_nat_small(1) [OF assms(3)]
  show ?thesis
    unfolding assms(1) by (simp add: resource_at_def checked_add_def)
qed

lemma nth_res_fork_of:
  assumes ok: "fork_ok ts" and i: "i < length ts" "ts ! i = (t, rs)" and k: "k < length rs"
  defines "off \<equiv> length (enc_data (take (refs_before ts i + k) (all_resources ts)))"
  shows "ref_entry (fork_of ts) (type_of ts i) k = Some (fst (rs ! k), of_nat off)"
    and "resource_at (fork_of ts) (fst (rs ! k)) (of_nat off) =
      Some \<lparr>rs_resid = fst (rs ! k), rs_data = snd (rs ! k)\<rparr>"
proof -
  note bd = fork_ok_bounds [OF ok] and ix = all_resources_nth [OF i k]
  let ?d = "length (enc_data (all_resources ts))" and ?n = "refs_before ts i + k"
  have f: "rf_data (fork_of ts) = encode_fork ts" "unat (rf_first_res_off (fork_of ts)) = 16"
    "unat (rf_res_type_list_off (fork_of ts)) = 28"
    "rf_res_map_off (fork_of ts) = of_nat (16 + ?d)" by (simp_all add: fork_of_def)
  obtain r d where rk: "rs ! k = (r, d)" by (cases "rs ! k")
  have split: "enc_data (all_resources ts) = enc_data (take ?n (all_resources ts)) @
      (be_bytes32 (of_nat (length d)) @ d) @ enc_data (drop (Suc ?n) (all_resources ts))"
    using id_take_nth_drop [OF ix(1)] ix(2) rk by (metis append_assoc enc_data_simps(2,3))
  then have "off + 4 + length d \<le> ?d" by (simp add: off_def)
  then have o: "off < 2 ^ 24" "length d < 2 ^ 32" "off < 2 ^ 32" using bd by simp_all
  have mo: "unat (rf_res_map_off (fork_of ts)) = 16 + ?d"
    unfolding f using bd by (intro unat_of_nat_small) simp
  have ro: "unat (te_ref_list_off (type_of ts i)) = 2 + 8 * length ts + 12 * refs_before ts i"
    unfolding type_of_def TypeEntry.select_convs using bd ix(1) by (intro unat_of_nat_small) simp
  note at = enc_refs_nth [OF encode_fork_at(9) ix(1) ix(2) [unfolded rk]]
  show "ref_entry (fork_of ts) (type_of ts i) k = Some (fst (rs ! k), of_nat off)"
    unfolding rk fst_conv
  proof (rule ref_entry_at)
    show "16 + ?d + 30 + 8 * length ts + 12 * ?n = unat (rf_res_map_off (fork_of ts)) +
        unat (rf_res_type_list_off (fork_of ts)) + unat (te_ref_list_off (type_of ts i)) + k * 12"
      unfolding mo ro f(3) by simp
  qed (use at bd(1) o unat_of_nat_small(1) [OF o(3)] in \<open>simp_all add: f off_def\<close>)
  show "resource_at (fork_of ts) (fst (rs ! k)) (of_nat off) =
      Some \<lparr>rs_resid = fst (rs ! k), rs_data = snd (rs ! k)\<rparr>"
    unfolding rk fst_conv snd_conv
    using enc_data_nth [OF encode_fork_at(5) ix(1) ix(2) [unfolded rk]] bd(1) o(2)
    by (intro resource_at_at [of "16 + off"]) (simp_all add: f off_def unat_of_nat_small(1) [OF o(3), unfolded off_def])
qed

lemma res_of_id_fork_of:
  assumes ok: "fork_ok ts" and i: "i < length ts" "ts ! i = (t, rs)" and k: "k < length rs"
  shows "scan_ids (fork_of ts) (type_of ts i) (fst (rs ! k)) [0..<length rs] =
    Some \<lparr>rs_resid = fst (rs ! k), rs_data = snd (rs ! k)\<rparr>"
proof -
  have "distinct (map fst rs)" using ok i by (auto simp: fork_ok_def list_all_length)
  then have "fst (rs ! j) \<noteq> fst (rs ! k)" if "j < k" for j
    using nth_eq_iff_index_eq [of "map fst rs" j k] that k by simp
  then have "\<exists>rid off. ref_entry (fork_of ts) (type_of ts i) j = Some (rid, off) \<and> rid \<noteq> fst (rs ! k)"
    if "j < k" for j
    using nth_res_fork_of(1) [OF ok i, of j] that k by simp
  then show ?thesis
    unfolding scan_ids_Some
    using k nth_res_fork_of [OF ok i k] by (intro exI [of _ k]) auto
qed

text \<open>C12: the reader inverts the format: a fork that lists resources by type is parsed, the types are
  counted as listed, the \<open>n\<close>-th resource of a type is the \<open>n\<close>-th one listed, and a search by id finds
  the resource with that id.\<close>

theorem fork_roundtrip:
  assumes ok: "fork_ok ts" and i: "i < length ts" "ts ! i = (t, rs)" and k: "k < length rs"
  shows "\<exists>f. parse (encode_fork ts) = Some f \<and> num_res_of_type f t = of_nat (length rs) \<and>
    nth_res_of_type f t (of_nat k) = Some \<lparr>rs_resid = fst (rs ! k), rs_data = snd (rs ! k)\<rparr> \<and>
    res_of_id f t (fst (rs ! k)) = Some \<lparr>rs_resid = fst (rs ! k), rs_data = snd (rs ! k)\<rparr>"
proof -
  have "length rs < 2 ^ 16"
    using all_resources_nth(3) [OF i k] fork_ok_bounds(6) [OF ok] by simp
  then have u: "unat (of_nat (length rs) :: u32) = length rs" "unat (of_nat k :: u32) = k"
    using k by (simp_all add: unat_of_nat_small)
  then have "\<not> (of_nat (length rs) :: u32) \<le> of_nat k" using k by (simp add: word_le_nat_alt)
  moreover have "te_count (type_of ts i) = of_nat (length rs)" using i by (simp add: type_of_def)
  ultimately show ?thesis
    using parse_encoded [OF ok] type_entry_fork_of [OF ok i] nth_res_fork_of [OF ok i k]
      res_of_id_fork_of [OF ok i k] u
    by (simp add: num_res_of_type_def nth_res_of_type_def res_of_id_def)
qed

definition sample_fork :: fork_contents where
  "sample_fork = [(0x6369636E, [(128, [1, 2, 3]), (129, [])]), (0x49434F4E, [(128, [7])])]"

lemma sample_fork_ok: "fork_ok sample_fork"
  by (simp add: fork_ok_def sample_fork_def all_resources_def enc_data_def)

theorem fork_roundtrip_witness:
  "\<exists>f. parse (encode_fork sample_fork) = Some f \<and> num_res_of_type f 0x6369636E = 2 \<and>
    nth_res_of_type f 0x6369636E 1 = Some \<lparr>rs_resid = 129, rs_data = []\<rparr> \<and>
    res_of_id f 0x6369636E 129 = Some \<lparr>rs_resid = 129, rs_data = []\<rparr>"
  using fork_roundtrip [OF sample_fork_ok, of 0 "0x6369636E" "[(128, [1, 2, 3]), (129, [])]" 1]
  by (simp add: sample_fork_def)

lemma sample_fork_nth:
  "nth_res_of_type (fork_of sample_fork) 0x6369636E 1 = Some \<lparr>rs_resid = 129, rs_data = []\<rparr>"
  "res_of_id (fork_of sample_fork) 0x6369636E 129 = Some \<lparr>rs_resid = 129, rs_data = []\<rparr>"
  "type_entry (fork_of sample_fork) 0x6369636E = Some (type_of sample_fork 0)"
proof -
  let ?rs = "[(128, [1, 2, 3]), (129, [])] :: (i16 \<times> bytes) list"
  have i: "0 < length sample_fork" "sample_fork ! 0 = (0x6369636E, ?rs)" "1 < length ?rs"
    by (simp_all add: sample_fork_def)
  show t: "type_entry (fork_of sample_fork) 0x6369636E = Some (type_of sample_fork 0)"
    by (rule type_entry_fork_of [OF sample_fork_ok i(1,2)])
  have "te_count (type_of sample_fork 0) = 2" by (simp add: type_of_def sample_fork_def)
  moreover have "\<not> (2 :: u32) \<le> 1" by (simp add: word_le_nat_alt)
  moreover note t nth_res_fork_of [OF sample_fork_ok i] res_of_id_fork_of [OF sample_fork_ok i]
  ultimately show "nth_res_of_type (fork_of sample_fork) 0x6369636E 1 = Some \<lparr>rs_resid = 129, rs_data = []\<rparr>"
    "res_of_id (fork_of sample_fork) 0x6369636E 129 = Some \<lparr>rs_resid = 129, rs_data = []\<rparr>"
    by (simp_all add: nth_res_of_type_def res_of_id_def upt_rec)
qed

theorem nth_res_in_bounds_witness: "1 < num_res_of_type (fork_of sample_fork) 0x6369636E"
  using nth_res_in_bounds [OF sample_fork_nth(1)] by simp

theorem res_of_id_first_witness:
  "\<exists>n < unat (te_count (type_of sample_fork 0)).
     nth_res_of_type (fork_of sample_fork) 0x6369636E (of_nat n) = Some \<lparr>rs_resid = 129, rs_data = []\<rparr>"
  using res_of_id_first [OF sample_fork_nth(3), of 129] sample_fork_nth(2) by blast

end
