(* ===== verification/Cicn_Palette.thy ===== *)
theory Cicn_Palette
  imports Hx_Prelude
begin

text \<open>
  The default Macintosh palettes of \<open>hxmacres/src/cicn/palette.rs\<close>, one per pixel depth, in the
  16-bit-per-channel form of the source.
\<close>

type_synonym rgb16 = "u16 \<times> u16 \<times> u16"

definition RGB_8 :: "rgb16 list" where
  "RGB_8 =
    [(0xFF00, 0xFF00, 0xFF00), (0xFF00, 0xFE00, 0xCB00), (0xFF00, 0xFE00, 0x9A00),
     (0xFF00, 0xFE00, 0x6600), (0xFF00, 0xFE00, 0x3300), (0xFE00, 0xFE00, 0x0000),
     (0xFF00, 0xCB00, 0xFE00), (0xFF00, 0xCB00, 0xCB00), (0xFF00, 0xCC00, 0x9A00),
     (0xFF00, 0xCC00, 0x6600), (0xFF00, 0xCC00, 0x3300), (0xFE00, 0xCB00, 0x0000),
     (0xFF00, 0x9A00, 0xFE00), (0xFF00, 0x9A00, 0xCC00), (0xFF00, 0x9A00, 0x9A00),
     (0xFF00, 0x9900, 0x6600), (0xFF00, 0x9900, 0x3300), (0xFE00, 0x9800, 0x0000),
     (0xFF00, 0x6600, 0xFE00), (0xFF00, 0x6600, 0xCC00), (0xFF00, 0x6600, 0x9900),
     (0xFF00, 0x6600, 0x6600), (0xFF00, 0x6600, 0x3300), (0xFE00, 0x6500, 0x0000),
     (0xFF00, 0x3300, 0xFE00), (0xFF00, 0x3300, 0xCC00), (0xFF00, 0x3300, 0x9900),
     (0xFF00, 0x3300, 0x6600), (0xFF00, 0x3300, 0x3300), (0xFE00, 0x3200, 0x0000),
     (0xFE00, 0x0000, 0xFE00), (0xFE00, 0x0000, 0xCB00), (0xFE00, 0x0000, 0x9800),
     (0xFE00, 0x0000, 0x6500), (0xFE00, 0x0000, 0x3200), (0xFE00, 0x0000, 0x0000),
     (0xCB00, 0xFF00, 0xFF00), (0xCB00, 0xFF00, 0xCB00), (0xCC00, 0xFF00, 0x9A00),
     (0xCC00, 0xFF00, 0x6600), (0xCC00, 0xFF00, 0x3300), (0xCB00, 0xFE00, 0x0000),
     (0xCB00, 0xCB00, 0xFF00), (0xCC00, 0xCC00, 0xCC00), (0xCC00, 0xCC00, 0x9900),
     (0xCC00, 0xCC00, 0x6600), (0xCB00, 0xCB00, 0x3200), (0xCD00, 0xCD00, 0x0000),
     (0xCC00, 0x9A00, 0xFF00), (0xCC00, 0x9900, 0xCC00), (0xCC00, 0x9900, 0x9900),
     (0xCC00, 0x9900, 0x6600), (0xCB00, 0x9800, 0x3200), (0xCD00, 0x9A00, 0x0000),
     (0xCC00, 0x6600, 0xFF00), (0xCC00, 0x6600, 0xCC00), (0xCC00, 0x6600, 0x9900),
     (0xCC00, 0x6600, 0x6600), (0xCB00, 0x6500, 0x3200), (0xCD00, 0x6600, 0x0000),
     (0xCC00, 0x3300, 0xFF00), (0xCB00, 0x3200, 0xCB00), (0xCB00, 0x3200, 0x9800),
     (0xCB00, 0x3200, 0x6500), (0xCB00, 0x3200, 0x3200), (0xCD00, 0x3300, 0x0000),
     (0xCB00, 0x0000, 0xFE00), (0xCD00, 0x0000, 0xCD00), (0xCD00, 0x0000, 0x9A00),
     (0xCD00, 0x0000, 0x6600), (0xCD00, 0x0000, 0x3300), (0xCD00, 0x0000, 0x0000),
     (0x9A00, 0xFF00, 0xFF00), (0x9A00, 0xFF00, 0xCC00), (0x9A00, 0xFF00, 0x9A00),
     (0x9900, 0xFF00, 0x6600), (0x9900, 0xFF00, 0x3300), (0x9900, 0xFE00, 0x0000),
     (0x9A00, 0xCC00, 0xFF00), (0x9900, 0xCC00, 0xCC00), (0x0000, 0x9800, 0x6500),
     (0x9900, 0xCC00, 0x6600), (0x9900, 0xCB00, 0x3200), (0x9A00, 0xCD00, 0x0000),
     (0x9A00, 0x9A00, 0xFF00), (0x9900, 0x9900, 0xCC00), (0x9900, 0x9900, 0x9900),
     (0x9800, 0x9800, 0x6500), (0x9A00, 0x9A00, 0x3300), (0x9800, 0x9800, 0x0000),
     (0x9900, 0x6600, 0xFF00), (0x9900, 0x6600, 0xCC00), (0x9800, 0x6500, 0x9800),
     (0x9800, 0x6500, 0x6500), (0x9A00, 0x6600, 0x3300), (0x9800, 0x6500, 0x0000),
     (0x9900, 0x3300, 0xFF00), (0x9800, 0x3200, 0xCB00), (0x9A00, 0x3300, 0x9A00),
     (0x9A00, 0x3300, 0x6600), (0x9A00, 0x3300, 0x3300), (0x9800, 0x3200, 0x0000),
     (0x9800, 0x0000, 0xFE00), (0x9A00, 0x0000, 0xCD00), (0x9800, 0x0000, 0x9800),
     (0x9800, 0x0000, 0x6500), (0x9800, 0x0000, 0x3200), (0x9800, 0x0000, 0x0000),
     (0x6600, 0xFF00, 0xFF00), (0x6600, 0xFF00, 0xCC00), (0x6600, 0xFF00, 0x9900),
     (0x6600, 0xFF00, 0x6600), (0x6600, 0xFF00, 0x3300), (0x6600, 0xFE00, 0x0000),
     (0x6600, 0xCC00, 0xFF00), (0x6600, 0xCC00, 0xCC00), (0x6600, 0xCC00, 0x9900),
     (0x6600, 0xCC00, 0x6600), (0x6600, 0xCB00, 0x3200), (0x6600, 0xCD00, 0x0000),
     (0x6600, 0x9900, 0xFF00), (0x6600, 0x9900, 0xCC00), (0x6500, 0x9800, 0x9800),
     (0x6500, 0x9800, 0x6500), (0x6600, 0x9A00, 0x3300), (0x6500, 0x9800, 0x0000),
     (0x6600, 0x6600, 0xFF00), (0x6600, 0x6600, 0xCC00), (0x6500, 0x6500, 0x9800),
     (0x6600, 0x6600, 0x6600), (0x6500, 0x6500, 0x3200), (0x6600, 0x6600, 0x0000),
     (0x6600, 0x3300, 0xFF00), (0x6500, 0x3200, 0xCB00), (0x6600, 0x3300, 0x9A00),
     (0x6500, 0x3200, 0x6500), (0x6500, 0x3200, 0x3200), (0x6600, 0x3300, 0x0000),
     (0x6500, 0x0000, 0xFE00), (0x6600, 0x0000, 0xCD00), (0x6500, 0x0000, 0x9800),
     (0x6600, 0x0000, 0x6600), (0x6600, 0x0000, 0x3300), (0x6600, 0x0000, 0x0000),
     (0x3300, 0xFF00, 0xFF00), (0x3300, 0xFF00, 0xCC00), (0x3300, 0xFF00, 0x9900),
     (0x3300, 0xFF00, 0x6600), (0x3300, 0xFF00, 0x3300), (0x3300, 0xFE00, 0x0000),
     (0x3300, 0xCC00, 0xFF00), (0x3200, 0xCB00, 0xCB00), (0x3200, 0xCB00, 0x9800),
     (0x3200, 0xCB00, 0x6500), (0x3300, 0xCB00, 0x3200), (0x3300, 0xCD00, 0x0000),
     (0x3300, 0x9900, 0xFF00), (0x3200, 0x9900, 0xCB00), (0x3300, 0x9A00, 0x9A00),
     (0x3300, 0x9A00, 0x6600), (0x3300, 0x9A00, 0x3300), (0x3200, 0x9800, 0x0000),
     (0x3300, 0x6600, 0xFF00), (0x3200, 0x6600, 0xCB00), (0x3300, 0x6600, 0x9A00),
     (0x3200, 0x6500, 0x6500), (0x3200, 0x6500, 0x3200), (0x3300, 0x6600, 0x0000),
     (0x3300, 0x3300, 0xFF00), (0x3200, 0x3300, 0xCB00), (0x3300, 0x3300, 0x9A00),
     (0x3200, 0x3200, 0x6500), (0x3300, 0x3300, 0x3300), (0x3300, 0x3300, 0x0000),
     (0x3200, 0x0000, 0xFE00), (0x3300, 0x0000, 0xCD00), (0x3200, 0x0000, 0x9800),
     (0x3300, 0x0000, 0x6600), (0x3300, 0x0000, 0x3300), (0x3300, 0x0000, 0x0000),
     (0x0000, 0xFE00, 0xFE00), (0x0000, 0xFE00, 0xCB00), (0x0000, 0xFE00, 0x9800),
     (0x0000, 0xFE00, 0x6500), (0x0000, 0xFE00, 0x3200), (0x0000, 0xFE00, 0x0000),
     (0x0000, 0xCB00, 0xFE00), (0x0000, 0xCD00, 0xCD00), (0x0000, 0xCD00, 0x9A00),
     (0x0000, 0xCD00, 0x6600), (0x0000, 0xCD00, 0x3300), (0x0000, 0xCD00, 0x0000),
     (0x0000, 0x9800, 0xFE00), (0x0000, 0x9A00, 0xCD00), (0x0000, 0x9800, 0x9800),
     (0x0000, 0x9800, 0x6500), (0x0000, 0x9800, 0x3200), (0x0000, 0x9800, 0x0000),
     (0x0000, 0x6600, 0xFE00), (0x0000, 0x6600, 0xCD00), (0x0000, 0x6500, 0x9800),
     (0x0000, 0x6600, 0x6600), (0x0000, 0x6600, 0x3300), (0x0000, 0x6600, 0x0000),
     (0x0000, 0x3300, 0xFE00), (0x0000, 0x3300, 0xCD00), (0x0000, 0x3200, 0x9800),
     (0x0000, 0x3300, 0x6600), (0x0000, 0x3300, 0x3300), (0x0000, 0x3300, 0x0000),
     (0x0000, 0x0000, 0xFE00), (0x0000, 0x0000, 0xCD00), (0x0000, 0x0000, 0x9800),
     (0x0000, 0x0000, 0x6600), (0x0000, 0x0000, 0x3300), (0xEF00, 0x0000, 0x0000),
     (0xDC00, 0x0000, 0x0000), (0xBA00, 0x0000, 0x0000), (0xAB00, 0x0000, 0x0000),
     (0x8900, 0x0000, 0x0000), (0x7700, 0x0000, 0x0000), (0x5500, 0x0000, 0x0000),
     (0x4400, 0x0000, 0x0000), (0x2200, 0x0000, 0x0000), (0x1100, 0x0000, 0x0000),
     (0x0000, 0xEF00, 0x0000), (0x0000, 0xDC00, 0x0000), (0x0000, 0xBA00, 0x0000),
     (0x0000, 0xAB00, 0x0000), (0x0000, 0x8900, 0x0000), (0x0000, 0x7700, 0x0000),
     (0x0000, 0x5500, 0x0000), (0x0000, 0x4400, 0x0000), (0x0000, 0x2200, 0x0000),
     (0x0000, 0x1100, 0x0000), (0x0000, 0x0000, 0xEF00), (0x0000, 0x0000, 0xDC00),
     (0x0000, 0x0000, 0xBA00), (0x0000, 0x0000, 0xAB00), (0x0000, 0x0000, 0x8900),
     (0x0000, 0x0000, 0x7700), (0x0000, 0x0000, 0x5500), (0x0000, 0x0000, 0x4400),
     (0x0000, 0x0000, 0x2200), (0x0000, 0x0000, 0x1100), (0xEE00, 0xEE00, 0xEE00),
     (0xDD00, 0xDD00, 0xDD00), (0xBB00, 0xBB00, 0xBB00), (0xAA00, 0xAA00, 0xAA00),
     (0x8800, 0x8800, 0x8800), (0x7700, 0x7700, 0x7700), (0x5500, 0x5500, 0x5500),
     (0x4400, 0x4400, 0x4400), (0x2200, 0x2200, 0x2200), (0x1100, 0x1100, 0x1100),
     (0x0000, 0x0000, 0x0000)]"

definition RGB_4 :: "rgb16 list" where
  "RGB_4 =
    [(0xFFFF, 0xFFFF, 0xFFFF), (0xFFFF, 0xFFFF, 0x0000), (0xFFFF, 0xA0A0, 0x7A7A),
     (0xFFFF, 0x0000, 0x0000), (0xFFFF, 0x1414, 0x9393), (0x8A8A, 0x2B2B, 0xE2E2),
     (0x0000, 0x0000, 0x8080), (0x6464, 0x9595, 0xEDED), (0x2222, 0x8B8B, 0x2222),
     (0x0000, 0x6464, 0x0000), (0x8B8B, 0x4545, 0x1313), (0xD2D2, 0xB4B4, 0x8C8C),
     (0xD3D3, 0xD3D3, 0xD3D3), (0xBEBE, 0xBEBE, 0xBEBE), (0x6969, 0x6969, 0x6969),
     (0x0000, 0x0000, 0x0000)]"

definition RGB_2 :: "rgb16 list" where
  "RGB_2 =
    [(0xFFFF, 0xFFFF, 0xFFFF), (0xFFFF, 0xFFFF, 0x0000), (0x0000, 0xFFFF, 0xFFFF),
     (0x0000, 0x0000, 0x0000)]"

definition RGB_1 :: "rgb16 list" where
  "RGB_1 =
    [(0xFFFF, 0xFFFF, 0xFFFF), (0x0000, 0x0000, 0x0000)]"

lemma palette_lengths:
  "length RGB_1 = 2" "length RGB_2 = 4" "length RGB_4 = 16" "length RGB_8 = 256"
  by (simp_all add: RGB_1_def RGB_2_def RGB_4_def RGB_8_def)

end
