(* ===== verification/Cicn.thy ===== *)
theory Cicn
  imports Cicn_Palette
begin

text \<open>
  The colour-icon decoder of crate \<open>hxmacres\<close> (\<open>cicn.rs\<close>): the offsets into the resource, the palette
  with its overlay, the decoding loop with its bounds checks, and the halo.

  The two nested loops fill the pixel buffer from its first byte to its last, four bytes per pixel;
  \<open>collect\<close> is such a loop whose body may return early from the function.  In \<open>add_halo\<close> a buffer
  shorter than \<open>width * height * 4\<close> makes the source panic; \<open>decode\<close> builds it in full.
\<close>

record Rgba =
  width :: u32
  height :: u32
  pixels :: bytes

definition PM_ROWBYTES :: nat where "PM_ROWBYTES = 4"
definition PM_BOUNDS_TOP :: nat where "PM_BOUNDS_TOP = 6"
definition PM_BOUNDS_LEFT :: nat where "PM_BOUNDS_LEFT = 8"
definition PM_BOUNDS_BOTTOM :: nat where "PM_BOUNDS_BOTTOM = 10"
definition PM_BOUNDS_RIGHT :: nat where "PM_BOUNDS_RIGHT = 12"
definition PM_PIXELSIZE :: nat where "PM_PIXELSIZE = 32"
definition MBM :: nat where "MBM = 50"
definition BM :: nat where "BM = 64"
definition BITMAP_ROWBYTES :: nat where "BITMAP_ROWBYTES = 4"
definition BITMAP_BOUNDS_TOP :: nat where "BITMAP_BOUNDS_TOP = 6"
definition BITMAP_BOUNDS_BOTTOM :: nat where "BITMAP_BOUNDS_BOTTOM = 10"
definition BITMAP_BOUNDS_RIGHT :: nat where "BITMAP_BOUNDS_RIGHT = 12"
definition MASK_DATA :: nat where "MASK_DATA = 82"

lemmas offset_defs = PM_ROWBYTES_def PM_BOUNDS_TOP_def PM_BOUNDS_LEFT_def PM_BOUNDS_BOTTOM_def
  PM_BOUNDS_RIGHT_def PM_PIXELSIZE_def MBM_def BM_def BITMAP_ROWBYTES_def BITMAP_BOUNDS_TOP_def
  BITMAP_BOUNDS_BOTTOM_def BITMAP_BOUNDS_RIGHT_def MASK_DATA_def

definition read16 :: "bytes \<Rightarrow> nat \<Rightarrow> u16 option" where
  "read16 b off = map_option (\<lambda>s. from_be16 (s ! 0) (s ! 1)) (get_range b off (off + 2))"

definition rgb_pack :: "rgb16 \<Rightarrow> u32" where
  "rgb_pack c = (case c of (r, g, b) \<Rightarrow>
     push_bit 16 (ucast (drop_bit 8 r)) OR push_bit 8 (ucast (drop_bit 8 g)) OR ucast (drop_bit 8 b))"

section \<open>The palette\<close>

definition default_palette :: "nat \<Rightarrow> rgb16 list option" where
  "default_palette bpp =
     (if bpp = 8 then Some RGB_8 else if bpp = 4 then Some RGB_4
      else if bpp = 2 then Some RGB_2 else if bpp = 1 then Some RGB_1 else None)"

text \<open>The overlay stops at the first entry that is not wholly inside the resource.\<close>

fun overlay :: "bytes \<Rightarrow> nat \<Rightarrow> nat \<Rightarrow> u32 list \<Rightarrow> nat list \<Rightarrow> u32 list" where
  "overlay data ct_off n out [] = out"
| "overlay data ct_off n out (i # is) =
     (let e = ct_off + 8 + i * 8
      in case (read16 data e, read16 data (e + 2), read16 data (e + 4), read16 data (e + 6)) of
           (Some value, Some r, Some g, Some b) \<Rightarrow>
             overlay data ct_off n (out[unat (value AND of_nat (n - 1)) := rgb_pack (r, g, b)]) is
         | _ \<Rightarrow> out)"

definition build_palette :: "bytes \<Rightarrow> nat \<Rightarrow> nat \<Rightarrow> u32 list" where
  "build_palette data ct_off bpp =
     (case default_palette bpp of
        None \<Rightarrow> replicate 256 0
      | Some defpal \<Rightarrow>
          let n = 2 ^ bpp;
              out = map rgb_pack (take n defpal) @ replicate (256 - n) 0
          in case read16 data (ct_off + 6) of
               None \<Rightarrow> out
             | Some ctsize \<Rightarrow> overlay data ct_off n out [0..<unat ctsize + 1])"

section \<open>The halo\<close>

definition px :: "bytes \<Rightarrow> nat \<Rightarrow> bytes" where
  "px ps i = take 4 (drop (i * 4) ps)"

definition inset :: "Rgba \<Rightarrow> bytes" where
  "inset src =
     (let sw = unat (width src); sh = unat (height src)
      in concat (map (\<lambda>y. concat (map (\<lambda>x.
           if 1 \<le> x \<and> x \<le> sw \<and> 1 \<le> y \<and> y \<le> sh then px (pixels src) ((y - 1) * sw + (x - 1))
           else [0, 0, 0, 0]) [0..<sw + 2])) [0..<sh + 2]))"

definition halo_at :: "nat \<Rightarrow> nat \<Rightarrow> u8 list \<Rightarrow> nat \<Rightarrow> nat \<Rightarrow> bool" where
  "halo_at dw dh alpha x y \<longleftrightarrow>
     alpha ! (y * dw + x) = 0 \<and>
     (x > 0 \<and> alpha ! (y * dw + x - 1) \<noteq> 0 \<or> x < dw - 1 \<and> alpha ! (y * dw + x + 1) \<noteq> 0 \<or>
      y > 0 \<and> alpha ! ((y - 1) * dw + x) \<noteq> 0 \<or> y < dh - 1 \<and> alpha ! ((y + 1) * dw + x) \<noteq> 0)"

definition add_halo :: "Rgba \<Rightarrow> Rgba" where
  "add_halo src =
     (let dw = unat (width src) + 2; dh = unat (height src) + 2; ps = inset src;
          alpha = map (\<lambda>i. ps ! (i * 4 + 3)) [0..<dw * dh]
      in \<lparr>width = of_nat dw, height = of_nat dh,
          pixels = concat (map (\<lambda>y. concat (map (\<lambda>x.
            if halo_at dw dh alpha x y then [0x80, 0x80, 0x80, 0xA0] else px ps (y * dw + x))
            [0..<dw])) [0..<dh])\<rparr>)"

section \<open>The decoder\<close>

fun collect :: "('a \<Rightarrow> 'b list option) \<Rightarrow> 'a list \<Rightarrow> 'b list option" where
  "collect f [] = Some []"
| "collect f (x # xs) = Option.bind (f x) (\<lambda>ys. map_option ((@) ys) (collect f xs))"

definition pixel_index :: "bytes \<Rightarrow> nat \<Rightarrow> nat \<Rightarrow> nat \<Rightarrow> u8 option" where
  "pixel_index rsrc bpp id_row x =
     (if bpp = 1 then map_option (\<lambda>b. drop_bit (7 - x mod 8) b AND 0x01) (get_at rsrc (id_row + x div 8))
      else if bpp = 2 then map_option (\<lambda>b. drop_bit ((3 - x mod 4) * 2) b AND 0x03) (get_at rsrc (id_row + x div 4))
      else if bpp = 4 then map_option (\<lambda>b. drop_bit ((1 - x mod 2) * 4) b AND 0x0F) (get_at rsrc (id_row + x div 2))
      else get_at rsrc (id_row + x))"

definition pixel_alpha :: "bytes \<Rightarrow> bool \<Rightarrow> nat \<Rightarrow> nat \<Rightarrow> u8" where
  "pixel_alpha rsrc have_mask mp_row x =
     (if have_mask then
        (case get_at rsrc (mp_row + x div 8) of
           Some mb \<Rightarrow> if drop_bit (7 - x mod 8) mb AND 1 \<noteq> 0 then 0xFF else 0
         | None \<Rightarrow> 0xFF)
      else 0xFF)"

definition decode_pixel :: "bytes \<Rightarrow> nat \<Rightarrow> u32 list \<Rightarrow> bool \<Rightarrow> nat \<Rightarrow> nat \<Rightarrow> nat \<Rightarrow> bytes option" where
  "decode_pixel rsrc bpp palette have_mask id_row mp_row x =
     map_option (\<lambda>idx.
         let rgb = palette ! unat idx
         in [ucast (drop_bit 16 rgb), ucast (drop_bit 8 rgb), ucast rgb,
             pixel_alpha rsrc have_mask mp_row x])
       (pixel_index rsrc bpp id_row x)"

definition decode_rows ::
  "bytes \<Rightarrow> nat \<Rightarrow> u32 list \<Rightarrow> bool \<Rightarrow> nat \<Rightarrow> nat \<Rightarrow> nat \<Rightarrow> nat \<Rightarrow> nat \<Rightarrow> bytes option" where
  "decode_rows rsrc bpp palette have_mask pix_off row_bytes mbm_rb w h =
     collect (\<lambda>y. collect (decode_pixel rsrc bpp palette have_mask
       (pix_off + row_bytes * y) (MASK_DATA + mbm_rb * y)) [0..<w]) [0..<h]"

definition decode :: "bytes \<Rightarrow> Rgba option" where
  "decode rsrc =
     Option.bind (map_option unat (read16 rsrc PM_PIXELSIZE)) (\<lambda>bpp.
     if bpp \<notin> {1, 2, 4, 8} then None else
     Option.bind (read16 rsrc PM_BOUNDS_TOP) (\<lambda>b_top.
     Option.bind (read16 rsrc PM_BOUNDS_LEFT) (\<lambda>b_left.
     Option.bind (read16 rsrc PM_BOUNDS_BOTTOM) (\<lambda>b_bottom.
     Option.bind (read16 rsrc PM_BOUNDS_RIGHT) (\<lambda>b_right.
     Option.bind (read16 rsrc (MBM + BITMAP_BOUNDS_TOP)) (\<lambda>mb_top.
     Option.bind (read16 rsrc (MBM + BITMAP_BOUNDS_BOTTOM)) (\<lambda>mb_bottom.
     Option.bind (read16 rsrc (MBM + BITMAP_BOUNDS_RIGHT)) (\<lambda>mb_right.
     Option.bind (read16 rsrc (BM + BITMAP_BOUNDS_TOP)) (\<lambda>bb_top.
     Option.bind (read16 rsrc (BM + BITMAP_BOUNDS_BOTTOM)) (\<lambda>bb_bottom.
     if b_right \<le> b_left \<or> b_bottom \<le> b_top \<or> mb_bottom < mb_top \<or> bb_bottom < bb_top then None else
     let w = unat (b_right - b_left); h = unat (b_bottom - b_top);
         mbm_h = unat (mb_bottom - mb_top); bm_h = unat (bb_bottom - bb_top)
     in if w > 4096 \<or> h > 4096 then None else
     Option.bind (map_option unat (read16 rsrc (MBM + BITMAP_ROWBYTES))) (\<lambda>mbm_rb.
     Option.bind (map_option unat (read16 rsrc (BM + BITMAP_ROWBYTES))) (\<lambda>bm_rb.
     Option.bind (map_option (\<lambda>v. unat (v AND 0x7FFF)) (read16 rsrc PM_ROWBYTES)) (\<lambda>row_bytes.
     let ct_off = MASK_DATA + mbm_rb * mbm_h + bm_rb * bm_h
     in if length rsrc < row_bytes * h then None else
     let pix_off = length rsrc - row_bytes * h;
         have_mask = (mb_right \<noteq> 0 \<and> mb_bottom \<noteq> 0);
         palette = build_palette rsrc ct_off bpp
     in map_option (\<lambda>ps. add_halo \<lparr>width = of_nat w, height = of_nat h, pixels = ps\<rparr>)
          (decode_rows rsrc bpp palette have_mask pix_off row_bytes mbm_rb w h))))))))))))))"

end
