(* ===== verification/Cicn_Props.thy ===== *)
theory Cicn_Props
  imports Cicn
begin

text \<open>
  Correctness of the icon decoder: a decoded image has the buffer its dimensions promise, no pixel
  indexes past the palette, and the halo is exactly the transparent pixels that touch the icon.
  The buffers are read through \<open>px\<close>; \<open>grid\<close> relates the nested loops to the pixel at each position.
\<close>

section \<open>Pixel grids\<close>

definition grid :: "nat \<Rightarrow> nat \<Rightarrow> (nat \<Rightarrow> nat \<Rightarrow> bytes) \<Rightarrow> bytes" where
  "grid w h f = concat (map (\<lambda>y. concat (map (\<lambda>x. f x y) [0..<w])) [0..<h])"

lemma grid_flat: "grid w h f = concat (map (\<lambda>i. f (i mod w) (i div w)) [0..<h * w])"
proof (induction h)
  case (Suc h)
  have up: "[0..<Suc h * w] = [0..<h * w] @ map (\<lambda>x. x + h * w) [0..<w]"
    using upt_add_eq_append [of 0 "h * w" w] by (simp add: map_add_upt add.commute)
  have row: "map (\<lambda>i. f (i mod w) (i div w)) (map (\<lambda>x. x + h * w) [0..<w]) = map (\<lambda>x. f x h) [0..<w]"
    by simp
  show ?case
    using Suc unfolding up map_append concat_append row by (simp add: grid_def)
qed (simp add: grid_def)

lemma blocks_length: "(\<And>i. i < n \<Longrightarrow> length (g i) = 4) \<Longrightarrow> length (concat (map g [0..<n])) = n * 4"
  by (induction n) simp_all

lemma blocks_px:
  "(\<And>i. i < n \<Longrightarrow> length (g i) = 4) \<Longrightarrow> i < n \<Longrightarrow> px (concat (map g [0..<n])) i = g i"
proof (induction n)
  case (Suc n)
  have len: "length (concat (map g [0..<n])) = n * 4"
    using Suc.prems(1) by (intro blocks_length) simp
  show ?case
  proof (cases "i = n")
    case True
    with len Suc.prems(1) [of n] show ?thesis by (simp add: px_def)
  next
    case False
    with Suc have i: "i < n" "px (concat (map g [0..<n])) i = g i" by simp_all
    then have "4 \<le> n * 4 - i * 4" by simp
    with i len show ?thesis by (simp add: px_def)
  qed
qed simp

lemma index_less: "x < w \<Longrightarrow> y < h \<Longrightarrow> y * w + x < h * (w :: nat)"
proof -
  assume "x < w" "y < h"
  then have "y * w + x < Suc y * w" by simp
  also have "\<dots> \<le> h * w" using \<open>y < h\<close> by (intro mult_le_mono1) simp
  finally show ?thesis .
qed

lemma grid_length:
  "(\<And>x y. x < w \<Longrightarrow> y < h \<Longrightarrow> length (f x y) = 4) \<Longrightarrow> length (grid w h f) = w * h * 4"
proof -
  assume len: "\<And>x y. x < w \<Longrightarrow> y < h \<Longrightarrow> length (f x y) = 4"
  have "length (f (i mod w) (i div w)) = 4" if "i < h * w" for i
    using that by (intro len) (auto simp: less_mult_imp_div_less intro!: mod_less_divisor gr0I)
  then show ?thesis unfolding grid_flat by (subst blocks_length) simp_all
qed

lemma grid_px:
  assumes len: "\<And>x y. x < w \<Longrightarrow> y < h \<Longrightarrow> length (f x y) = 4" and xy: "x < w" "y < h"
  shows "px (grid w h f) (y * w + x) = f x y"
proof -
  have "length (f (i mod w) (i div w)) = 4" if "i < h * w" for i
    using that by (intro len) (auto simp: less_mult_imp_div_less intro!: mod_less_divisor gr0I)
  then have "px (grid w h f) (y * w + x) = f ((y * w + x) mod w) ((y * w + x) div w)"
    unfolding grid_flat using index_less [OF xy] by (rule blocks_px)
  with xy show ?thesis by simp
qed

lemma px_nth: "k < 4 \<Longrightarrow> i * 4 + 4 \<le> length ps \<Longrightarrow> px ps i ! k = ps ! (i * 4 + k)"
  by (simp add: px_def)

lemma px_length: "i * 4 + 4 \<le> length ps \<Longrightarrow> length (px ps i) = 4"
  by (simp add: px_def)

section \<open>The halo\<close>

definition rgba_ok :: "Rgba \<Rightarrow> bool" where
  "rgba_ok im \<longleftrightarrow> length (pixels im) = unat (width im) * unat (height im) * 4"

text \<open>The pixel of an image in the coordinates of its frame, which is one pixel wider on each side,
  and whether the icon covers it.\<close>

definition framed_px :: "Rgba \<Rightarrow> nat \<Rightarrow> nat \<Rightarrow> bytes" where
  "framed_px src x y =
     (if 1 \<le> x \<and> x \<le> unat (width src) \<and> 1 \<le> y \<and> y \<le> unat (height src)
      then px (pixels src) ((y - 1) * unat (width src) + (x - 1)) else [0, 0, 0, 0])"

definition covered :: "Rgba \<Rightarrow> nat \<Rightarrow> nat \<Rightarrow> bool" where
  "covered src x y \<longleftrightarrow> framed_px src x y ! 3 \<noteq> 0"

definition touches :: "Rgba \<Rightarrow> nat \<Rightarrow> nat \<Rightarrow> bool" where
  "touches src x y \<longleftrightarrow> x > 0 \<and> covered src (x - 1) y \<or> covered src (x + 1) y \<or>
     y > 0 \<and> covered src x (y - 1) \<or> covered src x (y + 1)"

lemma framed_px_length: "rgba_ok src \<Longrightarrow> length (framed_px src x y) = 4"
proof (cases "1 \<le> x \<and> x \<le> unat (width src) \<and> 1 \<le> y \<and> y \<le> unat (height src)")
  case True
  assume ok: "rgba_ok src"
  have "(y - 1) * unat (width src) + (x - 1) < unat (height src) * unat (width src)"
    using True by (intro index_less) auto
  then have "((y - 1) * unat (width src) + (x - 1)) * 4 + 4 \<le> length (pixels src)"
    using ok by (simp add: rgba_ok_def mult.commute)
  with True show ?thesis by (simp add: framed_px_def px_length del: One_nat_def)
qed (auto simp: framed_px_def)

lemma inset_grid: "inset src = grid (unat (width src) + 2) (unat (height src) + 2) (framed_px src)"
  unfolding inset_def grid_def framed_px_def Let_def ..

lemma covered_outside: "x = 0 \<or> y = 0 \<or> unat (width src) < x \<or> unat (height src) < y \<Longrightarrow> \<not> covered src x y"
  by (auto simp: covered_def framed_px_def)

lemma alpha_covered:
  assumes ok: "rgba_ok src" and "x < unat (width src) + 2" "y < unat (height src) + 2"
  defines "dw \<equiv> unat (width src) + 2" and "dh \<equiv> unat (height src) + 2"
  shows "map (\<lambda>i. inset src ! (i * 4 + 3)) [0..<dw * dh] ! (y * dw + x) \<noteq> 0 \<longleftrightarrow> covered src x y"
proof -
  have i: "y * dw + x < dw * dh"
    using index_less [of x dw y dh] assms by (simp add: mult.commute)
  have "length (inset src) = dw * dh * 4"
    unfolding inset_grid dw_def dh_def by (rule grid_length) (rule framed_px_length [OF ok])
  moreover have "px (inset src) (y * dw + x) = framed_px src x y"
    unfolding inset_grid dw_def dh_def
    by (rule grid_px) (use assms framed_px_length [OF ok] in simp_all)
  ultimately show ?thesis
    using i px_nth [of 3 "y * dw + x" "inset src"] by (simp add: covered_def)
qed

lemma halo_at_touches:
  assumes ok: "rgba_ok src" and "x < unat (width src) + 2" "y < unat (height src) + 2"
  defines "dw \<equiv> unat (width src) + 2" and "dh \<equiv> unat (height src) + 2"
  shows "halo_at dw dh (map (\<lambda>i. inset src ! (i * 4 + 3)) [0..<dw * dh]) x y \<longleftrightarrow>
    \<not> covered src x y \<and> touches src x y"
proof -
  let ?a = "map (\<lambda>i. inset src ! (i * 4 + 3)) [0..<dw * dh]"
  have at: "?a ! (y' * dw + x') \<noteq> 0 \<longleftrightarrow> covered src x' y'" if "x' < dw" "y' < dh" for x' y'
    using alpha_covered [OF ok, of x' y'] that by (simp add: dw_def dh_def)
  have "x > 0 \<Longrightarrow> ?a ! (y * dw + x - 1) \<noteq> 0 \<longleftrightarrow> covered src (x - 1) y"
    using at [of "x - 1" y] assms by (simp add: dw_def dh_def)
  moreover have "x < dw - 1 \<Longrightarrow> ?a ! (y * dw + x + 1) \<noteq> 0 \<longleftrightarrow> covered src (x + 1) y"
    using at [of "x + 1" y] assms by (simp add: dw_def dh_def)
  moreover have "?a ! ((y - 1) * dw + x) \<noteq> 0 \<longleftrightarrow> covered src x (y - 1)"
    using at [of x "y - 1"] assms by (simp add: dw_def dh_def)
  moreover have "y < dh - 1 \<Longrightarrow> ?a ! ((y + 1) * dw + x) \<noteq> 0 \<longleftrightarrow> covered src x (y + 1)"
    using at [of x "y + 1"] assms by (simp add: dw_def dh_def)
  moreover have "\<not> x < dw - 1 \<Longrightarrow> \<not> covered src (x + 1) y" "\<not> y < dh - 1 \<Longrightarrow> \<not> covered src x (y + 1)"
    by (rule covered_outside, simp add: dw_def dh_def)+
  ultimately show ?thesis
    using at [of x y] assms(2,3) unfolding halo_at_def touches_def dw_def dh_def by blast
qed

text \<open>C39: the halo is exactly the transparent pixels that touch the icon: every covered pixel keeps its
  colour, every other pixel with a covered neighbour becomes the halo grey, and the rest are
  untouched; halo pixels never seed more halo.\<close>

theorem add_halo_pixels:
  assumes ok: "rgba_ok src" and xy: "x < unat (width src) + 2" "y < unat (height src) + 2"
  shows "px (pixels (add_halo src)) (y * (unat (width src) + 2) + x) =
    (if \<not> covered src x y \<and> touches src x y then [0x80, 0x80, 0x80, 0xA0] else framed_px src x y)"
proof -
  let ?w = "unat (width src) + 2" and ?h = "unat (height src) + 2"
  let ?f = "\<lambda>x y. if halo_at ?w ?h (map (\<lambda>i. inset src ! (i * 4 + 3)) [0..<?w * ?h]) x y
      then [0x80, 0x80, 0x80, 0xA0] else px (inset src) (y * ?w + x)"
  have in_px: "px (inset src) (y * ?w + x) = framed_px src x y" if "x < ?w" "y < ?h" for x y
    unfolding inset_grid by (rule grid_px) (use that framed_px_length [OF ok] in simp_all)
  have "pixels (add_halo src) = grid ?w ?h ?f"
    unfolding add_halo_def grid_def Let_def Rgba.select_convs ..
  moreover have "px (grid ?w ?h ?f) (y * ?w + x) = ?f x y"
    using xy in_px framed_px_length [OF ok] by (intro grid_px) auto
  ultimately show ?thesis
    using in_px [OF xy] halo_at_touches [OF ok xy] by simp
qed

lemma add_halo_ok:
  assumes ok: "rgba_ok src" and "unat (width src) + 2 < 2 ^ 32" "unat (height src) + 2 < 2 ^ 32"
  shows "unat (width (add_halo src)) = unat (width src) + 2"
    and "unat (height (add_halo src)) = unat (height src) + 2"
    and "rgba_ok (add_halo src)"
proof -
  show w: "unat (width (add_halo src)) = unat (width src) + 2"
    and h: "unat (height (add_halo src)) = unat (height src) + 2"
    using assms(2,3) unfolding add_halo_def Let_def Rgba.select_convs
    by (simp_all only: unat_of_nat_small)
  let ?w = "unat (width src) + 2" and ?h = "unat (height src) + 2"
  let ?f = "\<lambda>x y. if halo_at ?w ?h (map (\<lambda>i. inset src ! (i * 4 + 3)) [0..<?w * ?h]) x y
      then [0x80, 0x80, 0x80, 0xA0] else px (inset src) (y * ?w + x)"
  have in_px: "px (inset src) (y * ?w + x) = framed_px src x y" if "x < ?w" "y < ?h" for x y
    unfolding inset_grid by (rule grid_px) (use that framed_px_length [OF ok] in simp_all)
  have "pixels (add_halo src) = grid ?w ?h ?f"
    unfolding add_halo_def grid_def Let_def Rgba.select_convs ..
  moreover have "length (grid ?w ?h ?f) = ?w * ?h * 4"
    using in_px framed_px_length [OF ok] by (intro grid_length) auto
  ultimately show "rgba_ok (add_halo src)"
    by (simp only: rgba_ok_def w h)
qed

section \<open>The decoder\<close>

lemma collect_length:
  "(\<And>x ys. x \<in> set xs \<Longrightarrow> f x = Some ys \<Longrightarrow> length ys = k) \<Longrightarrow> collect f xs = Some r \<Longrightarrow>
   length r = length xs * k"
proof (induction xs arbitrary: r)
  case (Cons x xs)
  then obtain ys zs where "f x = Some ys" "collect f xs = Some zs" "r = ys @ zs"
    by (auto simp: bind_eq_Some_conv)
  moreover from this have "length ys = k" "length zs = length xs * k"
    using Cons.prems(1) [of x ys] Cons.IH [of zs] Cons.prems(1) by auto
  ultimately show ?case by simp
qed simp

lemma decode_pixel_length: "decode_pixel rsrc bpp pal m i p x = Some ys \<Longrightarrow> length ys = 4"
  by (auto simp: decode_pixel_def Let_def)

lemma decode_rows_length:
  assumes "decode_rows rsrc bpp pal hm po rb mr w h = Some ps"
  shows "length ps = h * (w * 4)"
proof -
  have "length r = w * 4"
    if "collect (decode_pixel rsrc bpp pal hm (po + rb * y) (MASK_DATA + mr * y)) [0..<w] = Some r" for y r
    using collect_length [OF _ that, of 4] decode_pixel_length by simp
  with collect_length [OF _ assms [unfolded decode_rows_def], of "w * 4"] show ?thesis by simp
qed

lemma decode_source:
  assumes "decode rsrc = Some im"
  obtains src where "im = add_halo src" "rgba_ok src"
    "1 \<le> unat (width src)" "unat (width src) \<le> 4096" "1 \<le> unat (height src)" "unat (height src) \<le> 4096"
proof -
  from assms obtain bpp l r t b pal hm po rb mr ps where
    wh: "\<not> r \<le> (l :: u16)" "\<not> b \<le> (t :: u16)" "unat (r - l) \<le> 4096" "unat (b - t) \<le> 4096"
    and rows: "decode_rows rsrc bpp pal hm po rb mr (unat (r - l)) (unat (b - t)) = Some ps"
    and im: "im = add_halo \<lparr>width = of_nat (unat (r - l)), height = of_nat (unat (b - t)), pixels = ps\<rparr>"
    unfolding decode_def Let_def by (auto simp: bind_eq_Some_conv not_less split: if_splits)
  define w h where "w = unat (r - l)" and "h = unat (b - t)"
  have pos: "0 < w" "0 < h" using wh by (auto simp: w_def h_def unat_gt_0)
  have le: "w \<le> 4096" "h \<le> 4096" using wh by (simp_all add: w_def h_def)
  then have u: "unat (of_nat w :: u32) = w" "unat (of_nat h :: u32) = h"
    by (simp_all add: unat_of_nat_small)
  have "length ps = h * (w * 4)"
    unfolding w_def h_def by (rule decode_rows_length [OF rows])
  with pos le u show ?thesis
    by (intro that [OF im [folded w_def h_def]]) (simp_all add: rgba_ok_def)
qed

text \<open>a decoded icon is between 3 and 4098 pixels wide and high, and its buffer holds exactly four
  bytes for each of its pixels.\<close>

theorem decode_well_formed:
  assumes "decode rsrc = Some im"
  shows "3 \<le> unat (width im) \<and> unat (width im) \<le> 4098 \<and> 3 \<le> unat (height im) \<and> unat (height im) \<le> 4098 \<and>
    length (pixels im) = unat (width im) * unat (height im) * 4"
proof (rule decode_source [OF assms])
  fix src assume src: "im = add_halo src" "rgba_ok src" "1 \<le> unat (width src)" "unat (width src) \<le> 4096"
    "1 \<le> unat (height src)" "unat (height src) \<le> 4096"
  with add_halo_ok [of src] show ?thesis by (simp add: rgba_ok_def)
qed

section \<open>The palette\<close>

lemma overlay_length [simp]: "length (overlay data ct_off n out is) = length out"
  by (induction data ct_off n out "is" rule: overlay.induct)
    (simp_all add: Let_def split: option.splits)

lemma build_palette_length: "length (build_palette data ct_off bpp) = 256"
  by (simp add: build_palette_def default_palette_def Let_def palette_lengths split: option.splits)

text \<open>no pixel indexes past the palette: an index of a depth the decoder accepts is below the
  number of colours of that depth, and the palette always has 256 entries, whatever colour table
  the resource carries.\<close>

theorem pixel_index_in_palette:
  assumes "bpp \<in> {1, 2, 4, 8}" "pixel_index rsrc bpp id_row x = Some idx"
  shows "unat idx < 2 ^ bpp \<and> unat idx < length (build_palette rsrc ct_off bpp)"
proof -
  have m: "unat (b AND c) \<le> unat c" for b c :: u8
    by (simp add: word_and_le1 flip: word_le_nat_alt)
  have "unat (b AND 1) < 2" "unat (b AND 3) < 4" "unat (b AND 15) < 16" for b :: u8
    using m [of b 1] m [of b 3] m [of b 15] by simp_all
  then have "unat idx < 2 ^ bpp"
    using assms unsigned_less [of idx, where ?'a = nat]
    by (auto simp: pixel_index_def split: if_splits)
  moreover from assms have "(2 :: nat) ^ bpp \<le> 256" by auto
  ultimately show ?thesis by (simp add: build_palette_length)
qed

section \<open>Samples\<close>

definition dot :: Rgba where
  "dot = \<lparr>width = 1, height = 1, pixels = [10, 20, 30, 0xFF]\<rparr>"

theorem add_halo_pixels_witness:
  "px (pixels (add_halo dot)) 1 = [0x80, 0x80, 0x80, 0xA0] \<and> px (pixels (add_halo dot)) 4 = [10, 20, 30, 0xFF]"
proof -
  have ok: "rgba_ok dot" by code_simp
  have c: "\<not> covered dot 1 0" "touches dot 1 0" "covered dot 1 1" "framed_px dot 1 1 = [10, 20, 30, 0xFF]"
    by code_simp+
  have d: "unat (width dot) = 1" "unat (height dot) = 1" by (simp_all add: dot_def)
  show ?thesis
    using add_halo_pixels [OF ok, of 1 0] add_halo_pixels [OF ok, of 1 1] c by (simp add: d eval_nat_numeral)
qed

definition dot_cicn :: bytes where
  "dot_cicn = [0, 0, 0, 0, 128, 2, 0, 0, 0, 0, 0, 1, 0, 1, 0, 0, 0, 0, 0, 0, 0, 0, 0, 0,
     0, 0, 0, 0, 0, 0, 0, 0, 0, 1, 0, 0, 0, 0, 0, 0, 0, 0, 0, 0, 0, 0, 0, 0,
     0, 0, 0, 0, 0, 0, 0, 2, 0, 0, 0, 0, 0, 1, 0, 1, 0, 0, 0, 0, 0, 2, 0, 0,
     0, 0, 0, 1, 0, 0, 0, 0, 0, 0, 128, 0, 0, 0, 0, 0, 0, 0, 0, 0, 0, 0, 0, 1,
     255, 0, 128, 0, 16, 0, 128, 0]"

lemma dot_cicn_decodes: "decode dot_cicn \<noteq> None"
  by code_simp

theorem decode_well_formed_witness:
  "3 \<le> unat (width (the (decode dot_cicn))) \<and>
   length (pixels (the (decode dot_cicn))) =
     unat (width (the (decode dot_cicn))) * unat (height (the (decode dot_cicn))) * 4"
  using decode_well_formed [of dot_cicn "the (decode dot_cicn)"] dot_cicn_decodes by simp

theorem pixel_index_in_palette_witness:
  "pixel_index [0xA5] 4 0 1 = Some 5 \<and> unat (5 :: u8) < length (build_palette [0xA5] 0 4)"
proof -
  have "pixel_index [0xA5] 4 0 1 = Some 5" by code_simp
  with pixel_index_in_palette [OF _ this, of 0] show ?thesis by simp
qed

end
