(* ===== verification/Decode_Slots.thy ===== *)
theory Decode_Slots
  imports Hx_Prelude
begin

text \<open>
  The decode slots of crate \<open>hx-image-decode\<close> (\<open>slots.rs\<close>): at most \<open>MAX_IN_FLIGHT\<close> decodes run, the
  rest wait in a queue.

  A client is one decode future, numbered by its position: its \<open>Acquire\<close> not polled yet, an
  \<open>Acquire\<close> with a \<open>Waiter\<close> (whether the waiter was granted a slot, and whether a waker is stored in
  it), a held \<open>Slot\<close>, or dropped.  A future makes at most one waiter, so the queue holds client
  numbers.  \<open>slot_step\<close> interleaves the operations of all clients on the main thread; a step carries
  the clients whose waker it called.
\<close>

definition MAX_IN_FLIGHT :: nat where
  "MAX_IN_FLIGHT = 4"

datatype Client = Acquire | Waiter bool bool | Slot | Dropped

record Slots =
  in_flight :: nat
  queue :: "nat list"
  clients :: "Client list"

definition no_slots :: Slots where
  "no_slots = \<lparr>in_flight = 0, queue = [], clients = []\<rparr>"

fun granted :: "Client \<Rightarrow> bool" where
  "granted (Waiter g k) = g"
| "granted _ = False"

fun has_waker :: "Client \<Rightarrow> bool" where
  "has_waker (Waiter g k) = k"
| "has_waker _ = False"

text \<open>\<open>release\<close>: the slot passes to the longest waiter, whose waker is taken and called, or is freed.\<close>

definition release :: "Slots \<Rightarrow> Slots \<times> nat list" where
  "release s =
     (case queue s of
        w # q \<Rightarrow>
          (s\<lparr>queue := q, clients := (clients s)[w := Waiter True False]\<rparr>,
           if has_waker (clients s ! w) then [w] else [])
      | [] \<Rightarrow> (s\<lparr>in_flight := in_flight s - 1\<rparr>, []))"

definition acquire :: "Slots \<Rightarrow> Slots" where
  "acquire s = s\<lparr>clients := clients s @ [Acquire]\<rparr>"

text \<open>\<open>Acquire::poll\<close>; the flag is whether it returned a slot.  A future that already returned is not
  polled again.\<close>

definition poll :: "Slots \<Rightarrow> nat \<Rightarrow> Slots \<times> bool" where
  "poll s i =
     (case clients s ! i of
        Waiter g k \<Rightarrow>
          if g then (s\<lparr>clients := (clients s)[i := Slot]\<rparr>, True)
          else (s\<lparr>clients := (clients s)[i := Waiter False True]\<rparr>, False)
      | Acquire \<Rightarrow>
          if in_flight s < MAX_IN_FLIGHT
          then (s\<lparr>in_flight := in_flight s + 1, clients := (clients s)[i := Slot]\<rparr>, True)
          else (s\<lparr>queue := queue s @ [i], clients := (clients s)[i := Waiter False True]\<rparr>, False)
      | _ \<Rightarrow> (s, False))"

definition drop_acquire :: "Slots \<Rightarrow> nat \<Rightarrow> Slots \<times> nat list" where
  "drop_acquire s i =
     (case clients s ! i of
        Waiter g k \<Rightarrow>
          (let s' = s\<lparr>clients := (clients s)[i := Dropped]\<rparr>
           in if g then release s' else (s'\<lparr>queue := filter (\<lambda>q. q \<noteq> i) (queue s)\<rparr>, []))
      | Acquire \<Rightarrow> (s\<lparr>clients := (clients s)[i := Dropped]\<rparr>, [])
      | _ \<Rightarrow> (s, []))"

definition drop_slot :: "Slots \<Rightarrow> nat \<Rightarrow> Slots \<times> nat list" where
  "drop_slot s i = release (s\<lparr>clients := (clients s)[i := Dropped]\<rparr>)"

section \<open>Interleavings\<close>

definition pending :: "Client \<Rightarrow> bool" where
  "pending c \<longleftrightarrow> c = Acquire \<or> (\<exists>g k. c = Waiter g k)"

inductive slot_step :: "Slots \<Rightarrow> Slots \<Rightarrow> nat list \<Rightarrow> bool" where
  ask: "slot_step s (acquire s) []"
| polled: "i < length (clients s) \<Longrightarrow> pending (clients s ! i) \<Longrightarrow> slot_step s (fst (poll s i)) []"
| given_up: "i < length (clients s) \<Longrightarrow> pending (clients s ! i) \<Longrightarrow> drop_acquire s i = (s', woken) \<Longrightarrow>
    slot_step s s' woken"
| finished: "i < length (clients s) \<Longrightarrow> clients s ! i = Slot \<Longrightarrow> drop_slot s i = (s', woken) \<Longrightarrow>
    slot_step s s' woken"

inductive slots_reachable :: "Slots \<Rightarrow> bool" where
  start: "slots_reachable no_slots"
| step: "slots_reachable s \<Longrightarrow> slot_step s s' woken \<Longrightarrow> slots_reachable s'"

section \<open>The invariant\<close>

definition occupies :: "Client \<Rightarrow> bool" where
  "occupies c \<longleftrightarrow> c = Slot \<or> granted c"

definition occupied :: "Slots \<Rightarrow> nat" where
  "occupied s = length (filter occupies (clients s))"

text \<open>The slots in flight are those held or granted, never more than the limit; someone waits only
  while all are taken; the queue holds, once each, exactly the waiters without a grant, and each of
  them has its waker stored.\<close>

definition slots_inv :: "Slots \<Rightarrow> bool" where
  "slots_inv s \<longleftrightarrow> in_flight s = occupied s \<and> in_flight s \<le> MAX_IN_FLIGHT \<and>
     (queue s \<noteq> [] \<longrightarrow> in_flight s = MAX_IN_FLIGHT) \<and> distinct (queue s) \<and>
     (\<forall>i. i \<in> set (queue s) \<longleftrightarrow> i < length (clients s) \<and> (\<exists>k. clients s ! i = Waiter False k)) \<and>
     (\<forall>i < length (clients s). clients s ! i \<noteq> Waiter False False)"

lemma length_filter_update:
  "i < length xs \<Longrightarrow>
   length (filter P (xs[i := x])) + (if P (xs ! i) then 1 else 0) =
   length (filter P xs) + (if P x then 1 else 0)"
proof (induction xs arbitrary: i)
  case (Cons a xs)
  then show ?case by (cases i) auto
qed simp

lemma occupies_simps [simp]:
  "occupies Slot" "occupies (Waiter g k) \<longleftrightarrow> g" "\<not> occupies Acquire" "\<not> occupies Dropped"
  by (simp_all add: occupies_def)

lemma occupied_update:
  "i < length (clients s) \<Longrightarrow>
   length (filter occupies ((clients s)[i := c])) + (if occupies (clients s ! i) then 1 else 0) =
   occupied s + (if occupies c then 1 else 0)"
  unfolding occupied_def by (rule length_filter_update)

lemma queue_member:
  assumes "slots_inv s" "w \<in> set (queue s)"
  shows "w < length (clients s)" "clients s ! w = Waiter False True"
proof -
  from assms obtain k where w: "w < length (clients s)" "clients s ! w = Waiter False k"
    by (auto simp: slots_inv_def)
  moreover have k
    using w assms(1) by (cases k) (auto simp: slots_inv_def)
  ultimately show "w < length (clients s)" "clients s ! w = Waiter False True" by simp_all
qed

lemma slots_invD:
  assumes "slots_inv s"
  shows "distinct (queue s)" "queue s \<noteq> [] \<Longrightarrow> in_flight s = MAX_IN_FLIGHT"
    "in_flight s \<le> MAX_IN_FLIGHT" "in_flight s = occupied s"
  using assms by (simp_all add: slots_inv_def)

lemma queue_iff:
  "slots_inv s \<Longrightarrow> j \<in> set (queue s) \<longleftrightarrow> j < length (clients s) \<and> (\<exists>k. clients s ! j = Waiter False k)"
  by (simp add: slots_inv_def)

lemma not_queued:
  assumes "slots_inv s" "\<And>k. clients s ! i \<noteq> Waiter False k"
  shows "i \<notin> set (queue s)"
  using assms queue_member(2) by blast

lemma release_inv:
  assumes inv: "slots_inv s" and i: "i < length (clients s)" "occupies (clients s ! i)"
  shows "slots_inv (fst (release (s\<lparr>clients := (clients s)[i := Dropped]\<rparr>)))"
proof (cases "queue s")
  case Nil
  have "Suc (length (filter occupies ((clients s)[i := Dropped]))) = in_flight s"
    using occupied_update [OF i(1), of Dropped] i(2) inv by (simp add: slots_inv_def)
  moreover from inv Nil have "\<forall>j < length (clients s). \<forall>k. clients s ! j \<noteq> Waiter False k"
    by (auto simp: slots_inv_def)
  ultimately show ?thesis
    using Nil inv i(1)
    by (auto simp: slots_inv_def release_def occupied_def nth_list_update)
next
  case (Cons w q)
  let ?cs = "(clients s)[i := Dropped]"
  have w: "w < length (clients s)" "clients s ! w = Waiter False True"
    using queue_member [OF inv] Cons by simp_all
  with i(2) have "w \<noteq> i" by auto
  have "Suc (length (filter occupies ?cs)) = in_flight s"
    using occupied_update [OF i(1), of Dropped] i(2) inv by (simp add: slots_inv_def)
  moreover have "length (filter occupies (?cs[w := Waiter True False])) = Suc (length (filter occupies ?cs))"
    using length_filter_update [of w ?cs occupies "Waiter True False"] w \<open>w \<noteq> i\<close> by simp
  moreover have "(j \<in> set q) = (j < length (clients s) \<and>
      (\<exists>k. ?cs[w := Waiter True False] ! j = Waiter False k))" for j
  proof (cases "j = w \<or> j = i")
    case True
    have "i \<notin> set (queue s)" using i(2) by (intro not_queued [OF inv]) auto
    moreover have "w \<notin> set q" using inv Cons by (simp add: slots_inv_def)
    ultimately show ?thesis using True Cons i w \<open>w \<noteq> i\<close> by auto
  next
    case False
    then show ?thesis using queue_iff [OF inv, of j] Cons by simp
  qed
  ultimately show ?thesis
    using Cons inv i w
    by (auto simp: slots_inv_def release_def occupied_def nth_list_update)
qed

text \<open>A change of one client that keeps its slot keeps the invariant when the queue follows it.\<close>

lemma update_inv:
  assumes inv: "slots_inv s" and i: "i < length (clients s)"
    and c: "occupies c = occupies (clients s ! i)" "c \<noteq> Waiter False False"
    and q: "distinct q" "set q = (if c = Waiter False True then insert i (set (queue s)) else set (queue s) - {i})"
    and full: "q \<noteq> [] \<Longrightarrow> in_flight s = MAX_IN_FLIGHT"
  shows "slots_inv (s\<lparr>queue := q, clients := (clients s)[i := c]\<rparr>)"
    and "slots_inv (s\<lparr>clients := (clients s)[i := c], queue := q\<rparr>)"
proof -
  have "length (filter occupies ((clients s)[i := c])) = occupied s"
    using occupied_update [OF i, of c] c(1) by (simp split: if_splits)
  moreover have "(j \<in> set q) = (j < length (clients s) \<and> (\<exists>k. (clients s)[i := c] ! j = Waiter False k))" for j
  proof (cases "j = i")
    case True
    have "(\<exists>k. c = Waiter False k) \<longleftrightarrow> c = Waiter False True" using c(2) by (metis (full_types))
    with True i q(2) show ?thesis by simp
  next
    case False
    with q(2) queue_iff [OF inv, of j] show ?thesis by simp
  qed
  ultimately show "slots_inv (s\<lparr>queue := q, clients := (clients s)[i := c]\<rparr>)"
    and "slots_inv (s\<lparr>clients := (clients s)[i := c], queue := q\<rparr>)"
    using inv i c(2) q(1) full by (auto simp: slots_inv_def occupied_def nth_list_update)
qed

lemma poll_inv:
  assumes inv: "slots_inv s" and i: "i < length (clients s)" "pending (clients s ! i)"
  shows "slots_inv (fst (poll s i))"
proof -
  from i(2) consider (waiting) k where "clients s ! i = Waiter False k"
    | (granted) k where "clients s ! i = Waiter True k" | (fresh) "clients s ! i = Acquire"
    by (auto simp: pending_def) (metis (full_types))
  then show ?thesis
  proof cases
    case (waiting k)
    with inv i have "i \<in> set (queue s)" by (auto simp: slots_inv_def)
    with waiting inv i update_inv(1) [of s i "Waiter False True" "queue s"] slots_invD [OF inv]
    show ?thesis by (simp add: poll_def insert_absorb)
  next
    case (granted k)
    with not_queued [OF inv, of i] have "i \<notin> set (queue s)" by simp
    with granted inv i update_inv(1) [of s i Slot "queue s"] slots_invD [OF inv]
    show ?thesis by (simp add: poll_def)
  next
    case fresh
    with not_queued [OF inv, of i] have nq: "i \<notin> set (queue s)" by simp
    show ?thesis
    proof (cases "in_flight s < MAX_IN_FLIGHT")
      case True
      with inv have "queue s = []" by (auto simp: slots_inv_def)
      with True fresh inv i occupied_update [OF i(1), of Slot] show ?thesis
        by (auto simp: poll_def slots_inv_def occupied_def nth_list_update)
    next
      case False
      with inv have "in_flight s = MAX_IN_FLIGHT" by (simp add: slots_inv_def)
      with False fresh nq inv i update_inv(1) [of s i "Waiter False True" "queue s @ [i]"] slots_invD [OF inv]
      show ?thesis by (simp add: poll_def)
    qed
  qed
qed

lemma drop_acquire_inv:
  assumes inv: "slots_inv s" and i: "i < length (clients s)" "pending (clients s ! i)"
  shows "slots_inv (fst (drop_acquire s i))"
proof -
  from i(2) consider (waiting) k where "clients s ! i = Waiter False k"
    | (granted) k where "clients s ! i = Waiter True k" | (fresh) "clients s ! i = Acquire"
    by (auto simp: pending_def) (metis (full_types))
  then show ?thesis
  proof cases
    case (waiting k)
    have "filter (\<lambda>q. q \<noteq> i) (queue s) \<noteq> [] \<Longrightarrow> in_flight s = MAX_IN_FLIGHT"
      using slots_invD(2) [OF inv] by fastforce
    then have "slots_inv (s\<lparr>clients := (clients s)[i := Dropped], queue := filter (\<lambda>q. q \<noteq> i) (queue s)\<rparr>)"
      using waiting slots_invD(1) [OF inv] by (intro update_inv(2) [OF inv i(1)]) auto
    with waiting show ?thesis by (simp add: drop_acquire_def)
  next
    case (granted k)
    with inv i release_inv [of s i] show ?thesis by (simp add: drop_acquire_def)
  next
    case fresh
    with not_queued [OF inv, of i] have "i \<notin> set (queue s)" by simp
    with fresh inv i update_inv(1) [of s i Dropped "queue s"] slots_invD [OF inv]
    show ?thesis by (simp add: drop_acquire_def)
  qed
qed

lemma slot_step_inv: "slot_step s s' woken \<Longrightarrow> slots_inv s \<Longrightarrow> slots_inv s'"
proof (induction rule: slot_step.induct)
  case (ask s)
  then show ?case by (auto simp: acquire_def slots_inv_def occupied_def nth_append)
next
  case (polled i s)
  then show ?case by (intro poll_inv)
next
  case (given_up i s s' woken)
  then show ?case using drop_acquire_inv [of s i] by simp
next
  case (finished i s s' woken)
  then show ?case using release_inv [of s i] by (simp add: drop_slot_def)
qed

lemma slots_reachable_inv: "slots_reachable s \<Longrightarrow> slots_inv s"
proof (induction rule: slots_reachable.induct)
  case start
  show ?case by (simp add: no_slots_def slots_inv_def occupied_def)
qed (rule slot_step_inv)

section \<open>Properties\<close>

lemma filter_length_mono: "(\<And>x. P x \<Longrightarrow> Q x) \<Longrightarrow> length (filter P xs) \<le> length (filter Q xs)"
  by (induction xs) auto

text \<open>C14: however the decodes interleave, at most four run at once, and no slot is lost: while someone
  waits all four are taken, so that some decode is running or has been handed a slot it has yet to
  notice.\<close>

theorem slots_bounded_and_kept:
  assumes "slots_reachable s"
  shows "length (filter (\<lambda>c. c = Slot) (clients s)) \<le> MAX_IN_FLIGHT \<and>
    (queue s \<noteq> [] \<longrightarrow> in_flight s = MAX_IN_FLIGHT \<and> (\<exists>c \<in> set (clients s). c = Slot \<or> granted c))"
proof -
  note inv = slots_reachable_inv [OF assms]
  have "length (filter (\<lambda>c. c = Slot) (clients s)) \<le> occupied s"
    unfolding occupied_def by (rule filter_length_mono) (simp add: occupies_def)
  moreover have "\<exists>c \<in> set (clients s). occupies c" if "in_flight s = MAX_IN_FLIGHT"
    using that slots_invD(4) [OF inv] filter_False [of "clients s" occupies]
    by (fastforce simp: occupied_def MAX_IN_FLIGHT_def)
  ultimately show ?thesis
    using slots_invD [OF inv] by (auto simp: occupies_def)
qed

text \<open>slots are handed on in the order they were asked for: a step leaves the queue alone, adds
  a newcomer at its end, takes out a waiter that gave up, or grants the slot to the longest waiter
  and wakes it; nobody else is ever woken.\<close>

theorem slots_fifo:
  assumes "slots_reachable s" "slot_step s s' woken"
  shows "queue s' = queue s \<and> woken = [] \<or>
    (\<exists>i. i \<notin> set (queue s) \<and> queue s' = queue s @ [i] \<and> woken = []) \<or>
    (\<exists>i. clients s' ! i = Dropped \<and> queue s' = filter (\<lambda>q. q \<noteq> i) (queue s) \<and> woken = []) \<or>
    (\<exists>w. queue s = w # queue s' \<and> clients s' ! w = Waiter True False \<and> woken = [w])"
proof -
  note inv = slots_reachable_inv [OF assms(1)]
  have rel: "queue (fst (release (s\<lparr>clients := (clients s)[i := Dropped]\<rparr>))) = queue s \<and>
        snd (release (s\<lparr>clients := (clients s)[i := Dropped]\<rparr>)) = [] \<or>
      (\<exists>w. queue s = w # queue (fst (release (s\<lparr>clients := (clients s)[i := Dropped]\<rparr>))) \<and>
        clients (fst (release (s\<lparr>clients := (clients s)[i := Dropped]\<rparr>))) ! w = Waiter True False \<and>
        snd (release (s\<lparr>clients := (clients s)[i := Dropped]\<rparr>)) = [w])"
    if occ: "occupies (clients s ! i)" for i
  proof (cases "queue s")
    case (Cons w q)
    with queue_member [OF inv, of w] have "w < length (clients s)" "clients s ! w = Waiter False True"
      by simp_all
    moreover with occ have "w \<noteq> i" by auto
    ultimately show ?thesis using Cons by (simp add: release_def)
  qed (simp add: release_def)
  from assms(2) show ?thesis
  proof cases
    case ask
    then show ?thesis by (simp add: acquire_def)
  next
    case (polled i)
    have "clients s ! i = Acquire \<Longrightarrow> i \<notin> set (queue s)" by (rule not_queued [OF inv]) simp
    with polled show ?thesis by (auto simp: poll_def split: Client.splits)
  next
    case (given_up i)
    show ?thesis
    proof (cases "\<exists>k. clients s ! i = Waiter False k")
      case True
      then have "s' = s\<lparr>clients := (clients s)[i := Dropped], queue := filter (\<lambda>q. q \<noteq> i) (queue s)\<rparr>"
        "woken = []" using given_up by (auto simp: drop_acquire_def)
      with given_up show ?thesis by (auto intro!: exI [of _ i])
    next
      case False
      with given_up rel [of i] show ?thesis
        by (auto simp: drop_acquire_def Let_def split: Client.splits if_splits)
    qed
  next
    case (finished i)
    then show ?thesis using rel [of i] by (auto simp: drop_slot_def)
  qed
qed

lemma reachable_acquire: "slots_reachable s \<Longrightarrow> slots_reachable (acquire s)"
  using slots_reachable.step slot_step.ask by blast

lemma reachable_poll:
  "slots_reachable s \<Longrightarrow> i < length (clients s) \<Longrightarrow> pending (clients s ! i) \<Longrightarrow> slots_reachable (fst (poll s i))"
  using slots_reachable.step slot_step.polled by blast

definition ask_and_poll :: "Slots \<Rightarrow> Slots" where
  "ask_and_poll s = fst (poll (acquire s) (length (clients s)))"

lemma reachable_ask_and_poll: "slots_reachable s \<Longrightarrow> slots_reachable (ask_and_poll s)"
  unfolding ask_and_poll_def
  by (intro reachable_poll reachable_acquire) (simp_all add: acquire_def pending_def nth_append)

definition busy :: Slots where
  "busy = ask_and_poll (ask_and_poll (ask_and_poll (ask_and_poll (ask_and_poll no_slots))))"

lemma busy_reachable: "slots_reachable busy"
  unfolding busy_def by (intro reachable_ask_and_poll slots_reachable.start)

lemma busy_queue: "queue busy = [4]" "clients busy = [Slot, Slot, Slot, Slot, Waiter False True]"
  by code_simp+

theorem slots_bounded_and_kept_witness: "queue busy = [4] \<and> in_flight busy = MAX_IN_FLIGHT"
  using slots_bounded_and_kept [OF busy_reachable] busy_queue by simp

theorem slots_fifo_witness:
  "queue busy = [4] \<and> queue (fst (drop_slot busy 2)) = [] \<and> snd (drop_slot busy 2) = [4]"
proof -
  have "slot_step busy (fst (drop_slot busy 2)) (snd (drop_slot busy 2))"
    by (rule slot_step.finished [of 2]) (simp_all add: busy_queue)
  from slots_fifo [OF busy_reachable this] show ?thesis
    by (auto simp: busy_queue drop_slot_def release_def)
qed

end
