(* ===== verification/Media_Sniff.thy ===== *)
theory Media_Sniff
  imports Hx_Prelude
begin

text \<open>
  The gate in front of the inline-media decoder (crate \<open>hx-image-decode\<close>): the format sniff over the
  first 32 bytes (\<open>sniff.rs\<close>) and the decode caps with their defaults (\<open>caps.rs\<close>).
\<close>

datatype Format = Unknown | Jpeg | Png | Gif | Svg | Webp | Avif | Heic | Tiff | Ico | Bmp

definition prefix_matches :: "bytes \<Rightarrow> bytes \<Rightarrow> bool" where
  "prefix_matches buf needle \<longleftrightarrow> length buf \<ge> length needle \<and> take (length needle) buf = needle"

definition sniff_svg :: "bytes \<Rightarrow> bool" where
  "sniff_svg buf =
     (let i = (if length buf \<ge> 3 \<and> buf ! 0 = 0xEF \<and> buf ! 1 = 0xBB \<and> buf ! 2 = 0xBF then 3 else 0);
          rest = dropWhile (\<lambda>b. b = 0x20 \<or> b = 0x09 \<or> b = 0x0A \<or> b = 0x0D) (drop i buf)
      in length rest \<ge> 5 \<and> take 5 rest = as_bytes ''<?xml'' \<or>
         length rest \<ge> 4 \<and> take 4 rest = as_bytes ''<svg'')"

definition slice :: "bytes \<Rightarrow> nat \<Rightarrow> nat \<Rightarrow> bytes" where
  "slice buf a b = take (b - a) (drop a buf)"

definition HEIC_BRANDS :: "bytes list" where
  "HEIC_BRANDS = map as_bytes [''heic'', ''heix'', ''hevc'', ''hevx'', ''heim'', ''heis'', ''hevm'', ''hevs'', ''mif1'']"

definition sniff_ftyp :: "bytes \<Rightarrow> Format option" where
  "sniff_ftyp buf =
     (if length buf \<ge> 12 \<and> slice buf 4 8 = as_bytes ''ftyp''
      then let brand = slice buf 8 12
        in if brand = as_bytes ''avif'' \<or> brand = as_bytes ''avis'' then Some Avif
           else if list_ex (\<lambda>b. brand = b) HEIC_BRANDS then Some Heic else None
      else None)"

definition sniff_buf :: "bytes \<Rightarrow> Format" where
  "sniff_buf buf =
     (if prefix_matches buf [0xFF, 0xD8, 0xFF] then Jpeg
      else if prefix_matches buf [0x89, 0x50, 0x4E, 0x47, 0x0D, 0x0A, 0x1A, 0x0A] then Png
      else if prefix_matches buf (as_bytes ''GIF87a'') \<or> prefix_matches buf (as_bytes ''GIF89a'') then Gif
      else if length buf \<ge> 12 \<and> take 4 buf = as_bytes ''RIFF'' \<and> slice buf 8 12 = as_bytes ''WEBP'' then Webp
      else case sniff_ftyp buf of
          Some f \<Rightarrow> f
        | None \<Rightarrow>
            if prefix_matches buf [0x49, 0x49, 0x2A, 0x00] \<or> prefix_matches buf [0x4D, 0x4D, 0x00, 0x2A] then Tiff
            else if prefix_matches buf [0x00, 0x00, 0x01, 0x00] then Ico
            else if prefix_matches buf (as_bytes ''BM'') then Bmp
            else if sniff_svg buf then Svg
            else Unknown)"

definition sniff :: "bytes \<Rightarrow> Format" where
  "sniff data =
     (if data = [] then Unknown
      else sniff_buf (if length data > 32 then take 32 data else data))"

fun format_is_allowed :: "Format \<Rightarrow> bool" where
  "format_is_allowed Jpeg = True"
| "format_is_allowed Png = True"
| "format_is_allowed Gif = True"
| "format_is_allowed _ = False"

fun format_to_mime :: "Format \<Rightarrow> string option" where
  "format_to_mime Jpeg = Some ''image/jpeg''"
| "format_to_mime Png = Some ''image/png''"
| "format_to_mime Gif = Some ''image/gif''"
| "format_to_mime Svg = Some ''image/svg+xml''"
| "format_to_mime Webp = Some ''image/webp''"
| "format_to_mime Avif = Some ''image/avif''"
| "format_to_mime Heic = Some ''image/heic''"
| "format_to_mime Tiff = Some ''image/tiff''"
| "format_to_mime Ico = Some ''image/x-icon''"
| "format_to_mime Bmp = Some ''image/bmp''"
| "format_to_mime Unknown = None"

section \<open>Caps\<close>

record HxInlineMediaCaps =
  max_bytes :: u32
  max_dimension :: u32
  max_pixels :: u32
  max_frames :: u32
  max_duration_ms :: u32

definition SPEC_MAX_BYTES :: u32 where "SPEC_MAX_BYTES = 256 * 1024"
definition SPEC_MAX_DIMENSION :: u32 where "SPEC_MAX_DIMENSION = 2048"
definition SPEC_MAX_PIXELS :: u32 where "SPEC_MAX_PIXELS = 4 * 1024 * 1024"
definition SPEC_MAX_FRAMES :: u32 where "SPEC_MAX_FRAMES = 150"
definition SPEC_MAX_DURATION_MS :: u32 where "SPEC_MAX_DURATION_MS = 15000"

definition SPEC :: HxInlineMediaCaps where
  "SPEC = \<lparr>max_bytes = SPEC_MAX_BYTES, max_dimension = SPEC_MAX_DIMENSION, max_pixels = SPEC_MAX_PIXELS,
     max_frames = SPEC_MAX_FRAMES, max_duration_ms = SPEC_MAX_DURATION_MS\<rparr>"

definition with_defaults :: "HxInlineMediaCaps \<Rightarrow> HxInlineMediaCaps" where
  "with_defaults c =
     c\<lparr>max_bytes := if max_bytes c = 0 then SPEC_MAX_BYTES else max_bytes c,
       max_dimension := if max_dimension c = 0 then SPEC_MAX_DIMENSION else max_dimension c,
       max_pixels := if max_pixels c = 0 then SPEC_MAX_PIXELS else max_pixels c,
       max_frames := if max_frames c = 0 then SPEC_MAX_FRAMES else max_frames c,
       max_duration_ms := if max_duration_ms c = 0 then SPEC_MAX_DURATION_MS else max_duration_ms c\<rparr>"

lemma with_defaults_nonzero:
  "max_bytes (with_defaults c) \<noteq> 0" "max_dimension (with_defaults c) \<noteq> 0"
  "max_pixels (with_defaults c) \<noteq> 0" "max_frames (with_defaults c) \<noteq> 0"
  "max_duration_ms (with_defaults c) \<noteq> 0"
  by (simp_all add: with_defaults_def SPEC_MAX_BYTES_def SPEC_MAX_DIMENSION_def SPEC_MAX_PIXELS_def
      SPEC_MAX_FRAMES_def SPEC_MAX_DURATION_MS_def)

lemma with_defaults_idem: "with_defaults (with_defaults c) = with_defaults c"
  using with_defaults_nonzero [of c]
  by (cases c) (simp add: with_defaults_def [of "with_defaults _"])

section \<open>What the gate lets through\<close>

lemma sniff_window: "sniff (take 32 data) = sniff data"
  by (simp add: sniff_def)

lemma prefix_matches_take:
  "length needle \<le> 32 \<Longrightarrow> prefix_matches (take 32 data) needle = prefix_matches data needle"
  by (auto simp: prefix_matches_def min_def)

text \<open>the gate opens for exactly three signatures: the bytes of a payload are let through to the
  decoder if and only if they begin with the JPEG, PNG or GIF magic, whatever follows, and the format
  reported is the one of that signature; only the first 32 bytes are looked at.\<close>

theorem sniff_allowed_iff:
  "(format_is_allowed (sniff data) \<longleftrightarrow>
     prefix_matches data [0xFF, 0xD8, 0xFF] \<or>
     prefix_matches data [0x89, 0x50, 0x4E, 0x47, 0x0D, 0x0A, 0x1A, 0x0A] \<or>
     prefix_matches data (as_bytes ''GIF87a'') \<or> prefix_matches data (as_bytes ''GIF89a'')) \<and>
   sniff data = sniff (take 32 data)"
proof -
  have ftyp: "sniff_ftyp buf = Some f \<Longrightarrow> \<not> format_is_allowed f" for buf f
    by (auto simp: sniff_ftyp_def Let_def split: if_splits)
  have gate: "format_is_allowed (sniff d) \<longleftrightarrow>
     prefix_matches d [0xFF, 0xD8, 0xFF] \<or>
     prefix_matches d [0x89, 0x50, 0x4E, 0x47, 0x0D, 0x0A, 0x1A, 0x0A] \<or>
     prefix_matches d (as_bytes ''GIF87a'') \<or> prefix_matches d (as_bytes ''GIF89a'')" if "length d \<le> 32" for d
  proof (cases "d = []")
    case True
    then show ?thesis by (simp add: sniff_def prefix_matches_def as_bytes_def)
  next
    case False
    with that ftyp [of d] show ?thesis
      by (simp add: sniff_def sniff_buf_def split: option.splits)
  qed
  have "format_is_allowed (sniff (take 32 data)) \<longleftrightarrow>
     prefix_matches data [0xFF, 0xD8, 0xFF] \<or>
     prefix_matches data [0x89, 0x50, 0x4E, 0x47, 0x0D, 0x0A, 0x1A, 0x0A] \<or>
     prefix_matches data (as_bytes ''GIF87a'') \<or> prefix_matches data (as_bytes ''GIF89a'')"
    by (subst gate) (simp_all add: prefix_matches_take as_bytes_def)
  then show ?thesis by (simp add: sniff_window)
qed

end
