(* ===== verification/Msg_Requests.thy ===== *)
theory Msg_Requests
  imports Hx_Prelude
begin

text \<open>
  Message requests as a connection holds them (crate \<open>gtkhx-core\<close>, \<open>messaging/requests.rs\<close>): who
  waits with a request, whom the user approved, and the listing that reads them page by page.

  An \<open>Instant\<close> is a number of nanoseconds; a \<open>BTreeSet\<close> is a set.  The calls a connection makes
  are the events of \<open>req_step\<close>, whose outputs are the pages it asks the server for.
\<close>

type_synonym instant = nat
type_synonym Guid = bytes

definition PAGE_GAP :: nat where "PAGE_GAP = 1000000000"
definition LISTING_GAP :: nat where "LISTING_GAP = 5000000000"
definition PAGE_BOUND :: nat where "PAGE_BOUND = 16"

record Waiting =
  wt_guid :: Guid
  wt_body :: string
  wt_sent_at :: u64

record Sender =
  sn_login :: bytes
  sn_messages :: "Waiting list"

record Page =
  pg_takes :: "bool option"
  pg_dropped :: "u32 option"
  pg_cursor :: "bytes option"
  pg_senders :: "Sender list"
  pg_approvals :: "bytes list"

record Listing =
  ls_senders :: "Sender list"
  ls_approvals :: "bytes set"
  ls_takes :: "bool option"
  ls_pages :: nat
  ls_answered :: instant
  ls_next :: "bytes option"
  ls_follow :: bool
  ls_changed :: bool

record Requests =
  rq_served :: bool
  rq_count :: u32
  rq_senders :: "Sender list"
  rq_approvals :: "bytes set"
  rq_dropped :: u32
  rq_takes :: "bool option"
  rq_listing :: "Listing option"
  rq_began :: "instant option"
  rq_owed :: "bool option"

definition new_requests :: Requests where
  "new_requests = \<lparr>rq_served = False, rq_count = 0, rq_senders = [], rq_approvals = {},
     rq_dropped = 0, rq_takes = None, rq_listing = None, rq_began = None, rq_owed = None\<rparr>"

definition saturating_sub32 :: "u32 \<Rightarrow> u32 \<Rightarrow> u32" where
  "saturating_sub32 a b = (if b \<le> a then a - b else 0)"

section \<open>Asking for a listing\<close>

definition want :: "Requests \<Rightarrow> Requests" where
  "want r =
     (case rq_listing r of
        Some l \<Rightarrow>
          if ls_follow l then r\<lparr>rq_owed := Some True\<rparr>
          else if ls_next l = None then r\<lparr>rq_listing := Some (l\<lparr>ls_follow := True\<rparr>)\<rparr>
          else r\<lparr>rq_listing := None, rq_owed := Some True\<rparr>
      | None \<Rightarrow> r\<lparr>rq_listing := None, rq_owed := Some True\<rparr>)"

definition changed :: "Requests \<Rightarrow> u32 \<Rightarrow> Requests" where
  "changed r count =
     (let r' = r\<lparr>rq_count := count\<rparr>
      in case rq_listing r of
           None \<Rightarrow> r'
         | Some l \<Rightarrow>
             let r'' = r'\<lparr>rq_listing := Some (l\<lparr>ls_changed := True\<rparr>)\<rparr>
             in if ls_follow l then r''\<lparr>rq_owed := Some True\<rparr> else r'')"

definition look :: "Requests \<Rightarrow> Requests" where
  "look r = (if rq_listing r = None \<and> rq_owed r = None then r\<lparr>rq_owed := Some False\<rparr> else r)"

definition due :: "Requests \<Rightarrow> instant \<Rightarrow> instant option" where
  "due r now =
     (case rq_listing r of
        Some l \<Rightarrow> if ls_next l \<noteq> None \<and> ls_follow l then Some (ls_answered l + PAGE_GAP) else None
      | None \<Rightarrow> map_option (\<lambda>_. case rq_began r of None \<Rightarrow> now | Some b \<Rightarrow> b + LISTING_GAP) (rq_owed r))"

definition next_page :: "Requests \<Rightarrow> instant \<Rightarrow> Requests \<times> bytes option option" where
  "next_page r now =
     (case due r now of
        None \<Rightarrow> (r, None)
      | Some t \<Rightarrow>
          if t > now then (r, None)
          else (case rq_listing r of
              Some l \<Rightarrow> (r\<lparr>rq_listing := Some (l\<lparr>ls_next := None\<rparr>)\<rparr>, map_option Some (ls_next l))
            | None \<Rightarrow>
                (r\<lparr>rq_began := Some now,
                   rq_listing := Some \<lparr>ls_senders = [], ls_approvals = {}, ls_takes = None, ls_pages = 0,
                     ls_answered = now, ls_next = None,
                     ls_follow = (case rq_owed r of Some b \<Rightarrow> b | None \<Rightarrow> True), ls_changed = False\<rparr>,
                   rq_owed := None\<rparr>, Some None)))"

section \<open>A page\<close>

fun merge_messages :: "Waiting list \<Rightarrow> Waiting list \<Rightarrow> Waiting list" where
  "merge_messages held [] = held"
| "merge_messages held (m # ms) =
     merge_messages (if list_ex (\<lambda>w. wt_guid w = wt_guid m) held then held else held @ [m]) ms"

fun merge_sender :: "Sender list \<Rightarrow> Sender \<Rightarrow> Sender list" where
  "merge_sender [] s = [s]"
| "merge_sender (h # hs) s =
     (if sn_login h = sn_login s
      then h\<lparr>sn_messages := merge_messages (sn_messages h) (sn_messages s)\<rparr> # hs
      else h # merge_sender hs s)"

fun merge_senders :: "Sender list \<times> bytes set \<Rightarrow> Sender list \<Rightarrow> Sender list \<times> bytes set" where
  "merge_senders sa [] = sa"
| "merge_senders (held, approvals) (s # ss) =
     merge_senders (merge_sender held s, approvals - {sn_login s}) ss"

definition first_page :: "Requests \<Rightarrow> Listing \<Rightarrow> Page \<Rightarrow> u32 \<times> bool option" where
  "first_page r l p =
     (if ls_pages l = 0
      then (saturating_add32 (rq_dropped r) (case pg_dropped p of None \<Rightarrow> 0 | Some d \<Rightarrow> d), pg_takes p)
      else (rq_dropped r, ls_takes l))"

definition page :: "Requests \<Rightarrow> Page \<Rightarrow> instant \<Rightarrow> Requests \<times> bool" where
  "page r p now =
     (case rq_listing r of
        None \<Rightarrow> (r, False)
      | Some l \<Rightarrow>
          let (dropped, takes) = first_page r l p;
              (ss, aps) = merge_senders (ls_senders l, ls_approvals l) (pg_senders p);
              l' = l\<lparr>ls_answered := now, ls_takes := takes, ls_pages := ls_pages l + 1,
                     ls_senders := filter (\<lambda>s. sn_login s \<notin> set (pg_approvals p)) ss,
                     ls_approvals := aps \<union> set (pg_approvals p)\<rparr>;
              r' = r\<lparr>rq_dropped := dropped\<rparr>
          in if pg_cursor p \<noteq> None \<and> ls_pages l' < PAGE_BOUND
             then (r'\<lparr>rq_listing := Some (l'\<lparr>ls_next := pg_cursor p\<rparr>)\<rparr>, False)
             else (r'\<lparr>rq_listing := None,
                      rq_count := if ls_changed l' then rq_count r'
                        else if length (ls_senders l') < 2 ^ 32 then of_nat (length (ls_senders l'))
                        else 0xFFFFFFFF,
                      rq_senders := ls_senders l', rq_approvals := ls_approvals l',
                      rq_takes := ls_takes l'\<rparr>, True))"

definition released :: "Requests \<Rightarrow> bytes \<Rightarrow> Requests \<times> bool" where
  "released r login =
     (let ss = filter (\<lambda>s. sn_login s \<noteq> login) (rq_senders r);
          rel = (length ss < length (rq_senders r))
      in (r\<lparr>rq_senders := ss,
            rq_count := if rel then saturating_sub32 (rq_count r) 1 else rq_count r\<rparr>, rel))"

definition failed :: "Requests \<Rightarrow> Requests" where
  "failed r = r\<lparr>rq_listing := None\<rparr>"

section \<open>The connection's calls\<close>

datatype ReqEvent = Want | Changed u32 | Look | Next instant | PageArrived Page instant
  | Released bytes | Failed

datatype ReqOutput = AskPage instant "bytes option"

fun req_step :: "Requests \<Rightarrow> ReqEvent \<Rightarrow> Requests \<times> ReqOutput list" where
  "req_step r Want = (want r, [])"
| "req_step r (Changed n) = (changed r n, [])"
| "req_step r Look = (look r, [])"
| "req_step r (Next now) =
     (case next_page r now of (r', None) \<Rightarrow> (r', []) | (r', Some c) \<Rightarrow> (r', [AskPage now c]))"
| "req_step r (PageArrived p now) = (fst (page r p now), [])"
| "req_step r (Released login) = (fst (released r login), [])"
| "req_step r Failed = (failed r, [])"

end
