(* ===== verification/Msg_Requests_Props.thy ===== *)
theory Msg_Requests_Props
  imports Msg_Requests
begin

text \<open>
  Correctness of the message requests: a connection never asks the server faster than the pacing
  allows, whatever calls reach it, and what it holds is well formed: no login twice, and none both
  waiting and approved.  Both are interpretations of the machine interfaces of the prelude.
\<close>

section \<open>Well-formedness\<close>

definition senders_ok :: "Sender list \<Rightarrow> bytes set \<Rightarrow> bool" where
  "senders_ok ss aps \<longleftrightarrow> distinct (map sn_login ss) \<and> sn_login ` set ss \<inter> aps = {}"

definition listing_ok :: "Listing \<Rightarrow> bool" where
  "listing_ok l \<longleftrightarrow> senders_ok (ls_senders l) (ls_approvals l) \<and> ls_pages l < PAGE_BOUND \<and>
     (ls_next l \<noteq> None \<longrightarrow> 0 < ls_pages l)"

definition requests_ok :: "Requests \<Rightarrow> bool" where
  "requests_ok r \<longleftrightarrow> senders_ok (rq_senders r) (rq_approvals r) \<and> pred_option listing_ok (rq_listing r)"

lemma merge_sender_logins:
  "map sn_login (merge_sender ss s) =
     (if sn_login s \<in> sn_login ` set ss then map sn_login ss else map sn_login ss @ [sn_login s])"
  by (induction ss) auto

lemma merge_sender_ok:
  "senders_ok ss aps \<Longrightarrow> senders_ok (merge_sender ss s) (aps - {sn_login s})"
proof -
  assume ok: "senders_ok ss aps"
  have "sn_login ` set (merge_sender ss s) = insert (sn_login s) (sn_login ` set ss)"
    using arg_cong [OF merge_sender_logins [of ss s], of set] by auto
  with ok show ?thesis
    by (auto simp: senders_ok_def merge_sender_logins)
qed

lemma merge_senders_ok:
  "case_prod senders_ok sa \<Longrightarrow> case_prod senders_ok (merge_senders sa ss)"
  by (induction sa ss rule: merge_senders.induct) (simp_all add: merge_sender_ok)

lemma senders_ok_filter:
  "senders_ok ss aps \<Longrightarrow> senders_ok (filter P ss) aps"
  by (auto simp: senders_ok_def distinct_map_filter)

lemma senders_ok_approve:
  "senders_ok ss aps \<Longrightarrow> senders_ok (filter (\<lambda>s. sn_login s \<notin> A) ss) (aps \<union> A)"
  by (auto simp: senders_ok_def distinct_map_filter)

lemma page_ok: "requests_ok r \<Longrightarrow> requests_ok (fst (page r p now))"
proof (cases "rq_listing r")
  case (Some l)
  assume ok: "requests_ok r"
  obtain dr tk where fp: "first_page r l p = (dr, tk)" by (cases "first_page r l p")
  obtain ss aps where ms: "merge_senders (ls_senders l, ls_approvals l) (pg_senders p) = (ss, aps)"
    by (cases "merge_senders (ls_senders l, ls_approvals l) (pg_senders p)")
  have "senders_ok ss aps"
    using ok Some merge_senders_ok [of "(ls_senders l, ls_approvals l)" "pg_senders p"] ms
    by (simp add: requests_ok_def listing_ok_def)
  then have "senders_ok (filter (\<lambda>s. sn_login s \<notin> set (pg_approvals p)) ss) (aps \<union> set (pg_approvals p))"
    by (rule senders_ok_approve)
  with ok Some fp ms show ?thesis
    by (simp add: page_def requests_ok_def listing_ok_def Let_def)
qed (simp add: page_def)

lemma next_page_ok: "requests_ok r \<Longrightarrow> requests_ok (fst (next_page r now))"
  by (auto simp: next_page_def requests_ok_def listing_ok_def PAGE_BOUND_def
      split: option.splits) (simp_all add: senders_ok_def)

lemma req_step_ok: "requests_ok r \<Longrightarrow> requests_ok (fst (req_step r e))"
proof (cases e)
  case (Next now)
  assume "requests_ok r"
  with next_page_ok [of r now] Next show ?thesis by (auto split: prod.splits option.splits)
next
  case (PageArrived p now)
  assume "requests_ok r"
  with page_ok [of r p now] PageArrived show ?thesis by simp
qed (auto simp: requests_ok_def listing_ok_def want_def changed_def look_def released_def failed_def
    Let_def senders_ok_filter split: option.splits)

interpretation req: event_machine new_requests req_step requests_ok
  by unfold_locales
    (simp add: requests_ok_def senders_ok_def new_requests_def, rule req_step_ok)

section \<open>Pacing\<close>

text \<open>What an observer of the calls and the asks remembers: when the last listing was asked for, when
  the last page arrived, how many pages the current listing has asked for, whether an answer is
  outstanding, and whether every ask so far kept the pacing.\<close>

record ReqObs =
  ob_start :: "instant option"
  ob_arrived :: instant
  ob_asked :: nat
  ob_awaiting :: bool
  ob_ok :: bool

definition obs_init :: ReqObs where
  "obs_init = \<lparr>ob_start = None, ob_arrived = 0, ob_asked = 0, ob_awaiting = False, ob_ok = True\<rparr>"

fun obs_out :: "ReqObs \<Rightarrow> ReqOutput \<Rightarrow> ReqObs" where
  "obs_out m (AskPage t None) =
     m\<lparr>ob_start := Some t, ob_asked := 1, ob_awaiting := True,
       ob_ok := ob_ok m \<and> \<not> ob_awaiting m \<and>
         (case ob_start m of None \<Rightarrow> True | Some b \<Rightarrow> b + LISTING_GAP \<le> t)\<rparr>"
| "obs_out m (AskPage t (Some c)) =
     m\<lparr>ob_asked := ob_asked m + 1, ob_awaiting := True,
       ob_ok := ob_ok m \<and> \<not> ob_awaiting m \<and> ob_arrived m + PAGE_GAP \<le> t \<and> ob_asked m < PAGE_BOUND\<rparr>"

definition obs_in :: "ReqObs \<Rightarrow> ReqEvent \<Rightarrow> ReqObs" where
  "obs_in m e = (case e of
     PageArrived p t \<Rightarrow> m\<lparr>ob_arrived := t, ob_awaiting := False\<rparr>
   | Failed \<Rightarrow> m\<lparr>ob_awaiting := False\<rparr>
   | _ \<Rightarrow> m)"

definition req_obs :: "ReqObs \<Rightarrow> ReqEvent \<Rightarrow> ReqOutput list \<Rightarrow> ReqObs" where
  "req_obs m e outs = foldl obs_out (obs_in m e) outs"

definition obs_agree :: "Requests \<Rightarrow> ReqObs \<Rightarrow> bool" where
  "obs_agree r m \<longleftrightarrow> ob_ok m \<and> ob_start m = rq_began r \<and>
     (case rq_listing r of
        None \<Rightarrow> \<not> ob_awaiting m
      | Some l \<Rightarrow> (ob_awaiting m \<longleftrightarrow> ls_next l = None) \<and>
          ob_asked m \<le> (if ls_next l = None then ls_pages l + 1 else ls_pages l) \<and>
          (ls_next l \<noteq> None \<longrightarrow> ls_answered l = ob_arrived m))"

lemma obs_agree_page:
  assumes "obs_agree r m"
  shows "obs_agree (fst (page r p now)) (req_obs m (PageArrived p now) [])"
proof (cases "rq_listing r")
  case (Some l)
  obtain dr tk where "first_page r l p = (dr, tk)" by (cases "first_page r l p")
  moreover obtain ss aps where "merge_senders (ls_senders l, ls_approvals l) (pg_senders p) = (ss, aps)"
    by (cases "merge_senders (ls_senders l, ls_approvals l) (pg_senders p)")
  ultimately show ?thesis
    using assms Some
    by (auto simp: page_def obs_agree_def req_obs_def obs_in_def Let_def split: if_splits)
qed (use assms in \<open>simp add: page_def obs_agree_def req_obs_def obs_in_def\<close>)

lemma obs_agree_next:
  assumes ok: "requests_ok r" and ag: "obs_agree r m"
  shows "obs_agree (fst (req_step r (Next now))) (req_obs m (Next now) (snd (req_step r (Next now))))"
proof (cases "rq_listing r")
  case None
  with ag show ?thesis
    by (auto simp: next_page_def due_def obs_agree_def req_obs_def obs_in_def split: option.splits)
next
  case (Some l)
  with ok have "ls_pages l < PAGE_BOUND" by (simp add: requests_ok_def listing_ok_def)
  with ag Some show ?thesis
    by (auto simp: next_page_def due_def obs_agree_def req_obs_def obs_in_def)
qed

lemma obs_agree_step:
  assumes "requests_ok r" "obs_agree r m"
  shows "obs_agree (fst (req_step r e)) (req_obs m e (snd (req_step r e)))"
proof (cases e)
  case (Next now)
  then show ?thesis using obs_agree_next [OF assms] by simp
next
  case (PageArrived p now)
  then show ?thesis using obs_agree_page [OF assms(2)] by simp
qed (use assms(2) in \<open>auto simp: obs_agree_def req_obs_def obs_in_def want_def changed_def look_def
    released_def failed_def Let_def split: option.splits\<close>)

interpretation req_pace: monitored_machine new_requests req_step requests_ok obs_init req_obs obs_agree
  by unfold_locales
    (simp_all add: obs_agree_step, simp add: obs_agree_def obs_init_def new_requests_def)

text \<open>C13: whatever calls reach a connection, in whatever order, it paces its asks: two listings begin
  at least five seconds apart, a further page is asked for at least a second after the last one
  arrived, one ask is outstanding at a time, and a listing asks for at most sixteen pages.\<close>

theorem requests_paced:
  "ob_ok (snd (run_monitor req_step req_obs new_requests obs_init es))"
  using req_pace.agree_run [of es] by (simp add: obs_agree_def)

text \<open>after any calls, no login is held twice and none is both waiting and approved, in what the
  connection holds as in the listing it is gathering, and a listing under way has fewer than
  sixteen pages.\<close>

theorem requests_well_formed: "requests_ok (fst (run_machine req_step new_requests es))"
  by (rule req.inv_run)

text \<open>A page is asked for exactly when one is due: \<open>due\<close> names a time that has come, and then
  asking again at once asks for nothing.\<close>

theorem next_page_when_due:
  "(snd (next_page r now) \<noteq> None \<longleftrightarrow> (\<exists>t \<le> now. due r now = Some t)) \<and>
   snd (next_page (fst (next_page r now)) now) = None"
  by (auto simp: next_page_def due_def split: option.splits)

end
