(* ===== verification/Roster.thy ===== *)
theory Roster
  imports Hx_Text Msg_Requests
begin

text \<open>
  The friend family of a connection (crate \<open>gtkhx-core\<close>, \<open>messaging.rs\<close>): the roster, the state of each
  message sent, and the table of rosters by connection.

  The roster and presence states come from \<open>hxproto\<close>, which is not part of this repository: they are
  the type variables \<open>'rs\<close> and \<open>'ps\<close>, and the values the code names (\<open>RosterState::Removed\<close>,
  \<open>RosterState::PendingIn\<close>) are arguments of the operations that use them.  A reason code and an
  acknowledgement type are seen only through the tests the code makes on them.
\<close>

record ('rs, 'ps) Friend =
  fr_login :: bytes
  fr_nickname :: "string option"
  fr_state :: "'rs option"
  fr_presence :: 'ps
  fr_status :: "string option"
  fr_name :: "string option"
  fr_note :: "string option"

datatype Delivery = Sending | Sent | Queued | Requested | Delivered | Read | Failed

text \<open>What an IM Send's success says: its reason is \<open>OfflineQueued\<close>, \<open>Requested\<close>, or another or none.\<close>

definition delivery_sent :: "bool \<Rightarrow> bool \<Rightarrow> Delivery" where
  "delivery_sent offline_queued requested =
     (if offline_queued then Queued else if requested then Requested else Sent)"

definition delivery_acked :: "bool \<Rightarrow> Delivery" where
  "delivery_acked ack_read = (if ack_read then Read else Delivered)"

fun rank :: "Delivery \<Rightarrow> nat" where
  "rank Sending = 0"
| "rank Sent = 1"
| "rank Queued = 1"
| "rank Requested = 1"
| "rank Delivered = 2"
| "rank Read = 3"
| "rank Failed = 4"

record ('rs, 'ps) Roster =
  ro_entries :: "bytes \<Rightarrow> ('rs, 'ps) Friend option"
  ro_sent :: "Guid \<Rightarrow> (bytes \<times> Delivery) option"
  ro_presence :: "('ps \<times> string option) option"
  ro_requests :: Requests

definition new_roster :: "('rs, 'ps) Roster" where
  "new_roster = \<lparr>ro_entries = Map.empty, ro_sent = Map.empty, ro_presence = None,
     ro_requests = new_requests\<rparr>"

section \<open>Entries\<close>

definition replace :: "('rs, 'ps) Roster \<Rightarrow> ('rs, 'ps) Friend list \<Rightarrow> ('rs, 'ps) Roster" where
  "replace r fs = r\<lparr>ro_entries := foldl (\<lambda>m f. m(fr_login f \<mapsto> f)) Map.empty fs\<rparr>"

definition roster_entry :: "'rs \<Rightarrow> ('rs, 'ps) Roster \<Rightarrow> ('rs, 'ps) Friend \<Rightarrow> ('rs, 'ps) Roster" where
  "roster_entry removed r f =
     (if fr_state f = Some removed then r\<lparr>ro_entries := (ro_entries r)(fr_login f := None)\<rparr>
      else r\<lparr>ro_entries := (ro_entries r)(fr_login f \<mapsto> f)\<rparr>)"

definition friend_request :: "'rs \<Rightarrow> ('rs, 'ps) Roster \<Rightarrow> ('rs, 'ps) Friend \<Rightarrow> ('rs, 'ps) Roster" where
  "friend_request pending_in r f =
     r\<lparr>ro_entries := (ro_entries r)(fr_login f \<mapsto> f\<lparr>fr_state := Some pending_in\<rparr>)\<rparr>"

definition presence_changed ::
  "('rs, 'ps) Roster \<Rightarrow> ('rs, 'ps) Friend \<Rightarrow> ('rs, 'ps) Roster \<times> bool" where
  "presence_changed r f =
     (case ro_entries r (fr_login f) of
        None \<Rightarrow> (r, False)
      | Some e \<Rightarrow>
          (r\<lparr>ro_entries := (ro_entries r)(fr_login f \<mapsto>
               e\<lparr>fr_presence := fr_presence f, fr_status := fr_status f\<rparr>)\<rparr>, True))"

text \<open>\<open>s.trim().is_empty()\<close>: nothing but white space.\<close>

definition blank :: "string \<Rightarrow> bool" where
  "blank s \<longleftrightarrow> split_whitespace s = []"

definition set_own_presence ::
  "('rs, 'ps) Roster \<Rightarrow> 'ps \<Rightarrow> string option \<Rightarrow> ('rs, 'ps) Roster" where
  "set_own_presence r state status =
     (let status' = (case status of
          Some s \<Rightarrow> if blank s then None else Some s
        | None \<Rightarrow> (case ro_presence r of Some (_, s) \<Rightarrow> s | None \<Rightarrow> None))
      in r\<lparr>ro_presence := Some (state, status')\<rparr>)"

section \<open>Messages sent\<close>

definition sending :: "('rs, 'ps) Roster \<Rightarrow> Guid \<Rightarrow> bytes \<Rightarrow> ('rs, 'ps) Roster" where
  "sending r guid to = r\<lparr>ro_sent := (ro_sent r)(guid \<mapsto> (to, Sending))\<rparr>"

definition delivered ::
  "('rs, 'ps) Roster \<Rightarrow> Guid \<Rightarrow> bytes option \<Rightarrow> Delivery \<Rightarrow> ('rs, 'ps) Roster \<times> (bytes \<times> Delivery) option" where
  "delivered r guid from now =
     (case ro_sent r guid of
        None \<Rightarrow> (r, None)
      | Some (to, was) \<Rightarrow>
          if (case from of Some f \<Rightarrow> f \<noteq> to | None \<Rightarrow> False) \<or> rank now \<le> rank was then (r, None)
          else (if now = Read \<or> now = Failed
                then r\<lparr>ro_sent := (ro_sent r)(guid := None)\<rparr>
                else r\<lparr>ro_sent := (ro_sent r)(guid \<mapsto> (to, now))\<rparr>, Some (to, now)))"

definition delivery :: "('rs, 'ps) Roster \<Rightarrow> Guid \<Rightarrow> Delivery option" where
  "delivery r guid = map_option snd (ro_sent r guid)"

section \<open>The table of rosters\<close>

type_synonym ('rs, 'ps) Rosters = "nat \<Rightarrow> ('rs, 'ps) Roster option"

definition with_roster :: "('rs, 'ps) Rosters \<Rightarrow> nat \<Rightarrow> (('rs, 'ps) Roster \<Rightarrow> 'r) \<Rightarrow> 'r" where
  "with_roster rs htlc f = f (case rs htlc of Some r \<Rightarrow> r | None \<Rightarrow> new_roster)"

definition with_roster_mut ::
  "('rs, 'ps) Rosters \<Rightarrow> nat \<Rightarrow> (('rs, 'ps) Roster \<Rightarrow> ('rs, 'ps) Roster \<times> 'r) \<Rightarrow> ('rs, 'ps) Rosters \<times> 'r" where
  "with_roster_mut rs htlc f =
     (case f (with_roster rs htlc id) of (r', x) \<Rightarrow> (rs(htlc \<mapsto> r'), x))"

text \<open>\<open>forget\<close>: the connection's roster goes; the messages without an answer are reported, as a set
  since the order of a \<open>HashMap\<close> is unspecified.\<close>

definition unanswered :: "('rs, 'ps) Roster \<Rightarrow> (Guid \<times> bytes) set" where
  "unanswered r = {(g, to). ro_sent r g = Some (to, Sending)}"

definition forget :: "('rs, 'ps) Rosters \<Rightarrow> nat \<Rightarrow> ('rs, 'ps) Rosters \<times> (Guid \<times> bytes) set" where
  "forget rs htlc =
     (rs(htlc := None), case rs htlc of None \<Rightarrow> {} | Some r \<Rightarrow> unanswered r)"

section \<open>The life of a message\<close>

datatype SentEvent = Sends Guid bytes | Receipt Guid "bytes option" Delivery

datatype SentOutput = Reports Guid bytes Delivery

fun sent_step :: "('rs, 'ps) Roster \<Rightarrow> SentEvent \<Rightarrow> ('rs, 'ps) Roster \<times> SentOutput list" where
  "sent_step r (Sends g to) = (sending r g to, [])"
| "sent_step r (Receipt g from now) =
     (case delivered r g from now of
        (r', None) \<Rightarrow> (r', [])
      | (r', Some (to, d)) \<Rightarrow> (r', [Reports g to d]))"

text \<open>The observer: for each message sent, whom it went to and the rank last reported; and whether
  every report so far was about a message sent, to the one it went to, and a step forward.\<close>

record SentObs =
  so_sent :: "Guid \<Rightarrow> (bytes \<times> nat) option"
  so_ok :: bool

definition sent_obs_init :: SentObs where
  "sent_obs_init = \<lparr>so_sent = Map.empty, so_ok = True\<rparr>"

fun sent_out :: "SentObs \<Rightarrow> SentOutput \<Rightarrow> SentObs" where
  "sent_out m (Reports g to d) =
     m\<lparr>so_sent := (so_sent m)(g \<mapsto> (to, rank d)),
       so_ok := so_ok m \<and> (case so_sent m g of None \<Rightarrow> False | Some (t, k) \<Rightarrow> t = to \<and> k < rank d)\<rparr>"

fun sent_obs :: "SentObs \<Rightarrow> SentEvent \<Rightarrow> SentOutput list \<Rightarrow> SentObs" where
  "sent_obs m (Sends g to) outs = foldl sent_out (m\<lparr>so_sent := (so_sent m)(g \<mapsto> (to, 0))\<rparr>) outs"
| "sent_obs m (Receipt g from now) outs = foldl sent_out m outs"

definition sent_agree :: "('rs, 'ps) Roster \<Rightarrow> SentObs \<Rightarrow> bool" where
  "sent_agree r m \<longleftrightarrow> so_ok m \<and>
     (\<forall>g to d. ro_sent r g = Some (to, d) \<longrightarrow> so_sent m g = Some (to, rank d))"

lemma sent_agree_step:
  "sent_agree r m \<Longrightarrow> sent_agree (fst (sent_step r e)) (sent_obs m e (snd (sent_step r e)))"
  by (cases e) (auto simp: sent_agree_def sending_def delivered_def split: option.splits if_splits)

definition sent_inv :: "('rs, 'ps) Roster \<Rightarrow> bool" where
  "sent_inv r \<longleftrightarrow> (\<forall>g to d. ro_sent r g = Some (to, d) \<longrightarrow> d \<noteq> Read \<and> d \<noteq> Failed)"

lemma sent_inv_step: "sent_inv r \<Longrightarrow> sent_inv (fst (sent_step r e))"
  by (cases e) (auto simp: sent_inv_def sending_def delivered_def split: option.splits if_splits)

interpretation deliveries: event_machine new_roster sent_step sent_inv
  by unfold_locales (simp add: sent_inv_def new_roster_def, rule sent_inv_step)

interpretation deliveries_obs: monitored_machine new_roster sent_step sent_inv sent_obs_init sent_obs sent_agree
  by unfold_locales (simp add: sent_agree_def new_roster_def sent_obs_init_def, rule sent_agree_step)

text \<open>receipts only move a message forward: over any sequence of sends and receipts, whatever
  their order or origin, each report is about a message that was sent, names the one it went to, and
  ranks strictly above the last report since the send.\<close>

theorem deliveries_advance:
  "so_ok (snd (run_monitor sent_step sent_obs (new_roster :: ('rs, 'ps) Roster) sent_obs_init es))"
proof -
  have "sent_agree (fst (run_monitor sent_step sent_obs (new_roster :: ('rs, 'ps) Roster) sent_obs_init es))
      (snd (run_monitor sent_step sent_obs (new_roster :: ('rs, 'ps) Roster) sent_obs_init es))"
    by (rule deliveries_obs.agree_run)
  then show ?thesis by (simp add: sent_agree_def)
qed

text \<open>a connection that goes reports exactly the messages nobody answered, and is forgotten: what
  is held of it afterwards is a fresh roster, and every other connection's is untouched.\<close>

theorem forget_reports_unanswered:
  "forget (fst (with_roster_mut rs htlc (\<lambda>r. (sending r g to, ())))) htlc =
     (rs(htlc := None), insert (g, to) {p \<in> with_roster rs htlc unanswered. fst p \<noteq> g}) \<and>
   with_roster (fst (forget rs htlc)) htlc id = new_roster \<and>
   (other \<noteq> htlc \<longrightarrow> with_roster (fst (forget rs htlc)) other f = with_roster rs other f)"
  by (auto simp: forget_def with_roster_mut_def with_roster_def unanswered_def sending_def new_roster_def
      split: option.splits if_splits)

theorem forget_reports_unanswered_witness:
  "with_roster (fst (forget (\<lambda>_. None :: (nat, nat) Roster option) 1)) 2 id = new_roster"
  using forget_reports_unanswered [of "\<lambda>_. None :: (nat, nat) Roster option" 1 "[]" "[]" 2 id]
  by (simp add: with_roster_def)

end
