(* ===== verification/Session_Stores.thy ===== *)
theory Session_Stores
  imports Hx_Prelude "HOL-Library.Multiset"
begin

text \<open>
  The stores a session keeps (crate \<open>gtkhx-core\<close>): the conversation registry
  (\<open>session/chat_registry.rs\<close>), a vector of cids with opaque pointers it owns, and the inline-media
  table (\<open>boxed/media_table.rs\<close>), which hands out tokens.

  A pointer is a number, 0 the null pointer.  What the destroy callback is called on is an output.
  \<open>keyed_store\<close> is the contract of a store of values by key; it is interpreted on both.
\<close>

section \<open>The contract\<close>

datatype ('k, 'v) StoreOp = Put 'k 'v | Del 'k

fun map_op :: "('k \<Rightarrow> 'v option) \<Rightarrow> ('k, 'v) StoreOp \<Rightarrow> ('k \<Rightarrow> 'v option)" where
  "map_op m (Put k v) = m(k \<mapsto> v)"
| "map_op m (Del k) = m(k := None)"

locale keyed_store =
  fixes empty_s :: 's
    and look_s :: "'s \<Rightarrow> 'k \<Rightarrow> 'v option"
    and put_s :: "'k \<Rightarrow> 'v \<Rightarrow> 's \<Rightarrow> 's"
    and del_s :: "'k \<Rightarrow> 's \<Rightarrow> 's"
    and ok_s :: "'s \<Rightarrow> bool"
  assumes ok_empty: "ok_s empty_s"
    and ok_put: "ok_s s \<Longrightarrow> ok_s (put_s k v s)"
    and ok_del: "ok_s s \<Longrightarrow> ok_s (del_s k s)"
    and look_empty: "look_s empty_s k = None"
    and look_put: "ok_s s \<Longrightarrow> look_s (put_s k v s) k' = (if k' = k then Some v else look_s s k')"
    and look_del: "ok_s s \<Longrightarrow> look_s (del_s k s) k' = (if k' = k then None else look_s s k')"
begin

fun op_s :: "'s \<Rightarrow> ('k, 'v) StoreOp \<Rightarrow> 's" where
  "op_s s (Put k v) = put_s k v s"
| "op_s s (Del k) = del_s k s"

lemma op_ok: "ok_s s \<Longrightarrow> ok_s (op_s s p)"
  by (cases p) (simp_all add: ok_put ok_del)

lemma op_refines: "ok_s s \<Longrightarrow> look_s (op_s s p) = map_op (look_s s) p"
  by (cases p) (auto simp: fun_eq_iff look_put look_del)

lemma ops_refine: "ok_s s \<Longrightarrow> look_s (foldl op_s s ps) = foldl map_op (look_s s) ps"
  by (induction ps arbitrary: s) (simp_all add: op_ok op_refines)

lemma ops_refine_map: "look_s (foldl op_s empty_s ps) = foldl map_op Map.empty ps"
proof -
  have "look_s empty_s = Map.empty" by (simp add: fun_eq_iff look_empty)
  with ops_refine [OF ok_empty, of ps] show ?thesis by simp
qed

end

section \<open>The conversation registry\<close>

type_synonym ptr = nat

record HxChatRegistry =
  entries :: "(u32 \<times> ptr) list"
  has_destroy :: bool

definition hx_chats_new :: "bool \<Rightarrow> HxChatRegistry" where
  "hx_chats_new destroy = \<lparr>entries = [], has_destroy = destroy\<rparr>"

fun position_in :: "u32 \<Rightarrow> (u32 \<times> ptr) list \<Rightarrow> nat option" where
  "position_in cid [] = None"
| "position_in cid ((c, p) # es) = (if c = cid then Some 0 else map_option Suc (position_in cid es))"

definition position :: "HxChatRegistry \<Rightarrow> u32 \<Rightarrow> nat option" where
  "position reg cid = position_in cid (entries reg)"

definition destroy_ptr :: "HxChatRegistry \<Rightarrow> ptr \<Rightarrow> ptr list" where
  "destroy_ptr reg p = (if has_destroy reg \<and> p \<noteq> 0 then [p] else [])"

definition hx_chats_free :: "HxChatRegistry \<Rightarrow> ptr list" where
  "hx_chats_free reg = concat (map (\<lambda>(c, p). destroy_ptr reg p) (entries reg))"

definition hx_chats_insert :: "HxChatRegistry \<Rightarrow> u32 \<Rightarrow> ptr \<Rightarrow> HxChatRegistry \<times> ptr list" where
  "hx_chats_insert reg cid chat =
     (case position reg cid of
        Some pos \<Rightarrow>
          let old = snd (entries reg ! pos)
          in (reg\<lparr>entries := (entries reg)[pos := (fst (entries reg ! pos), chat)]\<rparr>,
              if old \<noteq> chat then destroy_ptr reg old else [])
      | None \<Rightarrow> (reg\<lparr>entries := entries reg @ [(cid, chat)]\<rparr>, []))"

definition hx_chats_remove :: "HxChatRegistry \<Rightarrow> u32 \<Rightarrow> HxChatRegistry \<times> ptr list" where
  "hx_chats_remove reg cid =
     (case position reg cid of
        Some pos \<Rightarrow>
          (reg\<lparr>entries := take pos (entries reg) @ drop (Suc pos) (entries reg)\<rparr>,
           destroy_ptr reg (snd (entries reg ! pos)))
      | None \<Rightarrow> (reg, []))"

definition hx_chats_lookup :: "HxChatRegistry \<Rightarrow> u32 \<Rightarrow> ptr" where
  "hx_chats_lookup reg cid =
     (case position reg cid of Some pos \<Rightarrow> snd (entries reg ! pos) | None \<Rightarrow> 0)"

definition hx_chats_count :: "HxChatRegistry \<Rightarrow> u32" where
  "hx_chats_count reg = of_nat (length (entries reg))"

definition hx_chats_get_at :: "HxChatRegistry \<Rightarrow> u32 \<Rightarrow> ptr" where
  "hx_chats_get_at reg i = (case get_at (entries reg) (unat i) of Some (_, p) \<Rightarrow> p | None \<Rightarrow> 0)"

definition hx_chats_cid_at :: "HxChatRegistry \<Rightarrow> u32 \<Rightarrow> u32" where
  "hx_chats_cid_at reg i = (case get_at (entries reg) (unat i) of Some (c, _) \<Rightarrow> c | None \<Rightarrow> 0)"

definition cids_ok :: "HxChatRegistry \<Rightarrow> bool" where
  "cids_ok reg \<longleftrightarrow> distinct (map fst (entries reg))"

lemma position_in_Some:
  "position_in cid es = Some pos \<Longrightarrow> pos < length es \<and> fst (es ! pos) = cid"
  by (induction cid es arbitrary: pos rule: position_in.induct) (auto split: if_splits)

lemma position_in_None: "position_in cid es = None \<longleftrightarrow> cid \<notin> fst ` set es"
  by (induction cid es rule: position_in.induct) auto

lemma position_in_map_of:
  "map_of es cid = map_option (\<lambda>pos. snd (es ! pos)) (position_in cid es)"
  by (induction cid es rule: position_in.induct) (auto simp: option.map_comp comp_def)

definition chats_map :: "HxChatRegistry \<Rightarrow> u32 \<Rightarrow> ptr option" where
  "chats_map reg = map_of (entries reg)"

lemma update_map_of:
  "distinct (map fst es) \<Longrightarrow> pos < length es \<Longrightarrow>
   map_of (es[pos := (fst (es ! pos), v)]) = (map_of es)(fst (es ! pos) \<mapsto> v)"
proof (induction es arbitrary: pos)
  case (Cons e es)
  then show ?case by (cases pos; cases e) (auto simp: fun_eq_iff)
qed simp

lemma remove_map_of:
  "distinct (map fst es) \<Longrightarrow> pos < length es \<Longrightarrow>
   map_of (take pos es @ drop (Suc pos) es) = (map_of es)(fst (es ! pos) := None)"
proof (induction es arbitrary: pos)
  case (Cons e es)
  obtain a b where e: "e = (a, b)" by (cases e)
  show ?case
  proof (cases pos)
    case 0
    have "map_of es a = None" using Cons.prems e by (simp add: map_of_eq_None_iff)
    with 0 e show ?thesis by (auto simp: fun_eq_iff)
  next
    case (Suc k)
    then have "fst (es ! k) \<in> fst ` set es" using Cons.prems by simp
    with Suc e Cons.prems Cons.IH [of k] show ?thesis by (auto simp: fun_eq_iff)
  qed
qed simp

lemma chats_insert_map:
  "cids_ok reg \<Longrightarrow> chats_map (fst (hx_chats_insert reg cid chat)) = (chats_map reg)(cid \<mapsto> chat)"
proof (cases "position reg cid")
  case None
  assume "cids_ok reg"
  from None have "map_of (entries reg) cid = None"
    by (simp add: position_def position_in_None map_of_eq_None_iff)
  with None show ?thesis
    by (auto simp: hx_chats_insert_def chats_map_def fun_eq_iff map_add_def split: option.splits)
next
  case (Some pos)
  assume "cids_ok reg"
  with Some position_in_Some [of cid "entries reg" pos] update_map_of [of "entries reg" pos chat]
  show ?thesis by (simp add: hx_chats_insert_def chats_map_def position_def cids_ok_def Let_def)
qed

lemma chats_remove_map:
  "cids_ok reg \<Longrightarrow> chats_map (fst (hx_chats_remove reg cid)) = (chats_map reg)(cid := None)"
proof (cases "position reg cid")
  case None
  then have "map_of (entries reg) cid = None"
    by (simp add: position_def position_in_None map_of_eq_None_iff)
  with None show ?thesis by (auto simp: hx_chats_remove_def chats_map_def fun_eq_iff)
next
  case (Some pos)
  assume "cids_ok reg"
  with Some position_in_Some [of cid "entries reg" pos] remove_map_of [of "entries reg" pos]
  show ?thesis by (simp add: hx_chats_remove_def chats_map_def position_def cids_ok_def)
qed

lemma chats_insert_ok: "cids_ok reg \<Longrightarrow> cids_ok (fst (hx_chats_insert reg cid chat))"
proof (cases "position reg cid")
  case None
  assume "cids_ok reg"
  moreover from None have "cid \<notin> fst ` set (entries reg)"
    by (simp add: position_def position_in_None)
  ultimately show ?thesis using None by (auto simp: hx_chats_insert_def cids_ok_def)
next
  case (Some pos)
  assume "cids_ok reg"
  with Some position_in_Some [of cid "entries reg" pos] show ?thesis
    by (simp add: hx_chats_insert_def cids_ok_def position_def Let_def map_update)
      (metis list_update_id nth_map)
qed

lemma chats_remove_ok: "cids_ok reg \<Longrightarrow> cids_ok (fst (hx_chats_remove reg cid))"
proof (cases "position reg cid")
  case (Some pos)
  assume ok: "cids_ok reg"
  have "set (drop (Suc pos) (map fst (entries reg))) \<subseteq> set (drop pos (map fst (entries reg)))"
    by (rule set_drop_subset_set_drop) simp
  with ok have "distinct (take pos (map fst (entries reg)) @ drop (Suc pos) (map fst (entries reg)))"
    using set_take_disj_set_drop_if_distinct [of "map fst (entries reg)" pos "Suc pos"]
    by (simp add: cids_ok_def)
  with Some show ?thesis by (simp add: hx_chats_remove_def cids_ok_def take_map drop_map)
qed (simp add: hx_chats_remove_def)

interpretation chats: keyed_store "hx_chats_new d" chats_map
  "\<lambda>cid chat reg. fst (hx_chats_insert reg cid chat)" "\<lambda>cid reg. fst (hx_chats_remove reg cid)" cids_ok
  by unfold_locales
    (simp_all add: chats_insert_map chats_remove_map chats_insert_ok chats_remove_ok,
     simp_all add: hx_chats_new_def cids_ok_def chats_map_def)

section \<open>Ownership of conversations\<close>

datatype ChatOp = Insert u32 ptr | Remove u32

fun chat_op :: "HxChatRegistry \<Rightarrow> ChatOp \<Rightarrow> HxChatRegistry \<times> ptr list" where
  "chat_op reg (Insert cid p) = hx_chats_insert reg cid p"
| "chat_op reg (Remove cid) = hx_chats_remove reg cid"

fun inserted :: "ChatOp list \<Rightarrow> ptr list" where
  "inserted [] = []"
| "inserted (Insert cid p # ops) = p # inserted ops"
| "inserted (Remove cid # ops) = inserted ops"

definition held :: "HxChatRegistry \<Rightarrow> ptr multiset" where
  "held reg = mset (map snd (entries reg))"

lemma held_update:
  "pos < length es \<Longrightarrow>
   mset (map snd (es[pos := (c, p)])) + {#snd (es ! pos)#} = mset (map snd es) + {#p#}"
  by (induction es arbitrary: pos) (auto simp: less_Suc_eq_0_disj split: nat.splits)

lemma held_remove:
  "pos < length es \<Longrightarrow>
   mset (map snd (take pos es @ drop (Suc pos) es)) + {#snd (es ! pos)#} = mset (map snd es)"
  by (induction es arbitrary: pos) (auto simp: less_Suc_eq_0_disj)

lemma held_nth: "pos < length (entries reg) \<Longrightarrow> snd (entries reg ! pos) \<in># held reg"
  by (simp add: held_def)

lemma chat_op_balance:
  assumes d: "has_destroy reg" and z: "0 \<notin># held reg"
    and fresh: "set (inserted [op]) \<inter> set_mset (held reg) = {}"
  shows "mset (snd (chat_op reg op)) + held (fst (chat_op reg op)) = held reg + mset (inserted [op])"
    and "has_destroy (fst (chat_op reg op))"
proof -
  have "mset (snd (chat_op reg op)) + held (fst (chat_op reg op)) = held reg + mset (inserted [op]) \<and>
      has_destroy (fst (chat_op reg op))"
  proof (cases op)
    case (Insert cid p)
    show ?thesis
    proof (cases "position reg cid")
      case None
      with Insert d show ?thesis by (simp add: hx_chats_insert_def held_def)
    next
      case (Some pos)
      then have pos: "pos < length (entries reg)"
        using position_in_Some by (simp add: position_def)
      have "snd (entries reg ! pos) \<noteq> 0" using held_nth [OF pos] z by metis
      moreover have "snd (entries reg ! pos) \<noteq> p" using held_nth [OF pos] fresh Insert by auto
      moreover note pos
      ultimately show ?thesis
        using Insert Some d held_update [OF pos, of "fst (entries reg ! pos)" p]
        by (simp add: hx_chats_insert_def held_def destroy_ptr_def Let_def add.commute)
    qed
  next
    case (Remove cid)
    show ?thesis
    proof (cases "position reg cid")
      case None
      with Remove d show ?thesis by (simp add: hx_chats_remove_def)
    next
      case (Some pos)
      then have pos: "pos < length (entries reg)"
        using position_in_Some by (simp add: position_def)
      have "snd (entries reg ! pos) \<noteq> 0" using held_nth [OF pos] z by metis
      with Remove Some d held_remove [OF pos] show ?thesis
        by (simp add: hx_chats_remove_def held_def destroy_ptr_def add.commute)
    qed
  qed
  then show "mset (snd (chat_op reg op)) + held (fst (chat_op reg op)) = held reg + mset (inserted [op])"
    and "has_destroy (fst (chat_op reg op))" by simp_all
qed

lemma inserted_Cons: "inserted (op # ops) = inserted [op] @ inserted ops"
  by (cases op) simp_all

lemma chats_free_held:
  "has_destroy reg \<Longrightarrow> 0 \<notin># held reg \<Longrightarrow> mset (hx_chats_free reg) = held reg"
proof -
  have "True \<Longrightarrow> 0 \<notin> snd ` set es \<Longrightarrow>
      mset (concat (map (\<lambda>(c, p). if True \<and> p \<noteq> 0 then [p] else []) es)) = mset (map snd es)"
    for es :: "(u32 \<times> ptr) list"
    by (induction es) auto
  then show "has_destroy reg \<Longrightarrow> 0 \<notin># held reg \<Longrightarrow> mset (hx_chats_free reg) = held reg"
    by (simp add: hx_chats_free_def destroy_ptr_def held_def)
qed

lemma chats_run_balance:
  assumes "has_destroy reg" "0 \<notin># held reg" "0 \<notin> set (inserted ops)" "distinct (inserted ops)"
    "set (inserted ops) \<inter> set_mset (held reg) = {}"
  shows "mset (snd (run_machine chat_op reg ops)) + mset (hx_chats_free (fst (run_machine chat_op reg ops))) =
    held reg + mset (inserted ops)"
  using assms
proof (induction ops arbitrary: reg)
  case Nil
  then show ?case by (simp add: chats_free_held)
next
  case (Cons op ops)
  let ?reg = "fst (chat_op reg op)"
  note ins = inserted_Cons [of op ops]
  have bal: "mset (snd (chat_op reg op)) + held ?reg = held reg + mset (inserted [op])" "has_destroy ?reg"
    using chat_op_balance [of reg op] Cons.prems ins by auto
  have "held ?reg \<subseteq># held reg + mset (inserted [op])"
    by (simp add: bal(1) [symmetric])
  then have sub: "set_mset (held ?reg) \<subseteq> set_mset (held reg) \<union> set (inserted [op])"
    by (metis set_mset_mono set_mset_mset set_mset_union)
  have "mset (snd (run_machine chat_op ?reg ops)) + mset (hx_chats_free (fst (run_machine chat_op ?reg ops))) =
      held ?reg + mset (inserted ops)"
    using Cons.prems ins sub bal(2) by (intro Cons.IH) auto
  with bal(1) ins show ?case
    by (simp add: case_prod_unfold Let_def) (metis add.assoc)
qed



fun store_ops :: "ChatOp list \<Rightarrow> (u32, ptr) StoreOp list" where
  "store_ops [] = []"
| "store_ops (Insert cid p # ops) = Put cid p # store_ops ops"
| "store_ops (Remove cid # ops) = Del cid # store_ops ops"

lemma run_chats_store:
  "fst (run_machine chat_op reg ops) = foldl chats.op_s reg (store_ops ops)"
  by (induction ops arbitrary: reg rule: store_ops.induct)
    (simp_all add: case_prod_unfold Let_def)

lemma chats_lookup_map: "hx_chats_lookup reg cid = (case chats_map reg cid of Some p \<Rightarrow> p | None \<Rightarrow> 0)"
  by (simp add: hx_chats_lookup_def chats_map_def position_def position_in_map_of split: option.splits)

text \<open>the registry behaves as a map from cids: after any sequence of inserts and removals a lookup
  gives the pointer last inserted for the cid, and null where there is none.\<close>

theorem chats_refine_map:
  "hx_chats_lookup (fst (run_machine chat_op (hx_chats_new d) ops)) cid =
     (case foldl map_op Map.empty (store_ops ops) cid of Some p \<Rightarrow> p | None \<Rightarrow> 0)"
  unfolding chats_lookup_map run_chats_store by (simp only: chats.ops_refine_map)

section \<open>The inline-media table\<close>

text \<open>The table of one chat; \<open>'m\<close> stands for the copied \<open>HxChatMedia\<close>.  An entry that is displaced or
  dropped is freed, which is the second component of \<open>register_media\<close> and \<open>drop_media\<close>.\<close>

record 'm MediaTable =
  handles :: "u32 \<Rightarrow> 'm option"
  next_id :: u32

definition new_media :: "'m MediaTable" where
  "new_media = \<lparr>handles = Map.empty, next_id = 0\<rparr>"

definition register_media :: "'m MediaTable \<Rightarrow> 'm \<Rightarrow> 'm MediaTable \<times> 'm list \<times> u32" where
  "register_media t src =
     (if next_id t = 0xFFFFFFFF then (t, [], 0)
      else let new_id = next_id t + 1
        in (t\<lparr>next_id := new_id, handles := (handles t)(new_id \<mapsto> src)\<rparr>,
            case handles t new_id of Some old \<Rightarrow> [old] | None \<Rightarrow> [], new_id))"

definition lookup_media :: "'m MediaTable \<Rightarrow> u32 \<Rightarrow> 'm option" where
  "lookup_media t token = handles t token"

definition drop_media :: "'m MediaTable \<Rightarrow> 'm set" where
  "drop_media t = ran (handles t)"

fun register_all :: "'m MediaTable \<Rightarrow> 'm list \<Rightarrow> 'm MediaTable \<times> u32 list" where
  "register_all t [] = (t, [])"
| "register_all t (m # ms) =
     (case register_media t m of (t', _, token) \<Rightarrow>
        case register_all t' ms of (t'', tokens) \<Rightarrow> (t'', token # tokens))"

lemma register_media_small:
  assumes "unat (next_id t) + 1 < 2 ^ 32"
  shows "fst (register_media t m) = t\<lparr>next_id := next_id t + 1, handles := (handles t)(next_id t + 1 \<mapsto> m)\<rparr>"
    and "snd (snd (register_media t m)) = next_id t + 1"
    and "unat (next_id t + 1) = unat (next_id t) + 1"
proof -
  have "next_id t \<noteq> 0xFFFFFFFF" using assms by auto
  then show "fst (register_media t m) = t\<lparr>next_id := next_id t + 1, handles := (handles t)(next_id t + 1 \<mapsto> m)\<rparr>"
    and "snd (snd (register_media t m)) = next_id t + 1"
    by (simp_all add: register_media_def Let_def)
  show "unat (next_id t + 1) = unat (next_id t) + 1"
    using assms by (simp add: unat_word_ariths)
qed

lemma register_all_tokens:
  assumes "unat (next_id t) + length ms < 2 ^ 32"
  shows "snd (register_all t ms) = map (\<lambda>i. next_id t + of_nat (Suc i)) [0..<length ms] \<and>
    (\<forall>k. unat k \<le> unat (next_id t) \<longrightarrow> lookup_media (fst (register_all t ms)) k = lookup_media t k) \<and>
    (\<forall>i < length ms. lookup_media (fst (register_all t ms)) (next_id t + of_nat (Suc i)) = Some (ms ! i))"
  using assms
proof (induction ms arbitrary: t)
  case (Cons m ms)
  let ?t = "fst (register_media t m)"
  from Cons.prems have small: "unat (next_id t) + 1 < 2 ^ 32" by simp
  note reg = register_media_small(1,2) [OF small, of m] register_media_small(3) [OF small]
  have nid: "next_id ?t = next_id t + 1" "unat (next_id ?t) = unat (next_id t) + 1"
    using reg by simp_all
  with Cons.prems have "unat (next_id ?t) + length ms < 2 ^ 32" by simp
  note IH = Cons.IH [OF this]
  have split: "register_all t (m # ms) =
      (fst (register_all ?t ms), (next_id t + 1) # snd (register_all ?t ms))"
    using reg(2) by (simp add: case_prod_unfold)
  have "map (\<lambda>i. next_id t + of_nat (Suc i)) [0..<Suc (length ms)] =
      (next_id t + 1) # map (\<lambda>i. next_id ?t + of_nat (Suc i)) [0..<length ms]"
    unfolding upt_conv_Cons [OF zero_less_Suc] map_Suc_upt [symmetric]
    by (simp add: nid add.assoc)
  moreover have "lookup_media ?t k = lookup_media t k" if "unat k \<le> unat (next_id t)" for k
    using that reg nid by (auto simp: lookup_media_def)
  moreover have "lookup_media (fst (register_all ?t ms)) (next_id t + 1) = Some m"
    using IH reg nid by (simp add: lookup_media_def)
  ultimately show ?case
    using IH nid unfolding split by (auto simp: less_Suc_eq_0_disj add.assoc)
qed (simp add: lookup_media_def)

text \<open>inline-media tokens stay valid: registering media on a fresh table hands out the tokens
  1, 2, 3 and so on, none of them the reserved 0, and each keeps naming what was registered under it.\<close>

theorem media_tokens_valid:
  assumes "length ms < 2 ^ 32" "i < length ms"
  shows "snd (register_all new_media ms) ! i = of_nat (Suc i) \<and>
    snd (register_all new_media ms) ! i \<noteq> 0 \<and>
    lookup_media (fst (register_all new_media ms)) (snd (register_all new_media ms) ! i) = Some (ms ! i)"
proof -
  have "unat (next_id (new_media :: 'a MediaTable)) + length ms < 2 ^ 32"
    using assms by (simp add: new_media_def)
  note all = register_all_tokens [OF this]
  have "unat (of_nat (Suc i) :: u32) = Suc i"
    using assms by (intro unat_of_nat_small) simp
  then have "(of_nat (Suc i) :: u32) \<noteq> 0" by (metis nat.simps(3) unat_0)
  with all assms show ?thesis by (simp add: new_media_def del: of_nat_Suc)
qed

theorem media_tokens_valid_witness:
  "lookup_media (fst (register_all new_media [7, 8, 9 :: nat]))
     (snd (register_all new_media [7, 8, 9 :: nat]) ! 1) = Some 8"
proof -
  have "1 < length [7, 8, 9 :: nat]" "length [7, 8, 9 :: nat] < 2 ^ 32" by simp_all
  with media_tokens_valid [of "[7, 8, 9 :: nat]" 1] show ?thesis
    by (metis nth_Cons_0 nth_Cons_Suc One_nat_def)
qed

end
