(* ===== verification/Client_Models.thy ===== *)
theory Client_Models
  imports Hx_Prelude
begin

text \<open>
  Two small models of crate \<open>hxmodel\<close>: the history of the chat input line
  (\<open>chat/input_history.rs\<close>) and the path navigation of the remote file browser
  (\<open>files/remote_listing.rs\<close>).
\<close>

section \<open>Input history\<close>

record InputHistory =
  ih_entries :: "string list"
  ih_offset :: nat
  ih_draft :: "string option"

definition new_history :: InputHistory where
  "new_history = \<lparr>ih_entries = [], ih_offset = 0, ih_draft = None\<rparr>"

definition record_line :: "InputHistory \<Rightarrow> string \<Rightarrow> InputHistory" where
  "record_line h line =
     h\<lparr>ih_entries := ih_entries h @ [line], ih_offset := length (ih_entries h) + 1, ih_draft := None\<rparr>"

definition up :: "InputHistory \<Rightarrow> string \<Rightarrow> InputHistory \<times> string option" where
  "up h current =
     (let h' = (if ih_entries h \<noteq> [] \<and> ih_offset h \<ge> length (ih_entries h)
                then h\<lparr>ih_draft := Some current\<rparr> else h)
      in if ih_offset h' = 0 then (h', None)
         else (h'\<lparr>ih_offset := ih_offset h' - 1\<rparr>, Some (ih_entries h' ! (ih_offset h' - 1))))"

definition down :: "InputHistory \<Rightarrow> InputHistory \<times> string option" where
  "down h =
     (if ih_offset h \<ge> length (ih_entries h) then (h, None)
      else let h' = h\<lparr>ih_offset := ih_offset h + 1\<rparr>
        in if ih_offset h' \<ge> length (ih_entries h')
           then (h'\<lparr>ih_draft := None\<rparr>, Some (case ih_draft h' of Some d \<Rightarrow> d | None \<Rightarrow> []))
           else (h', Some (ih_entries h' ! ih_offset h')))"

text \<open>The keys: sending a line, Up with the live text, Down.  What the input then shows is the output.\<close>

datatype Key = Enter string | Up string | Down

fun press :: "InputHistory \<Rightarrow> Key \<Rightarrow> InputHistory \<times> string option list" where
  "press h (Enter line) = (record_line h line, [])"
| "press h (Up current) = (let (h', t) = up h current in (h', [t]))"
| "press h Down = (let (h', t) = down h in (h', [t]))"

text \<open>The cursor is within the entries, and a draft is kept exactly while it is not at the bottom.\<close>

definition history_ok :: "InputHistory \<Rightarrow> bool" where
  "history_ok h \<longleftrightarrow> ih_offset h \<le> length (ih_entries h) \<and>
     (ih_draft h \<noteq> None \<longleftrightarrow> ih_offset h < length (ih_entries h))"

lemma press_ok: "history_ok h \<Longrightarrow> history_ok (fst (press h k))"
  by (cases k) (auto simp: history_ok_def record_line_def up_def down_def Let_def)

interpretation history: event_machine new_history press history_ok
  by unfold_locales (simp add: history_ok_def new_history_def, rule press_ok)

definition at_bottom :: "InputHistory \<Rightarrow> bool" where
  "at_bottom h \<longleftrightarrow> ih_offset h = length (ih_entries h) \<and> ih_draft h = None"

lemma ups_from:
  assumes "history_ok h" "ih_offset h < length (ih_entries h)" "length texts \<le> ih_offset h"
  shows "run_machine press h (map Up texts) =
    (h\<lparr>ih_offset := ih_offset h - length texts\<rparr>,
     map (\<lambda>i. Some (ih_entries h ! (ih_offset h - Suc i))) [0..<length texts])"
  using assms
proof (induction texts arbitrary: h)
  case (Cons t ts)
  let ?h = "h\<lparr>ih_offset := ih_offset h - 1\<rparr>"
  have "press h (Up t) = (?h, [Some (ih_entries h ! (ih_offset h - 1))])"
    using Cons.prems by (auto simp: up_def Let_def)
  moreover have "run_machine press ?h (map Up ts) =
      (?h\<lparr>ih_offset := ih_offset ?h - length ts\<rparr>,
       map (\<lambda>i. Some (ih_entries ?h ! (ih_offset ?h - Suc i))) [0..<length ts])"
    using Cons.prems by (intro Cons.IH) (auto simp: history_ok_def)
  moreover have "[0..<Suc (length ts)] = 0 # map Suc [0..<length ts]"
    by (simp add: upt_conv_Cons map_Suc_upt del: upt_Suc)
  ultimately show ?case by (simp del: upt_Suc press.simps)
qed simp

lemma downs_to_bottom:
  assumes "ih_offset h < length (ih_entries h)" "ih_draft h = Some d"
  shows "run_machine press h (replicate (length (ih_entries h) - ih_offset h) Down) =
    (h\<lparr>ih_offset := length (ih_entries h), ih_draft := None\<rparr>,
     map (\<lambda>i. Some (ih_entries h ! i)) [Suc (ih_offset h)..<length (ih_entries h)] @ [Some d])"
  using assms
proof (induction "length (ih_entries h) - ih_offset h" arbitrary: h)
  case (Suc n)
  let ?h = "h\<lparr>ih_offset := Suc (ih_offset h)\<rparr>"
  have n: "length (ih_entries h) - ih_offset h = Suc n" using Suc.hyps(2) by simp
  then have n': "length (ih_entries h) - Suc (ih_offset h) = n" by simp
  show ?case
  proof (cases "Suc (ih_offset h) = length (ih_entries h)")
    case True
    with n have "n = 0" by simp
    with n True Suc.prems show ?thesis by (simp add: down_def)
  next
    case False
    have "press h Down = (?h, [Some (ih_entries h ! Suc (ih_offset h))])"
      using False Suc.prems by (simp add: down_def Let_def)
    moreover have "run_machine press ?h (replicate n Down) =
        (?h\<lparr>ih_offset := length (ih_entries h), ih_draft := None\<rparr>,
         map (\<lambda>i. Some (ih_entries h ! i)) [Suc (Suc (ih_offset h))..<length (ih_entries h)] @ [Some d])"
      using Suc.hyps(1) [of ?h] False Suc.prems n' by simp
    moreover have "[Suc (ih_offset h)..<length (ih_entries h)] =
        Suc (ih_offset h) # [Suc (Suc (ih_offset h))..<length (ih_entries h)]"
      using False Suc.prems by (intro upt_conv_Cons) simp
    ultimately show ?thesis unfolding n by (simp del: press.simps)
  qed
qed simp

text \<open>paging through the history and back is harmless: from the bottom, Up shows the lines sent,
  newest first, and as many presses of Down show them again and end with the line that was being
  typed, the history and the cursor as they were, whatever was edited while paging.\<close>

theorem history_roundtrip:
  assumes "at_bottom h" "length edits < length (ih_entries h)"
  shows "run_machine press h (map Up (draft # edits) @ replicate (Suc (length edits)) Down) =
    (h, map (\<lambda>i. Some (ih_entries h ! (length (ih_entries h) - Suc i))) [0..<Suc (length edits)] @
        map (\<lambda>i. Some (ih_entries h ! i))
          [length (ih_entries h) - length edits..<length (ih_entries h)] @ [Some draft])"
proof -
  let ?n = "length (ih_entries h)" and ?k = "length edits"
  let ?h = "h\<lparr>ih_draft := Some draft, ih_offset := ?n - 1\<rparr>"
  let ?h' = "?h\<lparr>ih_offset := ?n - Suc ?k\<rparr>"
  have start: "press h (Up draft) = (?h, [Some (ih_entries h ! (?n - 1))])"
    using assms by (auto simp: up_def Let_def at_bottom_def)
  have ups: "run_machine press ?h (map Up edits) =
      (?h', map (\<lambda>i. Some (ih_entries h ! (?n - 1 - Suc i))) [0..<?k])"
    using ups_from [of ?h edits] assms by (auto simp: history_ok_def)
  have downs: "run_machine press ?h' (replicate (Suc ?k) Down) =
      (?h'\<lparr>ih_offset := ?n, ih_draft := None\<rparr>,
       map (\<lambda>i. Some (ih_entries h ! i)) [?n - ?k..<?n] @ [Some draft])"
    using downs_to_bottom [of ?h' draft] assms by (simp add: Suc_diff_Suc)
  have same: "?h'\<lparr>ih_offset := ?n, ih_draft := None\<rparr> = h"
    using assms(1) by (cases h) (simp add: at_bottom_def)
  have upt: "[0..<Suc ?k] = 0 # map Suc [0..<?k]"
    by (simp add: upt_conv_Cons map_Suc_upt del: upt_Suc)
  show ?thesis
    using start ups downs same
    by (simp only: list.map append_Cons run_machine.simps(2) run_machine_append upt)
      (simp add: Let_def comp_def)
qed

definition two_lines :: InputHistory where
  "two_lines = record_line (record_line new_history ''one'') ''two''"

theorem history_roundtrip_witness:
  "run_machine press two_lines [Up ''dr'', Up ''edited'', Down, Down] =
     (two_lines, [Some ''two'', Some ''one'', Some ''two'', Some ''dr''])"
proof -
  have "at_bottom two_lines" "ih_entries two_lines = [''one'', ''two'']"
    by (simp_all add: at_bottom_def two_lines_def record_line_def new_history_def)
  with history_roundtrip [of two_lines "[''edited'']" "''dr''"] show ?thesis
    by (simp add: numeral_2_eq_2 del: press.simps run_machine.simps)
qed

section \<open>Remote listing\<close>

record RemoteListing =
  rl_current :: bytes
  rl_current_c :: bytes
  rl_listing_error :: bool

abbreviation slash :: u8 where
  "slash \<equiv> 0x2F"

definition new_listing :: RemoteListing where
  "new_listing = \<lparr>rl_current = [slash], rl_current_c = [slash], rl_listing_error = False\<rparr>"

text \<open>\<open>CString::new\<close> refuses an interior NUL; the cache then falls back to the root.\<close>

definition sync_c :: "RemoteListing \<Rightarrow> RemoteListing" where
  "sync_c l = l\<lparr>rl_current_c := if 0 \<in> set (rl_current l) then [slash] else rl_current l\<rparr>"

definition is_root :: "RemoteListing \<Rightarrow> bool" where
  "is_root l \<longleftrightarrow> rl_current l = [slash]"

definition set_path :: "RemoteListing \<Rightarrow> bytes \<Rightarrow> RemoteListing" where
  "set_path l path = sync_c (l\<lparr>rl_current := if path = [] then [slash] else path\<rparr>)"

definition reset_to_root :: "RemoteListing \<Rightarrow> RemoteListing" where
  "reset_to_root l = (set_path l [slash])\<lparr>rl_listing_error := False\<rparr>"

text \<open>\<open>rposition\<close>: the index of the last separator.\<close>

fun rposition :: "bytes \<Rightarrow> nat option" where
  "rposition [] = None"
| "rposition (b # bs) =
     (case rposition bs of Some i \<Rightarrow> Some (Suc i) | None \<Rightarrow> if b = slash then Some 0 else None)"

definition parent :: "RemoteListing \<Rightarrow> bytes option" where
  "parent l =
     (if is_root l then None
      else case rposition (rl_current l) of
          None \<Rightarrow> None
        | Some i \<Rightarrow> Some (if i = 0 then [slash] else take i (rl_current l)))"

definition child :: "RemoteListing \<Rightarrow> bytes \<Rightarrow> bytes" where
  "child l name = (if is_root l then [] else rl_current l) @ [slash] @ name"

definition set_listing_error :: "RemoteListing \<Rightarrow> bool \<Rightarrow> RemoteListing" where
  "set_listing_error l v = l\<lparr>rl_listing_error := v\<rparr>"

lemma rposition_None: "slash \<notin> set name \<Longrightarrow> rposition name = None"
  by (induction name) auto

lemma rposition_append:
  "slash \<notin> set name \<Longrightarrow> rposition (path @ slash # name) = Some (length path)"
  by (induction path) (simp_all add: rposition_None)

text \<open>Entering a folder and going up again comes back, for every name without a separator.\<close>

lemma parent_child:
  assumes "rl_current l \<noteq> []" "slash \<notin> set name" "name \<noteq> []"
  shows "parent (set_path l (child l name)) = Some (rl_current l)"
proof -
  have "1 < length (child l name)" using assms by (cases name) (auto simp: child_def)
  then have "child l name \<noteq> [slash]" "child l name \<noteq> []" by auto
  then show ?thesis
    using assms rposition_append [OF assms(2), of "if is_root l then [] else rl_current l"]
    by (auto simp: parent_def set_path_def sync_c_def is_root_def child_def)
qed

text \<open>The path is never empty, and the C view of it is the path itself unless a NUL hides in it.\<close>

definition listing_path_ok :: "RemoteListing \<Rightarrow> bool" where
  "listing_path_ok l \<longleftrightarrow> rl_current l \<noteq> [] \<and> 0 \<notin> set (rl_current_c l) \<and>
     (0 \<notin> set (rl_current l) \<longrightarrow> rl_current_c l = rl_current l)"

lemma listing_path_ok_ops:
  "listing_path_ok new_listing" "listing_path_ok (set_path l path)" "listing_path_ok (reset_to_root l)"
  "listing_path_ok l \<Longrightarrow> listing_path_ok (set_listing_error l v)"
  by (auto simp: listing_path_ok_def new_listing_def set_path_def sync_c_def reset_to_root_def
      set_listing_error_def)

end
