(* ===== verification/Tracker.thy ===== *)
theory Tracker
  imports Hx_Prelude
begin

text \<open>
  One fetch of a tracker listing over a connected stream (crate \<open>hxnet\<close>, \<open>tracker.rs\<close>): the
  version probe, the two listing formats and their caps.

  A connection is the bytes the peer still sends, what a read meets after them (the peer has
  closed, the transport fails, or nothing ever comes), the bytes written so far, how many more
  the transport takes, and whether the first reply comes too late for the probe's watchdog.  An
  operation on it returns a value, an error of the fetch, or \<open>Pending\<close>: the future never
  completes.  The packers and parsers of \<open>hxproto\<close>, which is another repository, are the fields of
  \<open>Codec\<close>; \<open>codec_ok\<close> states the layout the module's documentation gives for them.
\<close>


section \<open>Operations on a connection\<close>

datatype Ending = Eof | Broken string | Silent

datatype TrackerError =
    Io string
  | ShortRead
  | BadMagic
  | UnsupportedVersion u16
  | BadV3Header
  | MalformedV3Header u32 u16
  | PayloadTooLarge u32 u32
  | MalformedV3Record u16 u16
  | V3TrailingBytes nat
  | ExcessivePadding

record Conn =
  inbound :: bytes
  ending :: Ending
  outbound :: bytes
  room :: "nat option"
  late :: bool

datatype 'a reply = Ret 'a | Err TrackerError | Pending

type_synonym 'a act = "Conn \<Rightarrow> 'a reply \<times> Conn"

definition ret :: "'a \<Rightarrow> 'a act" where
  "ret a s = (Ret a, s)"

definition throw :: "TrackerError \<Rightarrow> 'a act" where
  "throw e s = (Err e, s)"

definition bind_act :: "'a act \<Rightarrow> ('a \<Rightarrow> 'b act) \<Rightarrow> 'b act" where
  "bind_act m k s =
     (case m s of (Ret a, s') \<Rightarrow> k a s' | (Err e, s') \<Rightarrow> (Err e, s') | (Pending, s') \<Rightarrow> (Pending, s'))"

definition ok_or :: "'a option \<Rightarrow> TrackerError \<Rightarrow> 'a act" where
  "ok_or x e = (case x of Some a \<Rightarrow> ret a | None \<Rightarrow> throw e)"

definition read_exact_or_short :: "nat \<Rightarrow> bytes act" where
  "read_exact_or_short n s =
     (if n \<le> length (inbound s)
      then (Ret (take n (inbound s)), s\<lparr>inbound := drop n (inbound s)\<rparr>)
      else (case ending s of
              Eof \<Rightarrow> (Err ShortRead, s\<lparr>inbound := []\<rparr>)
            | Broken e \<Rightarrow> (Err (Io e), s\<lparr>inbound := []\<rparr>)
            | Silent \<Rightarrow> (Pending, s\<lparr>inbound := []\<rparr>)))"

text \<open>\<open>write_all\<close> and the \<open>flush\<close> after it.\<close>

definition write_all :: "bytes \<Rightarrow> unit act" where
  "write_all bs s =
     (case room s of
        None \<Rightarrow> (Ret (), s\<lparr>outbound := outbound s @ bs\<rparr>)
      | Some k \<Rightarrow>
          if length bs \<le> k
          then (Ret (), s\<lparr>outbound := outbound s @ bs, room := Some (k - length bs)\<rparr>)
          else (Err (Io ''write''), s\<lparr>outbound := outbound s @ take k bs, room := Some 0\<rparr>))"

section \<open>The formats\<close>

record FixedRecord =
  fx_port :: u16
  fx_nusers :: u16
  fx_name_len :: u8

record V3Header =
  total_size :: u32
  record_count :: u16

record TrackerRecord =
  addr_type :: u8
  address :: bytes
  tr_port :: u16
  nusers :: u16
  tr_name :: bytes
  tr_desc :: bytes
  tlv_count :: u16
  tlv_bytes :: bytes

record TrackerListing =
  version :: u8
  expected :: u16
  records :: "TrackerRecord list"

record Codec =
  pack_tracker_v3_handshake :: "u16 \<Rightarrow> bytes"
  pack_tracker_v3_listing_request :: bytes
  parse_tracker_header :: "bytes \<Rightarrow> u16 option"
  tracker_record_is_padding :: "bytes \<Rightarrow> bool"
  parse_tracker_record_fixed :: "bytes \<Rightarrow> FixedRecord option"
  tracker_normalize_text :: "bytes \<Rightarrow> bytes"
  parse_tracker_v3_response_header :: "bytes \<Rightarrow> V3Header option"
  parse_tracker_v3_record :: "bytes \<Rightarrow> nat \<Rightarrow> (TrackerRecord \<times> nat) option"

definition HTRK_MAGIC :: bytes where
  "HTRK_MAGIC = [0x48, 0x54, 0x52, 0x4B]"

definition HTRK_VERSION_V1 :: u16 where "HTRK_VERSION_V1 = 1"
definition HTRK_VERSION_V2 :: u16 where "HTRK_VERSION_V2 = 2"
definition HTRK_VERSION_V3 :: u16 where "HTRK_VERSION_V3 = 3"
definition V3_MAX_PAYLOAD :: u32 where "V3_MAX_PAYLOAD = 16 * 1024 * 1024"
definition MAX_V1_PADDING_SLOTS :: u32 where "MAX_V1_PADDING_SLOTS = 65535"
definition ADDR_IPV4 :: u8 where "ADDR_IPV4 = 4"
definition V3_RESP_HDR_LEN :: nat where "V3_RESP_HDR_LEN = 10"

section \<open>The v1 listing\<close>

definition read_text :: "Codec \<Rightarrow> u8 \<Rightarrow> bytes act" where
  "read_text P n =
     bind_act (read_exact_or_short (unat n)) (\<lambda>t. ret (tracker_normalize_text P t))"

definition read_v1_record :: "Codec \<Rightarrow> bytes \<Rightarrow> TrackerRecord act" where
  "read_v1_record P head8 =
     bind_act (read_exact_or_short 3) (\<lambda>rest3.
       let fixed = head8 @ rest3 in
       bind_act (ok_or (parse_tracker_record_fixed P fixed) ShortRead) (\<lambda>rec.
       bind_act (read_text P (fx_name_len rec)) (\<lambda>name.
       bind_act (read_exact_or_short 1) (\<lambda>desc_len.
       bind_act (read_text P (hd desc_len)) (\<lambda>desc.
       ret \<lparr>addr_type = ADDR_IPV4, address = take 4 fixed, tr_port = fx_port rec,
            nusers = fx_nusers rec, tr_name = name, tr_desc = desc,
            tlv_count = 0, tlv_bytes = []\<rparr>)))))"

text \<open>The padding counter only moves up to its cap, and a record read makes \<open>remaining\<close> smaller.\<close>

definition padding_left :: "u32 \<Rightarrow> nat" where
  "padding_left p = (if unat p \<le> 65535 then 65536 - unat p else 65537)"

lemma padding_left_step:
  "\<not> p + 1 > MAX_V1_PADDING_SLOTS \<Longrightarrow> padding_left (p + 1) < padding_left p"
proof -
  assume "\<not> p + 1 > MAX_V1_PADDING_SLOTS"
  then have le: "unat (p + 1) \<le> 65535"
    by (simp add: MAX_V1_PADDING_SLOTS_def word_less_nat_alt)
  show ?thesis
  proof (cases "unat p \<le> 65535")
    case True
    then have "unat (p + 1) = unat p + 1"
      by (simp add: unat_word_ariths)
    with True le show ?thesis by (simp add: padding_left_def)
  next
    case False
    with le show ?thesis by (simp add: padding_left_def)
  qed
qed

lemma unat_pred_less: "r \<noteq> 0 \<Longrightarrow> unat (r - 1) < unat (r :: 'a::len word)"
  by (metis One_nat_def diff_less lessI unat_eq_zero unat_minus_one zero_less_iff_neq_zero)

function read_v1_records ::
  "Codec \<Rightarrow> u16 \<Rightarrow> u32 \<Rightarrow> TrackerRecord list \<Rightarrow> TrackerRecord list act" where
  "read_v1_records P remaining padding_slots recs =
     (if remaining = 0 then ret recs
      else bind_act (read_exact_or_short 8) (\<lambda>head8.
        if tracker_record_is_padding P head8
        then (if padding_slots + 1 > MAX_V1_PADDING_SLOTS then throw ExcessivePadding
              else read_v1_records P remaining (padding_slots + 1) recs)
        else bind_act (read_v1_record P head8) (\<lambda>rec.
          read_v1_records P (remaining - 1) padding_slots (recs @ [rec]))))"
  by pat_completeness auto
termination
  by (relation "measures [\<lambda>(P, remaining, padding_slots, recs). unat remaining,
      \<lambda>(P, remaining, padding_slots, recs). padding_left padding_slots]")
    (auto simp: padding_left_step unat_pred_less not_less)

declare read_v1_records.simps [simp del]


definition read_v1_listing :: "Codec \<Rightarrow> bytes \<Rightarrow> TrackerListing act" where
  "read_v1_listing P resp6 =
     bind_act (read_exact_or_short 8) (\<lambda>tail.
     bind_act (ok_or (parse_tracker_header P (resp6 @ tail)) ShortRead) (\<lambda>nservers.
     bind_act (read_v1_records P nservers 0 []) (\<lambda>recs.
     ret \<lparr>version = 1, expected = nservers, records = recs\<rparr>)))"

section \<open>The v3 listing\<close>

definition v3_tracker_record :: "Codec \<Rightarrow> TrackerRecord \<Rightarrow> TrackerRecord" where
  "v3_tracker_record P rec =
     rec\<lparr>tr_name := tracker_normalize_text P (tr_name rec),
         tr_desc := tracker_normalize_text P (tr_desc rec)\<rparr>"

function read_v3_records ::
  "Codec \<Rightarrow> bytes \<Rightarrow> u16 \<Rightarrow> nat \<Rightarrow> nat \<Rightarrow> TrackerRecord list \<Rightarrow> TrackerError + TrackerRecord list \<times> nat" where
  "read_v3_records P payload count i off recs =
     (if unat count \<le> i then Inr (recs, off)
      else (case parse_tracker_v3_record P payload off of
              None \<Rightarrow> Inl (MalformedV3Record (of_nat i) count)
            | Some (rec, consumed) \<Rightarrow>
                read_v3_records P payload count (Suc i) (off + consumed)
                  (recs @ [v3_tracker_record P rec])))"
  by pat_completeness auto
termination
  by (relation "measure (\<lambda>(P, payload, count, i, off, recs). unat count - i)") auto

declare read_v3_records.simps [simp del]

text \<open>\<open>payload.len() - off\<close> is a subtraction of \<open>usize\<close> values.\<close>

definition usize_diff :: "nat \<Rightarrow> nat \<Rightarrow> nat" where
  "usize_diff a b = unat (of_nat a - of_nat b :: u64)"

definition v3_listing_of :: "Codec \<Rightarrow> V3Header \<Rightarrow> bytes \<Rightarrow> TrackerListing act" where
  "v3_listing_of P h payload =
     (case read_v3_records P payload (record_count h) 0 0 [] of
        Inl e \<Rightarrow> throw e
      | Inr (recs, off) \<Rightarrow>
          if off \<noteq> length payload then throw (V3TrailingBytes (usize_diff (length payload) off))
          else ret \<lparr>version = 3, expected = record_count h, records = recs\<rparr>)"

definition read_v3_listing :: "Codec \<Rightarrow> TrackerListing act" where
  "read_v3_listing P =
     bind_act (read_exact_or_short 2) (\<lambda>features.
     bind_act (write_all (pack_tracker_v3_listing_request P)) (\<lambda>_.
     bind_act (read_exact_or_short V3_RESP_HDR_LEN) (\<lambda>hdr.
     bind_act (ok_or (parse_tracker_v3_response_header P hdr) BadV3Header) (\<lambda>h.
     if total_size h = 0 \<and> record_count h = 0
     then ret \<lparr>version = 3, expected = 0, records = []\<rparr>
     else if total_size h = 0 \<or> record_count h = 0
     then throw (MalformedV3Header (total_size h) (record_count h))
     else if total_size h > V3_MAX_PAYLOAD
     then throw (PayloadTooLarge (total_size h) V3_MAX_PAYLOAD)
     else bind_act (read_exact_or_short (unat (total_size h))) (v3_listing_of P h)))))"

section \<open>Dispatch, probe and fetch\<close>

definition dispatch_after_response :: "Codec \<Rightarrow> bytes \<Rightarrow> TrackerListing act" where
  "dispatch_after_response P resp6 =
     (if take 4 resp6 \<noteq> HTRK_MAGIC then throw BadMagic
      else let v = from_be16 (resp6 ! 4) (resp6 ! 5) in
        if v = HTRK_VERSION_V3 then read_v3_listing P
        else if v = HTRK_VERSION_V1 \<or> v = HTRK_VERSION_V2 then read_v1_listing P resp6
        else throw (UnsupportedVersion v))"

definition run_v1 :: "Codec \<Rightarrow> TrackerListing act" where
  "run_v1 P =
     bind_act (write_all (HTRK_MAGIC @ be_bytes16 HTRK_VERSION_V1)) (\<lambda>_.
     bind_act (read_exact_or_short 6) (\<lambda>resp6.
     dispatch_after_response P resp6))"

datatype Outcome = Listing TrackerListing | ProbeInconclusive

text \<open>
  \<open>tokio::time::timeout\<close> around the first read: a read that never completes elapses, one that
  completes after the watchdog elapses too.
\<close>

definition read_under_watchdog :: "nat \<Rightarrow> bytes reply option act" where
  "read_under_watchdog n s =
     (case read_exact_or_short n s of
        (Pending, s') \<Rightarrow> (Ret None, s')
      | (r, s') \<Rightarrow> (Ret (if late s then None else Some r), s'))"

definition run_v3_probe :: "Codec \<Rightarrow> u16 \<Rightarrow> Outcome act" where
  "run_v3_probe P features =
     bind_act (write_all (pack_tracker_v3_handshake P features)) (\<lambda>_.
     bind_act (read_under_watchdog 6) (\<lambda>r.
     case r of
       None \<Rightarrow> ret ProbeInconclusive
     | Some (Err ShortRead) \<Rightarrow> ret ProbeInconclusive
     | Some (Err (Io e)) \<Rightarrow> ret ProbeInconclusive
     | Some (Err e) \<Rightarrow> throw e
     | Some Pending \<Rightarrow> ret ProbeInconclusive
     | Some (Ret resp6) \<Rightarrow>
         if take 4 resp6 \<noteq> HTRK_MAGIC then ret ProbeInconclusive
         else bind_act (dispatch_after_response P resp6) (\<lambda>l. ret (Listing l))))"

section \<open>The message of an error\<close>

fun hex_of_nat :: "nat \<Rightarrow> string" where
  "hex_of_nat n =
     (if n < 16 then [''0123456789abcdef'' ! n]
      else hex_of_nat (n div 16) @ [''0123456789abcdef'' ! (n mod 16)])"

declare hex_of_nat.simps [simp del]

definition hex4 :: "u16 \<Rightarrow> string" where
  "hex4 v = (let h = hex_of_nat (unat v) in replicate (4 - length h) CHR ''0'' @ h)"

fun tracker_error_text :: "TrackerError \<Rightarrow> string" where
  "tracker_error_text (Io e) = ''tracker io error: '' @ e"
| "tracker_error_text ShortRead = ''tracker response truncated''"
| "tracker_error_text BadMagic = ''tracker response: bad magic''"
| "tracker_error_text (UnsupportedVersion v) =
     ''tracker response: unsupported HTRK version 0x'' @ hex4 v"
| "tracker_error_text BadV3Header = ''tracker: bad v3 response header''"
| "tracker_error_text (MalformedV3Header t n) =
     ''tracker: malformed v3 header (total_size='' @ dec_of_nat (unat t) @
     '', record_count='' @ dec_of_nat (unat n) @ '')''"
| "tracker_error_text (PayloadTooLarge t c) =
     ''tracker: v3 response too large ('' @ dec_of_nat (unat t) @ '' bytes, cap '' @
     dec_of_nat (unat c) @ '')''"
| "tracker_error_text (MalformedV3Record i n) =
     ''tracker: malformed v3 record '' @ dec_of_nat (unat i + 1) @ ''/'' @ dec_of_nat (unat n)"
| "tracker_error_text (V3TrailingBytes n) =
     ''tracker: '' @ dec_of_nat n @ '' trailing bytes after v3 records''"
| "tracker_error_text ExcessivePadding = ''tracker: too many v1 padding slots''"

section \<open>What the parsers are documented to do\<close>

text \<open>
  The 14-byte header has the number of servers in bytes 10 and 11; a slot is padding iff its first
  byte is zero; a record has four address bytes, the port, the users, two reserved bytes and the
  length of the name; a parsed v3 record lies within the payload.
\<close>

definition codec_ok :: "Codec \<Rightarrow> bool" where
  "codec_ok P \<longleftrightarrow>
     (\<forall>h. length h = 14 \<longrightarrow> parse_tracker_header P h = Some (from_be16 (h ! 10) (h ! 11))) \<and>
     (\<forall>h. length h = 8 \<longrightarrow> tracker_record_is_padding P h = (hd h = 0)) \<and>
     (\<forall>f. length f = 11 \<longrightarrow> parse_tracker_record_fixed P f =
        Some \<lparr>fx_port = from_be16 (f ! 4) (f ! 5), fx_nusers = from_be16 (f ! 6) (f ! 7),
              fx_name_len = f ! 10\<rparr>) \<and>
     (\<forall>p off rec n. parse_tracker_v3_record P p off = Some (rec, n) \<longrightarrow>
        0 < n \<and> off + n \<le> length p)"

end
