(* ===== verification/Tracker_Fetch.thy ===== *)
theory Tracker_Fetch
  imports Tracker Hx_Text
begin

text \<open>
  The walk over the configured trackers (crate \<open>hxnet\<close>, \<open>tracker_fetch.rs\<close>): TLS first with a
  remembered verdict, the plain fallback, the probe and the v1 reopen, and the events the walk emits.

  The connector is a parameter: its answer to a call may depend on its own state, of any type.  The
  walk keeps, beside the connector's state, the calls made so far with their outcome, the verdicts,
  the events sent and how many more sends the receiver takes before it is dropped.  The production
  connector is \<open>tcp_tls_connect\<close>, over parameters for the TCP connect and the TLS handshake.
\<close>

definition HTRK_TCPPORT :: u16 where "HTRK_TCPPORT = 5498"

datatype Transport = UseTls | UsePlain

datatype ConnectError = TlsFailed string | TrustRejected string | TransportFailed string

fun connect_error_text :: "ConnectError \<Rightarrow> string" where
  "connect_error_text (TlsFailed m) = ''TLS: '' @ m"
| "connect_error_text (TrustRejected m) = ''TLS trust: '' @ m"
| "connect_error_text (TransportFailed m) = m"

datatype TlsVerdict = VUnknown | VOk | VNo

type_synonym VerdictCache = "(string \<times> TlsVerdict) list"

definition verdict_lookup :: "VerdictCache \<Rightarrow> string \<Rightarrow> TlsVerdict" where
  "verdict_lookup c url = (case map_of c url of Some v \<Rightarrow> v | None \<Rightarrow> VUnknown)"

definition verdict_record :: "VerdictCache \<Rightarrow> string \<Rightarrow> TlsVerdict \<Rightarrow> VerdictCache" where
  "verdict_record c url v = AList.update url v c"

datatype TrackerEvent =
    BatchBegin string u8 u16
  | Record u16 TrackerRecord
  | BatchError string string
  | Done

type_synonym 'c connector = "'c \<Rightarrow> string \<Rightarrow> Transport \<Rightarrow> (ConnectError + Conn) \<times> 'c"

record 'c Walk =
  connector :: 'c
  calls :: "(string \<times> Transport \<times> ConnectError option) list"
  verdicts :: VerdictCache
  sent :: "TrackerEvent list"
  receiver :: "nat option"

definition send_event :: "TrackerEvent \<Rightarrow> 'c Walk \<Rightarrow> bool \<times> 'c Walk" where
  "send_event e w =
     (case receiver w of
        None \<Rightarrow> (True, w\<lparr>sent := sent w @ [e]\<rparr>)
      | Some 0 \<Rightarrow> (False, w)
      | Some (Suc n) \<Rightarrow> (True, w\<lparr>sent := sent w @ [e], receiver := Some n\<rparr>))"

definition call_connector ::
  "'c connector \<Rightarrow> string \<Rightarrow> Transport \<Rightarrow> 'c Walk \<Rightarrow> (ConnectError + Conn) \<times> 'c Walk" where
  "call_connector C url t w =
     (let (r, c') = C (connector w) url t
      in (r, w\<lparr>connector := c',
               calls := calls w @ [(url, t, case r of Inl e \<Rightarrow> Some e | Inr _ \<Rightarrow> None)]\<rparr>))"

definition connect_with_fallback ::
  "'c connector \<Rightarrow> string \<Rightarrow> 'c Walk \<Rightarrow> (ConnectError + Conn) \<times> 'c Walk" where
  "connect_with_fallback C url w =
     (if verdict_lookup (verdicts w) url \<noteq> VNo
      then (case call_connector C url UseTls w of
              (Inr s, w') \<Rightarrow> (Inr s, w'\<lparr>verdicts := verdict_record (verdicts w') url VOk\<rparr>)
            | (Inl (TlsFailed m), w') \<Rightarrow>
                call_connector C url UsePlain
                  (w'\<lparr>verdicts := verdict_record (verdicts w') url VNo\<rparr>)
            | (Inl e, w') \<Rightarrow> (Inl e, w'))
      else call_connector C url UsePlain w)"

fun emit_records :: "u16 \<Rightarrow> TrackerRecord list \<Rightarrow> 'c Walk \<Rightarrow> bool \<times> 'c Walk" where
  "emit_records n [] w = (True, w)"
| "emit_records n (r # rs) w =
     (let (ok, w') = send_event (Record n r) w in if ok then emit_records n rs w' else (False, w'))"

definition emit_listing :: "string \<Rightarrow> TrackerListing \<Rightarrow> 'c Walk \<Rightarrow> bool \<times> 'c Walk" where
  "emit_listing url l w =
     (let (ok, w') = send_event (BatchBegin url (version l) (expected l)) w
      in if ok then emit_records (expected l) (records l) w' else (False, w'))"

definition emit_error :: "string \<Rightarrow> string \<Rightarrow> 'c Walk \<Rightarrow> bool \<times> 'c Walk" where
  "emit_error url message w = send_event (BatchError url message) w"

text \<open>
  One URL: \<open>None\<close> where a read of the fetch never completes, else whether to go on and the walk.
\<close>

definition fetch_v1 :: "Codec \<Rightarrow> 'c connector \<Rightarrow> string \<Rightarrow> 'c Walk \<Rightarrow> (bool \<times> 'c Walk) option" where
  "fetch_v1 P C url w =
     (case connect_with_fallback C url w of
        (Inl e, w') \<Rightarrow> Some (emit_error url (connect_error_text e) w')
      | (Inr s, w') \<Rightarrow>
          (case fst (run_v1 P s) of
             Ret l \<Rightarrow> Some (emit_listing url l w')
           | Err e \<Rightarrow> Some (emit_error url (tracker_error_text e) w')
           | Pending \<Rightarrow> None))"

definition fetch_one ::
  "Codec \<Rightarrow> 'c connector \<Rightarrow> u16 \<Rightarrow> string \<Rightarrow> 'c Walk \<Rightarrow> (bool \<times> 'c Walk) option" where
  "fetch_one P C features url w =
     (case connect_with_fallback C url w of
        (Inl e, w') \<Rightarrow> Some (emit_error url (connect_error_text e) w')
      | (Inr s, w') \<Rightarrow>
          (case fst (run_v3_probe P features s) of
             Ret (Listing l) \<Rightarrow> Some (emit_listing url l w')
           | Ret ProbeInconclusive \<Rightarrow> fetch_v1 P C url w'
           | Err e \<Rightarrow> Some (emit_error url (tracker_error_text e) w')
           | Pending \<Rightarrow> None))"

text \<open>
  \<open>run_fetch_notifying\<close>, with the number of calls of \<open>sent\<close>; the walk stops where the receiver is
  gone, and a fetch that never completes holds it.
\<close>

fun run_fetch_notifying ::
  "Codec \<Rightarrow> 'c connector \<Rightarrow> u16 \<Rightarrow> string list \<Rightarrow> nat \<Rightarrow> 'c Walk \<Rightarrow> ('c Walk \<times> nat) option" where
  "run_fetch_notifying P C features [] n w = Some (snd (send_event Done w), n + 1)"
| "run_fetch_notifying P C features (url # urls) n w =
     (case fetch_one P C features url w of
        None \<Rightarrow> None
      | Some (go_on, w') \<Rightarrow>
          if go_on then run_fetch_notifying P C features urls (n + 1) w' else Some (w', n + 1))"

definition run_fetch ::
  "Codec \<Rightarrow> 'c connector \<Rightarrow> u16 \<Rightarrow> string list \<Rightarrow> 'c Walk \<Rightarrow> 'c Walk option" where
  "run_fetch P C features urls w = map_option fst (run_fetch_notifying P C features urls 0 w)"

section \<open>The production connector\<close>

definition parse_port_or_default :: "string option \<Rightarrow> u16" where
  "parse_port_or_default p =
     (case p of Some t \<Rightarrow> (case parse_uint 16 t of Some n \<Rightarrow> of_nat n | None \<Rightarrow> HTRK_TCPPORT)
      | None \<Rightarrow> HTRK_TCPPORT)"

definition parse_host_port_plain :: "string \<Rightarrow> string \<times> u16" where
  "parse_host_port_plain url =
     (case rsplit_once CHR '':'' url of
        Some (host, tail) \<Rightarrow>
          if CHR '':'' \<notin> set host
          then (case parse_uint 16 tail of Some p \<Rightarrow> (host, of_nat p) | None \<Rightarrow> (url, HTRK_TCPPORT))
          else (url, HTRK_TCPPORT)
      | None \<Rightarrow> (url, HTRK_TCPPORT))"

definition parse_host_port :: "string \<Rightarrow> string \<times> u16" where
  "parse_host_port u =
     (let url = str_trim u in
      case strip_prefix ''['' url of
        Some rest \<Rightarrow>
          (case split_once CHR '']'' rest of
             Some (host, after) \<Rightarrow> (host, parse_port_or_default (strip_prefix '':'' after))
           | None \<Rightarrow> parse_host_port_plain url)
      | None \<Rightarrow> parse_host_port_plain url)"

text \<open>
  The network below the connector: \<open>resolve_and_connect\<close>, and \<open>wrap_tls\<close> with whether WebPKI accepts
  the certificate and the fingerprint of the leaf, where the peer presented one.
\<close>

record 'n Network =
  resolve_and_connect :: "'n \<Rightarrow> string \<Rightarrow> u16 \<Rightarrow> (string + Conn) \<times> 'n"
  wrap_tls :: "'n \<Rightarrow> Conn \<Rightarrow> string \<Rightarrow> (string + (Conn \<times> bool \<times> string option)) \<times> 'n"

type_synonym VerifyFn = "string \<Rightarrow> u16 \<Rightarrow> string \<Rightarrow> bool"

definition trust_gate :: "VerifyFn option \<Rightarrow> string \<Rightarrow> u16 \<Rightarrow> bool \<Rightarrow> string option \<Rightarrow> ConnectError option" where
  "trust_gate verify host port webpki_ok fingerprint =
     (if webpki_ok then None
      else (case verify of
              None \<Rightarrow> None
            | Some v \<Rightarrow>
                (case fingerprint of
                   Some fp \<Rightarrow> if v host port fp then None
                     else Some (TrustRejected ''certificate rejected by trust check'')
                 | None \<Rightarrow> Some (TrustRejected ''peer presented no certificate''))))"

definition tcp_tls_connect :: "'n Network \<Rightarrow> VerifyFn option \<Rightarrow> 'n connector" where
  "tcp_tls_connect N verify n url t =
     (let (host, port) = parse_host_port url in
      case resolve_and_connect N n host port of
        (Inl e, n') \<Rightarrow> (Inl (TransportFailed e), n')
      | (Inr tcp, n') \<Rightarrow>
          (case t of
             UsePlain \<Rightarrow> (Inr tcp, n')
           | UseTls \<Rightarrow>
               (case wrap_tls N n' tcp host of
                  (Inl e, n'') \<Rightarrow> (Inl (TlsFailed e), n'')
                | (Inr (tls, webpki_ok, fp), n'') \<Rightarrow>
                    (case trust_gate verify host port webpki_ok fp of
                       Some e \<Rightarrow> (Inl e, n'')
                     | None \<Rightarrow> (Inr tls, n'')))))"

end
