(* ===== verification/Tracker_Props.thy ===== *)
theory Tracker_Props
  imports Tracker
begin

text \<open>
  Properties of one tracker fetch: however much a tracker sends, a fetch reads a bounded number of
  bytes and ends; the v1 reader inverts the format, batch headers included; a v3 listing has the
  records its header announced; which failures of the probe fall back to v1.
\<close>

section \<open>Bounded reads\<close>

named_theorems bounded_intros \<open>bounds of the composed operations\<close>

text \<open>
  \<open>bounded n m\<close>: the operation takes at most \<open>n\<close> bytes off the front of what the peer sends, and
  where there are that many it completes.
\<close>

definition bounded :: "nat \<Rightarrow> 'a act \<Rightarrow> bool" where
  "bounded n m \<longleftrightarrow> (\<forall>s. \<exists>k \<le> n. inbound (snd (m s)) = drop k (inbound s) \<and>
     (n \<le> length (inbound s) \<longrightarrow> fst (m s) \<noteq> Pending))"

lemma bounded_mono: "bounded n m \<Longrightarrow> n \<le> k \<Longrightarrow> bounded k m"
  unfolding bounded_def by (meson le_trans)

lemma bounded_ret [bounded_intros]: "bounded n (ret a)"
  by (auto simp: bounded_def ret_def intro: exI [of _ 0])

lemma bounded_throw [bounded_intros]: "bounded n (throw e)"
  by (auto simp: bounded_def throw_def intro: exI [of _ 0])

lemma bounded_ok_or [bounded_intros]: "bounded n (ok_or x e)"
  by (cases x) (simp_all add: ok_or_def bounded_intros)

lemma bounded_write [bounded_intros]: "bounded n (write_all bs)"
  by (auto simp: bounded_def write_all_def intro!: exI [of _ 0] split: option.splits)

lemma bounded_read: "bounded n (read_exact_or_short n)"
  unfolding bounded_def
proof
  fix s
  show "\<exists>k \<le> n. inbound (snd (read_exact_or_short n s)) = drop k (inbound s) \<and>
     (n \<le> length (inbound s) \<longrightarrow> fst (read_exact_or_short n s) \<noteq> Pending)"
    by (rule exI [of _ n]) (auto simp: read_exact_or_short_def split: Ending.splits)
qed

lemma bounded_bind:
  assumes m: "bounded n m" and k: "\<And>a. bounded j (f a)"
  shows "bounded (n + j) (bind_act m f)"
  unfolding bounded_def
proof
  fix s
  obtain r s' where ms: "m s = (r, s')" by (cases "m s")
  obtain i where i: "i \<le> n" "inbound s' = drop i (inbound s)"
      "n \<le> length (inbound s) \<longrightarrow> r \<noteq> Pending"
    using m ms unfolding bounded_def by (metis fst_conv snd_conv)
  show "\<exists>x \<le> n + j. inbound (snd (bind_act m f s)) = drop x (inbound s) \<and>
     (n + j \<le> length (inbound s) \<longrightarrow> fst (bind_act m f s) \<noteq> Pending)"
  proof (cases r)
    case (Ret a)
    obtain l where l: "l \<le> j" "inbound (snd (f a s')) = drop l (inbound s')"
        "j \<le> length (inbound s') \<longrightarrow> fst (f a s') \<noteq> Pending"
      using k [of a] unfolding bounded_def by blast
    then show ?thesis
      using i Ret ms by (intro exI [of _ "i + l"]) (auto simp: bind_act_def add.commute)
  next
    case (Err e)
    then show ?thesis using i ms by (intro exI [of _ i]) (auto simp: bind_act_def)
  next
    case Pending
    then show ?thesis using i ms by (intro exI [of _ i]) (auto simp: bind_act_def)
  qed
qed

lemma bounded_bind_to:
  "bounded n m \<Longrightarrow> (\<And>a. bounded j (f a)) \<Longrightarrow> n + j \<le> t \<Longrightarrow> bounded t (bind_act m f)"
  by (rule bounded_mono [OF bounded_bind])

lemma bounded_read_to: "n \<le> t \<Longrightarrow> bounded t (read_exact_or_short n)"
  by (rule bounded_mono [OF bounded_read])

lemma unat_u8_le: "unat (b :: u8) \<le> 255"
  using unsigned_less [of b, where ?'a = nat] by simp

lemma bounded_read_text: "bounded 255 (read_text P n)"
  unfolding read_text_def
  by (rule bounded_bind_to [OF bounded_read bounded_ret [of 0]]) (simp add: unat_u8_le)

lemma bounded_v1_record: "bounded 514 (read_v1_record P head8)"
  unfolding read_v1_record_def Let_def
  by (rule bounded_bind_to [OF bounded_read bounded_bind [OF bounded_ok_or [of 0]
      bounded_bind [OF bounded_read_text bounded_bind [OF bounded_read
      bounded_bind [OF bounded_read_text bounded_ret [of 0]]]]]]) simp

text \<open>Every record costs at most 522 bytes and every padding slot 8.\<close>

definition v1_cost :: "u16 \<Rightarrow> u32 \<Rightarrow> nat" where
  "v1_cost remaining padding_slots = 522 * unat remaining + 8 * padding_left padding_slots"

lemma bounded_v1_records: "bounded (v1_cost remaining p) (read_v1_records P remaining p recs)"
proof (induction P remaining p recs rule: read_v1_records.induct)
  case (1 P remaining p recs)
  show ?case
  proof (cases "remaining = 0")
    case True
    then show ?thesis by (subst read_v1_records.simps) (simp add: bounded_ret)
  next
    case False
    have suc: "unat remaining = Suc (unat (remaining - 1))"
      using False by (metis Suc_pred' unat_gt_0 unat_minus_one)
    have pad: "bounded (v1_cost remaining p - 8) (read_v1_records P remaining (p + 1) recs)"
      if "tracker_record_is_padding P h" "\<not> p + 1 > MAX_V1_PADDING_SLOTS" for h
      using "1.IH" (1) [OF False that]
      by (rule bounded_mono)
         (use padding_left_step [OF that(2)] in \<open>simp add: v1_cost_def\<close>)
    have rec: "bounded (v1_cost remaining p - 8)
        (bind_act (read_v1_record P h) (\<lambda>rec. read_v1_records P (remaining - 1) p (recs @ [rec])))"
      if "\<not> tracker_record_is_padding P h" for h
      by (rule bounded_bind_to [OF bounded_v1_record "1.IH" (2) [OF False that]])
         (simp add: v1_cost_def suc)
    have "8 \<le> v1_cost remaining p" by (simp add: v1_cost_def suc)
    then show ?thesis
      using False pad rec
      by (subst read_v1_records.simps)
         (auto intro!: bounded_bind_to [OF bounded_read, where j = "v1_cost remaining p - 8"]
           bounded_throw split: if_splits)
  qed
qed

definition MAX_V1_BYTES :: nat where
  "MAX_V1_BYTES = 8 + 522 * 65535 + 8 * 65536"

lemma bounded_v1_listing: "bounded MAX_V1_BYTES (read_v1_listing P resp6)"
proof -
  have "bounded (522 * 65535 + 8 * 65536) (read_v1_records P n 0 [])" for n
    by (rule bounded_mono [OF bounded_v1_records])
       (use unsigned_less [of n, where ?'a = nat] in \<open>simp add: v1_cost_def padding_left_def\<close>)
  then show ?thesis
    unfolding read_v1_listing_def MAX_V1_BYTES_def
    by (intro bounded_bind_to [OF bounded_read] bounded_bind_to [OF bounded_ok_or [of 0]]
        bounded_bind_to [OF _ bounded_ret [of 0]] order_refl) auto
qed

lemma bounded_v3_listing: "bounded MAX_V1_BYTES (read_v3_listing P)"
proof -
  have finish: "bounded 0 (v3_listing_of P h payload)" for h payload
    by (auto simp: v3_listing_of_def bounded_intros split: sum.split)
  have payload: "bounded (16 * 1024 * 1024)
      (bind_act (read_exact_or_short (unat t)) (v3_listing_of P h))"
    if "\<not> t > V3_MAX_PAYLOAD" for t h
    by (rule bounded_bind_to [OF bounded_read finish])
       (use that in \<open>simp add: V3_MAX_PAYLOAD_def word_less_nat_alt\<close>)
  show ?thesis
    unfolding read_v3_listing_def V3_RESP_HDR_LEN_def MAX_V1_BYTES_def
    by (intro bounded_bind_to [OF bounded_read] bounded_bind_to [OF bounded_write [of 0]]
        bounded_bind_to [OF bounded_ok_or [of 0]] order_refl)
       (auto intro!: bounded_intros payload [THEN bounded_mono])
qed

lemma bounded_dispatch: "bounded MAX_V1_BYTES (dispatch_after_response P resp6)"
  by (auto simp: dispatch_after_response_def Let_def bounded_intros bounded_v1_listing bounded_v3_listing)


section \<open>A concrete codec\<close>

text \<open>The layout of the documentation, with the identity for the text and no v3 records.\<close>

definition plain_codec :: Codec where
  "plain_codec =
     \<lparr>pack_tracker_v3_handshake = (\<lambda>f. HTRK_MAGIC @ be_bytes16 HTRK_VERSION_V3 @ be_bytes16 f),
      pack_tracker_v3_listing_request = [0, 1, 0, 0],
      parse_tracker_header = (\<lambda>h. if length h < 12 then None else Some (from_be16 (h ! 10) (h ! 11))),
      tracker_record_is_padding = (\<lambda>h. h \<noteq> [] \<and> hd h = 0),
      parse_tracker_record_fixed = (\<lambda>f. if length f < 11 then None else
        Some \<lparr>fx_port = from_be16 (f ! 4) (f ! 5), fx_nusers = from_be16 (f ! 6) (f ! 7),
              fx_name_len = f ! 10\<rparr>),
      tracker_normalize_text = id,
      parse_tracker_v3_response_header = (\<lambda>h. if length h < 10 then None else
        Some \<lparr>total_size = from_be32 (h ! 2) (h ! 3) (h ! 4) (h ! 5),
              record_count = from_be16 (h ! 8) (h ! 9)\<rparr>),
      parse_tracker_v3_record = (\<lambda>p off. if off < length p then
        Some (\<lparr>addr_type = 0x48, address = [p ! off], tr_port = 5500, nusers = 0, tr_name = [],
          tr_desc = [], tlv_count = 0, tlv_bytes = []\<rparr>, 1) else None)\<rparr>"

lemma plain_codec_ok: "codec_ok plain_codec"
  by (auto simp: codec_ok_def plain_codec_def split: if_splits)

definition peer :: "bytes \<Rightarrow> Ending \<Rightarrow> Conn" where
  "peer bs e = \<lparr>inbound = bs, ending = e, outbound = [], room = None, late = False\<rparr>"

definition flood :: Conn where
  "flood = peer (HTRK_MAGIC @ [0, 1] @ replicate 8 1 @ replicate 40000000 0) Silent"


section \<open>The v1 format\<close>

datatype v1_item = Batch bytes | Server bytes u16 u16 bytes bytes bytes

fun v1_item_ok :: "v1_item \<Rightarrow> bool" where
  "v1_item_ok (Batch h) \<longleftrightarrow> length h = 8 \<and> hd h = 0"
| "v1_item_ok (Server ip port n res name desc) \<longleftrightarrow>
     length ip = 4 \<and> hd ip \<noteq> 0 \<and> length res = 2 \<and> length name < 256 \<and> length desc < 256"

fun encode_v1_item :: "v1_item \<Rightarrow> bytes" where
  "encode_v1_item (Batch h) = h"
| "encode_v1_item (Server ip port n res name desc) =
     (ip @ be_bytes16 port @ be_bytes16 n) @ (res @ [of_nat (length name)]) @ name @
     [of_nat (length desc)] @ desc"

fun v1_item_records :: "Codec \<Rightarrow> v1_item \<Rightarrow> TrackerRecord list" where
  "v1_item_records P (Batch h) = []"
| "v1_item_records P (Server ip port n res name desc) =
     [\<lparr>addr_type = ADDR_IPV4, address = ip, tr_port = port, nusers = n,
       tr_name = tracker_normalize_text P name, tr_desc = tracker_normalize_text P desc,
       tlv_count = 0, tlv_bytes = []\<rparr>]"

fun is_server :: "v1_item \<Rightarrow> bool" where
  "is_server (Batch h) = False"
| "is_server (Server ip port n res name desc) = True"

definition servers :: "v1_item list \<Rightarrow> nat" where
  "servers items = length (filter is_server items)"

definition batches :: "v1_item list \<Rightarrow> nat" where
  "batches items = length (filter (\<lambda>i. \<not> is_server i) items)"

lemma servers_simps [simp]:
  "servers [] = 0" "servers (Batch h # is) = servers is"
  "servers (Server ip port n res name desc # is) = Suc (servers is)"
  by (simp_all add: servers_def)

lemma batches_simps [simp]:
  "batches [] = 0" "batches (Batch h # is) = Suc (batches is)"
  "batches (Server ip port n res name desc # is) = batches is"
  by (simp_all add: batches_def)

lemma bind_act_Ret: "m s = (Ret a, s') \<Longrightarrow> bind_act m k s = k a s'"
  by (simp add: bind_act_def)

lemma read_prefix:
  "inbound s = xs @ ys \<Longrightarrow> length xs = n \<Longrightarrow>
   bind_act (read_exact_or_short n) k s = k xs (s\<lparr>inbound := ys\<rparr>)"
  by (simp add: bind_act_def read_exact_or_short_def)

lemma read_text_prefix:
  "inbound s = xs @ ys \<Longrightarrow> length xs = unat n \<Longrightarrow>
   bind_act (read_text P n) k s = k (tracker_normalize_text P xs) (s\<lparr>inbound := ys\<rparr>)"
  by (simp add: read_text_def bind_act_def read_exact_or_short_def ret_def)

lemma bind_ok_or_Some [simp]: "bind_act (ok_or (Some a) e) k = k a"
  by (rule ext) (simp add: bind_act_def ok_or_def ret_def)

lemma bind_ret [simp]: "bind_act (ret a) k = k a"
  by (rule ext) (simp add: bind_act_def ret_def)

lemma unat_of_nat_u8: "n < 256 \<Longrightarrow> unat (of_nat n :: u8) = n"
  by (simp add: unat_of_nat)

lemma nth_eight:
  "length ip = 4 \<Longrightarrow> length res = 2 \<Longrightarrow>
   ((ip @ [a, b, c, d]) @ res @ [l]) ! 4 = a \<and> ((ip @ [a, b, c, d]) @ res @ [l]) ! 5 = b \<and>
   ((ip @ [a, b, c, d]) @ res @ [l]) ! 6 = c \<and> ((ip @ [a, b, c, d]) @ res @ [l]) ! 7 = d \<and>
   ((ip @ [a, b, c, d]) @ res @ [l]) ! 10 = l"
  by (simp add: nth_append)

lemma read_v1_record_server:
  assumes P: "codec_ok P" and ok: "v1_item_ok (Server ip port n res name desc)"
    and s: "inbound s = (res @ [of_nat (length name)]) @ name @ [of_nat (length desc)] @ desc @ rest"
  shows "bind_act (read_v1_record P (ip @ be_bytes16 port @ be_bytes16 n)) k s =
    k (hd (v1_item_records P (Server ip port n res name desc))) (s\<lparr>inbound := rest\<rparr>)"
proof -
  let ?f = "(ip @ be_bytes16 port @ be_bytes16 n) @ res @ [of_nat (length name)]"
  have "parse_tracker_record_fixed P ?f =
      Some \<lparr>fx_port = port, fx_nusers = n, fx_name_len = of_nat (length name)\<rparr>"
    using P ok nth_eight [of ip res]
    by (simp add: codec_ok_def be_bytes16_def be_simps)
  then show ?thesis
    using ok s
    by (simp add: read_v1_record_def bind_act_def read_exact_or_short_def ret_def ok_or_def
        read_text_def unat_of_nat_u8)
qed


lemma read_v1_records_items:
  assumes P: "codec_ok P"
  shows "list_all v1_item_ok items \<Longrightarrow> items = [] \<or> is_server (last items) \<Longrightarrow>
    servers items = unat remaining \<Longrightarrow> unat p + batches items \<le> 65535 \<Longrightarrow>
    inbound s = concat (map encode_v1_item items) @ rest \<Longrightarrow>
    read_v1_records P remaining p recs s =
      (Ret (recs @ concat (map (v1_item_records P) items)), s\<lparr>inbound := rest\<rparr>)"
proof (induction items arbitrary: remaining p recs s)
  case Nil
  then have "remaining = 0" by (simp add: unat_eq_zero)
  with Nil show ?case
    by (subst read_v1_records.simps) (simp add: ret_def)
next
  case (Cons it items)
  have last: "items = [] \<or> is_server (last items)"
    using Cons.prems(2) by (cases items) auto
  have ne: "remaining \<noteq> 0"
  proof -
    have "is_server (last (it # items))" using Cons.prems(2) by simp
    then have "last (it # items) \<in> set (filter is_server (it # items))"
      using last_in_set [of "it # items"] unfolding set_filter by blast
    then have "servers (it # items) \<noteq> 0" unfolding servers_def by (metis length_0_conv empty_iff list.set(1))
    then show ?thesis using Cons.prems(3) by auto
  qed
  show ?case
  proof (cases it)
    case (Batch h)
    have pad: "tracker_record_is_padding P h" and len: "length h = 8"
      using P Cons.prems(1) Batch by (simp_all add: codec_ok_def)
    have p1: "unat (p + 1) = unat p + 1"
      using Cons.prems(4) Batch by (simp add: unat_word_ariths)
    have cap: "\<not> p + 1 > MAX_V1_PADDING_SLOTS"
      using Cons.prems(4) Batch p1 by (simp add: MAX_V1_PADDING_SLOTS_def word_less_nat_alt)
    show ?thesis
      using Cons.prems Batch ne pad cap len p1 last
      by (subst read_v1_records.simps)
         (simp add: read_prefix Cons.IH [of remaining "p + 1"])
  next
    case (Server ip port n res name desc)
    let ?h = "ip @ be_bytes16 port @ be_bytes16 n"
    have ok: "v1_item_ok (Server ip port n res name desc)"
      using Cons.prems(1) Server by simp
    have pad: "\<not> tracker_record_is_padding P ?h"
      using P ok by (cases ip) (auto simp: codec_ok_def)
    have rem: "unat (remaining - 1) = servers items"
      using Cons.prems(3) Server ne by (simp add: unat_minus_one)
    have step: "read_v1_records P remaining p recs s =
        read_v1_records P (remaining - 1) p
          (recs @ v1_item_records P (Server ip port n res name desc))
          (s\<lparr>inbound := concat (map encode_v1_item items) @ rest\<rparr>)"
      using Cons.prems(5) Server ne pad ok
      by (subst read_v1_records.simps)
         (simp add: read_prefix [of s ?h _ 8] read_v1_record_server [OF P ok])
    show ?thesis
      using Cons.prems Server step last rem
      by (simp add: Cons.IH [of "remaining - 1" p])
  qed
qed

text \<open>C35: The v1 reader inverts the format: a reply whose header announces the number of servers,
  with batch headers between the records, is read as exactly those servers in order, the bytes after
  the last record are left unread, and the request written is the six-byte magic.\<close>

theorem v1_roundtrip:
  assumes P: "codec_ok P" and items: "list_all v1_item_ok items"
    and last: "items = [] \<or> is_server (last items)"
    and count: "servers items = unat n" and pads: "batches items \<le> 65535"
    and v: "v \<in> {HTRK_VERSION_V1, HTRK_VERSION_V2}"
    and hdr: "length pre = 4" "length suf = 2"
    and s: "inbound s = HTRK_MAGIC @ be_bytes16 v @ pre @ be_bytes16 n @ suf @
              concat (map encode_v1_item items) @ rest" "room s = None"
  shows "run_v1 P s =
    (Ret \<lparr>version = 1, expected = n, records = concat (map (v1_item_records P) items)\<rparr>,
     s\<lparr>inbound := rest, outbound := outbound s @ HTRK_MAGIC @ [0, 1]\<rparr>)"
proof -
  let ?resp = "HTRK_MAGIC @ be_bytes16 v"
  let ?tail = "pre @ be_bytes16 n @ suf"
  have nth: "(?resp @ ?tail) ! 10 = ucast (drop_bit 8 n) \<and> (?resp @ ?tail) ! 11 = ucast n"
    using hdr by (simp add: HTRK_MAGIC_def be_bytes16_def nth_append)
  then have parse: "parse_tracker_header P (?resp @ ?tail) = Some n"
    using P hdr by (simp add: codec_ok_def HTRK_MAGIC_def be_simps)
  have ver: "from_be16 (?resp ! 4) (?resp ! 5) = v"
    by (simp add: HTRK_MAGIC_def be_bytes16_def be_simps)
  have disp: "dispatch_after_response P ?resp = read_v1_listing P ?resp"
    using v ver by (auto simp: dispatch_after_response_def Let_def HTRK_MAGIC_def
        HTRK_VERSION_V1_def HTRK_VERSION_V2_def HTRK_VERSION_V3_def)
  define t where "t = s\<lparr>outbound := outbound s @ HTRK_MAGIC @ [0, 1],
      inbound := ?tail @ concat (map encode_v1_item items) @ rest\<rparr>"
  have wr: "run_v1 P s = read_v1_listing P ?resp t"
    using s disp
    by (simp add: run_v1_def t_def bind_act_def write_all_def read_exact_or_short_def HTRK_MAGIC_def
        be_bytes16_def HTRK_VERSION_V1_def)
  have tin: "inbound t = ?tail @ concat (map encode_v1_item items) @ rest" by (simp add: t_def)
  have recs: "read_v1_records P n 0 [] (t\<lparr>inbound := concat (map encode_v1_item items) @ rest\<rparr>) =
      (Ret (concat (map (v1_item_records P) items)), t\<lparr>inbound := rest\<rparr>)"
    using read_v1_records_items [OF P items last count, of 0] pads by simp
  have "read_v1_listing P ?resp t =
      (Ret \<lparr>version = 1, expected = n, records = concat (map (v1_item_records P) items)\<rparr>,
       t\<lparr>inbound := rest\<rparr>)"
    unfolding read_v1_listing_def
    using hdr parse tin
    by (subst read_prefix [of t ?tail "concat (map encode_v1_item items) @ rest"])
       (simp_all add: bind_act_Ret [of "read_v1_records P n 0 []", OF recs] ret_def)
  with wr show ?thesis by (simp add: t_def)
qed

definition sample_items :: "v1_item list" where
  "sample_items = [Server [10, 0, 0, 1] 5500 3 [0, 0] [65, 66] [67], Batch [0, 1, 0, 9, 0, 2, 0, 1],
     Server [10, 0, 0, 2] 5600 0 [0, 0] [] []]"

definition sample_peer :: Conn where
  "sample_peer = peer (HTRK_MAGIC @ be_bytes16 HTRK_VERSION_V1 @ [0, 1, 0, 9] @ be_bytes16 2 @ [0, 1] @
     concat (map encode_v1_item sample_items) @ [99]) Eof"

theorem v1_roundtrip_witness:
  "run_v1 plain_codec sample_peer =
    (Ret \<lparr>version = 1, expected = 2,
          records = concat (map (v1_item_records plain_codec) sample_items)\<rparr>,
     sample_peer\<lparr>inbound := [99], outbound := outbound sample_peer @ HTRK_MAGIC @ [0, 1]\<rparr>)"
  by (rule v1_roundtrip [OF plain_codec_ok, where pre = "[0, 1, 0, 9]" and suf = "[0, 1]" and v = 1])
     (simp_all add: sample_items_def sample_peer_def peer_def HTRK_VERSION_V1_def)

section \<open>Complete listings\<close>

lemma bind_Ret_iff:
  "fst (bind_act m k s) = Ret b \<longleftrightarrow> (\<exists>a s'. m s = (Ret a, s') \<and> fst (k a s') = Ret b)"
  by (auto simp: bind_act_def split: prod.splits reply.splits)

lemma v1_records_length:
  "fst (read_v1_records P remaining p recs s) = Ret rs \<Longrightarrow> length rs = length recs + unat remaining"
proof (induction P remaining p recs arbitrary: s rule: read_v1_records.induct)
  case (1 P remaining p recs)
  show ?case
  proof (cases "remaining = 0")
    case True
    with "1.prems" show ?thesis by (subst (asm) read_v1_records.simps) (simp add: ret_def)
  next
    case False
    from "1.prems" False obtain h s1 where h: "read_exact_or_short 8 s = (Ret h, s1)"
      and r: "fst ((if tracker_record_is_padding P h
          then if p + 1 > MAX_V1_PADDING_SLOTS then throw ExcessivePadding
               else read_v1_records P remaining (p + 1) recs
          else bind_act (read_v1_record P h)
            (\<lambda>rec. read_v1_records P (remaining - 1) p (recs @ [rec]))) s1) = Ret rs"
      by (subst (asm) read_v1_records.simps) (auto simp: bind_Ret_iff)
    show ?thesis
    proof (cases "tracker_record_is_padding P h")
      case True
      with r "1.IH"(1) [OF False True, of s1] show ?thesis
        by (auto simp: throw_def split: if_splits)
    next
      case pad: False
      with r obtain rec s2 where "fst (read_v1_records P (remaining - 1) p (recs @ [rec]) s2) = Ret rs"
        by (auto simp: bind_Ret_iff)
      from "1.IH"(2) [OF False pad this] show ?thesis
        using False by (simp add: unat_minus_one unat_gt_0 Suc_leI)
    qed
  qed
qed

lemma v3_records_length:
  "read_v3_records P payload count i off recs = Inr (rs, off') \<Longrightarrow> i \<le> unat count \<Longrightarrow>
   length rs = length recs + (unat count - i)"
proof (induction P payload count i off recs rule: read_v3_records.induct)
  case (1 P payload count i off recs)
  from "1.prems" show ?case
    by (subst (asm) read_v3_records.simps)
       (auto split: if_splits option.splits prod.splits dest!: "1.IH" [rotated 2, OF refl])
qed

lemma v3_listing_complete:
  "fst (read_v3_listing P s) = Ret l \<Longrightarrow> length (records l) = unat (expected l)"
proof -
  assume "fst (read_v3_listing P s) = Ret l"
  then consider "l = \<lparr>version = 3, expected = 0, records = []\<rparr>"
    | h payload s1 where "fst (v3_listing_of P h payload s1) = Ret l"
    unfolding read_v3_listing_def
    by (auto simp: bind_Ret_iff ret_def throw_def split: if_splits)
  then show ?thesis
    by cases (auto simp: v3_listing_of_def ret_def throw_def split: if_splits sum.splits
        dest!: v3_records_length [where i = 0, simplified])
qed

lemma v1_listing_complete:
  "fst (read_v1_listing P r s) = Ret l \<Longrightarrow> length (records l) = unat (expected l)"
proof -
  assume "fst (read_v1_listing P r s) = Ret l"
  then obtain n s1 rs s2 where "read_v1_records P n 0 [] s1 = (Ret rs, s2)"
      and "l = \<lparr>version = 1, expected = n, records = rs\<rparr>"
    unfolding read_v1_listing_def by (auto simp: bind_Ret_iff ret_def)
  then show ?thesis using v1_records_length [of P n 0 "[]" s1 rs] by simp
qed

lemma dispatch_complete:
  "dispatch_after_response P r s = (Ret l, s') \<Longrightarrow> length (records l) = unat (expected l)"
  by (auto simp: dispatch_after_response_def Let_def throw_def
      split: if_splits intro: v3_listing_complete [of P s] v1_listing_complete [of P r s])

lemma run_v1_complete:
  "fst (run_v1 P s) = Ret l \<Longrightarrow> length (records l) = unat (expected l)"
  unfolding run_v1_def bind_Ret_iff by (metis dispatch_complete prod.collapse)

lemma probe_complete:
  "fst (run_v3_probe P f s) = Ret (Listing l) \<Longrightarrow> length (records l) = unat (expected l)"
  unfolding run_v3_probe_def bind_Ret_iff
  by (elim exE conjE)
     (auto simp: bind_Ret_iff ret_def throw_def intro: dispatch_complete [of P _ _ l]
       split: option.split_asm reply.split_asm TrackerError.split_asm if_split_asm)

text \<open>A listing is complete or it is an error: whenever a fetch or a probe returns a listing, it
  holds exactly as many records as its header announced, in both formats.\<close>

theorem listing_complete:
  "fst (run_v1 P s) = Ret l \<or> fst (run_v3_probe P f s) = Ret (Listing l) \<Longrightarrow>
   length (records l) = unat (expected l)"
  using run_v1_complete probe_complete by blast

theorem listing_complete_witness:
  "length (records \<lparr>version = 1, expected = 2,
      records = concat (map (v1_item_records plain_codec) sample_items)\<rparr>) = unat (2 :: u16)"
proof -
  have "fst (run_v1 plain_codec sample_peer) = Ret \<lparr>version = 1, expected = 2,
      records = concat (map (v1_item_records plain_codec) sample_items)\<rparr>"
    by code_simp
  from listing_complete [OF disjI1, OF this] show ?thesis by simp
qed

text \<open>Where the handshake can be written, the v3 probe is inconclusive, and the caller falls back
  to v1, exactly when the reply is late, shorter than six bytes or does not start with the magic;
  whatever goes wrong after the magic is an error of the fetch, never a fallback.\<close>

theorem probe_falls_back_iff:
  "room s = None \<Longrightarrow>
   fst (run_v3_probe P f s) = Ret ProbeInconclusive \<longleftrightarrow>
     late s \<or> length (inbound s) < 6 \<or> take 4 (inbound s) \<noteq> HTRK_MAGIC"
  by (auto simp: run_v3_probe_def bind_act_def write_all_def read_under_watchdog_def
      read_exact_or_short_def ret_def throw_def split: Ending.splits prod.splits reply.splits)

theorem probe_falls_back_iff_witness:
  "fst (run_v3_probe plain_codec 0 (peer [72, 84, 82] Eof)) = Ret ProbeInconclusive"
  using probe_falls_back_iff [of "peer [72, 84, 82] Eof" plain_codec 0] by (simp add: peer_def)

end
