(* ===== verification/Tracker_Fetch_Props.thy ===== *)
theory Tracker_Fetch_Props
  imports Tracker_Fetch Tracker_Props
begin

text \<open>
  Properties of the walk over the trackers: plain text is spoken only to a tracker whose TLS
  handshake has failed, every tracker is reported once and in order, and where the walk can hang.
\<close>

section \<open>Verdicts\<close>

lemma verdict_lookup_record:
  "verdict_lookup (verdict_record c u v) u' = (if u' = u then v else verdict_lookup c u')"
  by (simp add: verdict_lookup_def verdict_record_def update_conv')

text \<open>
  A verdict \<open>No\<close> goes back to the one a walk started with or to a failed handshake it has seen, and
  every plain connect was made under such a verdict.
\<close>

definition handshake_failed :: "'c Walk \<Rightarrow> string \<Rightarrow> bool" where
  "handshake_failed w url \<longleftrightarrow> (\<exists>m. (url, UseTls, Some (TlsFailed m)) \<in> set (calls w))"

definition plain_only_after_failure ::
  "VerdictCache \<Rightarrow> (string \<times> Transport \<times> ConnectError option) list \<Rightarrow> bool" where
  "plain_only_after_failure vs cs \<longleftrightarrow>
     (\<forall>pre url r post. cs = pre @ (url, UsePlain, r) # post \<longrightarrow>
        verdict_lookup vs url = VNo \<or> (\<exists>m. (url, UseTls, Some (TlsFailed m)) \<in> set pre))"

definition no_downgrade :: "VerdictCache \<Rightarrow> 'c Walk \<Rightarrow> bool" where
  "no_downgrade vs w \<longleftrightarrow> plain_only_after_failure vs (calls w) \<and>
     (\<forall>url. verdict_lookup (verdicts w) url = VNo \<longrightarrow>
        verdict_lookup vs url = VNo \<or> handshake_failed w url)"

lemma plain_only_snoc:
  "plain_only_after_failure vs cs \<Longrightarrow>
   (t = UsePlain \<longrightarrow> verdict_lookup vs url = VNo \<or> (\<exists>m. (url, UseTls, Some (TlsFailed m)) \<in> set cs)) \<Longrightarrow>
   plain_only_after_failure vs (cs @ [(url, t, r)])"
  unfolding plain_only_after_failure_def
proof (intro allI impI)
  fix pre url' r' post
  assume prem: "\<forall>pre url r post. cs = pre @ (url, UsePlain, r) # post \<longrightarrow>
        verdict_lookup vs url = VNo \<or> (\<exists>m. (url, UseTls, Some (TlsFailed m)) \<in> set pre)"
    and t: "t = UsePlain \<longrightarrow> verdict_lookup vs url = VNo \<or> (\<exists>m. (url, UseTls, Some (TlsFailed m)) \<in> set cs)"
    and eq: "cs @ [(url, t, r)] = pre @ (url', UsePlain, r') # post"
  show "verdict_lookup vs url' = VNo \<or> (\<exists>m. (url', UseTls, Some (TlsFailed m)) \<in> set pre)"
  proof (cases post rule: rev_cases)
    case Nil
    then show ?thesis using eq t by simp
  next
    case (snoc post' x)
    then show ?thesis using eq prem by (metis append.assoc append_Cons butlast_snoc)
  qed
qed

lemma call_no_downgrade:
  assumes "no_downgrade vs w" "call_connector C url t w = (r, w')"
    "t = UsePlain \<longrightarrow> verdict_lookup vs url = VNo \<or> handshake_failed w url"
  shows "no_downgrade vs w'" "verdicts w' = verdicts w" "sent w' = sent w" "receiver w' = receiver w"
    "(url, t, case r of Inl e \<Rightarrow> Some e | Inr _ \<Rightarrow> None) \<in> set (calls w')"
proof -
  obtain c' where C: "C (connector w) url t = (r, c')"
      and w': "w' = w\<lparr>connector := c',
        calls := calls w @ [(url, t, case r of Inl e \<Rightarrow> Some e | Inr _ \<Rightarrow> None)]\<rparr>"
    using assms(2) by (auto simp: call_connector_def Let_def split: prod.splits)
  show "no_downgrade vs w'"
    using assms(1,3) unfolding no_downgrade_def w'
    by (auto simp: handshake_failed_def intro!: plain_only_snoc)
  show "verdicts w' = verdicts w" "sent w' = sent w" "receiver w' = receiver w"
    "(url, t, case r of Inl e \<Rightarrow> Some e | Inr _ \<Rightarrow> None) \<in> set (calls w')"
    using w' by simp_all
qed

lemma record_no_downgrade:
  "no_downgrade vs w \<Longrightarrow> c = verdicts w \<Longrightarrow> (v = VNo \<longrightarrow> handshake_failed w url) \<Longrightarrow>
   no_downgrade vs (w\<lparr>verdicts := verdict_record c url v\<rparr>)"
  by (auto simp: no_downgrade_def verdict_lookup_record handshake_failed_def)

lemma connect_no_downgrade:
  assumes "no_downgrade vs w" "connect_with_fallback C url w = (r, w')"
  shows "no_downgrade vs w' \<and> sent w' = sent w \<and> receiver w' = receiver w"
proof (cases "verdict_lookup (verdicts w) url = VNo")
  case True
  then have "verdict_lookup vs url = VNo \<or> handshake_failed w url"
    using assms(1) by (simp add: no_downgrade_def)
  with assms True show ?thesis
    using call_no_downgrade [OF assms(1), of C url UsePlain r w']
    by (simp add: connect_with_fallback_def)
next
  case False
  obtain r1 w1 where c1: "call_connector C url UseTls w = (r1, w1)"
    by (cases "call_connector C url UseTls w")
  note n1 = call_no_downgrade [OF assms(1) c1, simplified]
  show ?thesis
  proof (cases "\<exists>m. r1 = Inl (TlsFailed m)")
    case True
    then obtain m where m: "r1 = Inl (TlsFailed m)" by blast
    let ?w2 = "w1\<lparr>verdicts := verdict_record (verdicts w1) url VNo\<rparr>"
    have failed: "handshake_failed w1 url" using n1 m by (auto simp: handshake_failed_def)
    then have "no_downgrade vs ?w2" using n1(1) by (intro record_no_downgrade) simp_all
    moreover have "call_connector C url UsePlain ?w2 = (r, w')"
      using assms(2) False c1 m by (simp add: connect_with_fallback_def)
    moreover have "handshake_failed ?w2 url" using failed by (simp add: handshake_failed_def)
    ultimately show ?thesis
      using call_no_downgrade [of vs ?w2 C url UsePlain r w'] n1 by simp
  next
    case other: False
    with assms(2) False c1 n1 show ?thesis
      by (auto simp: connect_with_fallback_def record_no_downgrade split: sum.splits ConnectError.splits)
  qed
qed

section \<open>Events\<close>

definition tracker_block :: "string \<Rightarrow> TrackerEvent list \<Rightarrow> bool" where
  "tracker_block url b \<longleftrightarrow>
     (\<exists>m. b = [BatchError url m]) \<or>
     (\<exists>v n rs. b = BatchBegin url v n # map (Record n) rs \<and> length rs = unat n)"

lemma send_event_calls:
  "send_event e w = (ok, w') \<Longrightarrow> calls w' = calls w \<and> verdicts w' = verdicts w"
  by (auto simp: send_event_def split: option.splits nat.splits)

lemma emit_records_calls:
  "emit_records n rs w = (ok, w') \<Longrightarrow> calls w' = calls w \<and> verdicts w' = verdicts w"
  by (induction n rs w rule: emit_records.induct)
     (auto split: prod.splits if_splits dest: send_event_calls)

lemma emit_calls:
  "emit_listing url l w = (ok, w') \<Longrightarrow> calls w' = calls w \<and> verdicts w' = verdicts w"
  "emit_error url m w = (ok, w') \<Longrightarrow> calls w' = calls w \<and> verdicts w' = verdicts w"
  by (auto simp: emit_listing_def emit_error_def Let_def split: prod.splits if_splits
      dest!: send_event_calls emit_records_calls)

lemma no_downgrade_calls:
  "no_downgrade vs w \<Longrightarrow> calls w' = calls w \<and> verdicts w' = verdicts w \<Longrightarrow> no_downgrade vs w'"
  by (simp add: no_downgrade_def handshake_failed_def)

lemma emit_no_downgrade:
  "no_downgrade vs w \<Longrightarrow> emit_listing url l w = (ok, w') \<Longrightarrow> no_downgrade vs w'"
  "no_downgrade vs w \<Longrightarrow> emit_error url m w = (ok, w') \<Longrightarrow> no_downgrade vs w'"
  "no_downgrade vs w \<Longrightarrow> send_event e w = (ok, w') \<Longrightarrow> no_downgrade vs w'"
  by (auto dest: emit_calls send_event_calls intro: no_downgrade_calls)

lemma fetch_v1_no_downgrade:
  assumes "no_downgrade vs w" "fetch_v1 P C url w = Some (go_on, w')"
  shows "no_downgrade vs w'"
proof -
  obtain r w1 where c: "connect_with_fallback C url w = (r, w1)" by fastforce
  then have n: "no_downgrade vs w1" using connect_no_downgrade [OF assms(1)] by blast
  show ?thesis
    using assms(2) c by (auto simp: fetch_v1_def split: sum.splits reply.splits
        dest: emit_no_downgrade [OF n])
qed

lemma fetch_one_no_downgrade:
  assumes "no_downgrade vs w" "fetch_one P C f url w = Some (go_on, w')"
  shows "no_downgrade vs w'"
proof -
  obtain r w1 where c: "connect_with_fallback C url w = (r, w1)" by fastforce
  then have n: "no_downgrade vs w1" using connect_no_downgrade [OF assms(1)] by blast
  show ?thesis
    using assms(2) c by (auto simp: fetch_one_def split: sum.splits reply.splits Outcome.splits
        dest: emit_no_downgrade [OF n] fetch_v1_no_downgrade [OF n])
qed

lemma run_fetch_notifying_no_downgrade:
  "no_downgrade vs w \<Longrightarrow> run_fetch_notifying P C f urls n w = Some (w', k) \<Longrightarrow> no_downgrade vs w'"
proof (induction P C f urls n w rule: run_fetch_notifying.induct)
  case (1 P C f n w)
  then show ?case
    by (cases "send_event Done w") (auto intro: emit_no_downgrade)
next
  case (2 P C f url urls n w)
  then show ?case
    by (auto split: option.splits prod.splits if_splits dest: fetch_one_no_downgrade)
qed

text \<open>C11: In a whole walk, a tracker is spoken to in plain text only where the remembered verdict said
  so at the start or a TLS handshake with it has failed earlier in the walk; a rejected certificate or
  an unreachable host never leads to a plain connection by itself.\<close>

theorem walk_never_downgrades:
  assumes "run_fetch P C f urls w = Some w'" "calls w = []"
    "calls w' = pre @ (url, UsePlain, r) # post"
  shows "verdict_lookup (verdicts w) url = VNo \<or> (\<exists>m. (url, UseTls, Some (TlsFailed m)) \<in> set pre)"
proof -
  have "no_downgrade (verdicts w) w"
    using assms(2) by (simp add: no_downgrade_def plain_only_after_failure_def)
  then have "no_downgrade (verdicts w) w'"
    using assms(1) run_fetch_notifying_no_downgrade by (fastforce simp: run_fetch_def)
  then show ?thesis
    using assms(3) by (simp add: no_downgrade_def plain_only_after_failure_def)
qed


text \<open>A tracker that does not finish its TLS handshake, and one whose certificate is refused.\<close>

definition script :: "(ConnectError + Conn) list connector" where
  "script c url t = (case c of [] \<Rightarrow> (Inl (TransportFailed ''end''), []) | r # rs \<Rightarrow> (r, rs))"

definition start_walk :: "(ConnectError + Conn) list \<Rightarrow> (ConnectError + Conn) list Walk" where
  "start_walk c = \<lparr>connector = c, calls = [], verdicts = [], sent = [], receiver = None\<rparr>"

definition two_trackers :: "(ConnectError + Conn) list" where
  "two_trackers = [Inl (TrustRejected ''no''), Inl (TlsFailed ''eof''), Inr (peer [] Eof), Inr sample_peer]"

definition two_trackers_end :: "(ConnectError + Conn) list Walk" where
  "two_trackers_end = the (run_fetch plain_codec script 0 [''a'', ''b''] (start_walk two_trackers))"

theorem walk_never_downgrades_witness:
  "verdict_lookup [] ''b'' = VNo \<or> (\<exists>m. (''b'', UseTls, Some (TlsFailed m)) \<in>
     set [(''a'', UseTls, Some (TrustRejected ''no'')), (''b'', UseTls, Some (TlsFailed ''eof''))])"
proof -
  have r: "run_fetch plain_codec script 0 [''a'', ''b''] (start_walk two_trackers) = Some two_trackers_end"
    by code_simp
  have c: "calls two_trackers_end =
      [(''a'', UseTls, Some (TrustRejected ''no'')), (''b'', UseTls, Some (TlsFailed ''eof''))] @
      (''b'', UsePlain, None) # [(''b'', UsePlain, None)]"
    by code_simp
  from walk_never_downgrades [OF r _ c] show ?thesis by (simp add: start_walk_def)
qed

section \<open>The report of a walk\<close>

lemma emit_records_sent:
  "receiver w = None \<Longrightarrow> emit_records n rs w = (True, w\<lparr>sent := sent w @ map (Record n) rs\<rparr>)"
  by (induction n rs w rule: emit_records.induct) (auto simp: send_event_def)

lemma emit_listing_sent:
  "receiver w = None \<Longrightarrow>
   emit_listing url l w =
     (True, w\<lparr>sent := sent w @ BatchBegin url (version l) (expected l) # map (Record (expected l)) (records l)\<rparr>)"
  by (simp add: emit_listing_def send_event_def emit_records_sent)

lemma emit_error_sent:
  "receiver w = None \<Longrightarrow> emit_error url m w = (True, w\<lparr>sent := sent w @ [BatchError url m]\<rparr>)"
  by (simp add: emit_error_def send_event_def)

lemma connect_sent:
  "connect_with_fallback C url w = (r, w') \<Longrightarrow> sent w' = sent w \<and> receiver w' = receiver w"
  by (auto simp: connect_with_fallback_def call_connector_def Let_def
      split: if_splits prod.splits sum.splits ConnectError.splits)

definition reports :: "string \<Rightarrow> 'c Walk \<Rightarrow> (bool \<times> 'c Walk) option \<Rightarrow> bool" where
  "reports url w r \<longleftrightarrow> (\<forall>go_on w'. r = Some (go_on, w') \<longrightarrow>
     go_on \<and> receiver w' = None \<and> (\<exists>b. tracker_block url b \<and> sent w' = sent w @ b))"

lemma reports_emit:
  "receiver w = None \<Longrightarrow> length (records l) = unat (expected l) \<Longrightarrow> reports url w (Some (emit_listing url l w))"
  "receiver w = None \<Longrightarrow> reports url w (Some (emit_error url m w))"
  by (auto simp: reports_def emit_listing_sent emit_error_sent tracker_block_def)

lemma reports_sent: "sent w' = sent w \<Longrightarrow> reports url w' r \<Longrightarrow> reports url w r"
  by (auto simp: reports_def)

lemma fetch_v1_reports:
  assumes "receiver w = None" shows "reports url w (fetch_v1 P C url w)"
proof -
  obtain r w1 where c: "connect_with_fallback C url w = (r, w1)" by fastforce
  then have w1: "sent w1 = sent w" "receiver w1 = None" using connect_sent [OF c] assms by auto
  show ?thesis
    unfolding fetch_v1_def c
    by (rule reports_sent [OF w1(1)])
       (auto split: sum.split reply.split intro: reports_emit w1 run_v1_complete simp: reports_def [of _ _ None])
qed

lemma fetch_one_reports:
  assumes "receiver w = None" shows "reports url w (fetch_one P C f url w)"
proof -
  obtain r w1 where c: "connect_with_fallback C url w = (r, w1)" by fastforce
  then have w1: "sent w1 = sent w" "receiver w1 = None" using connect_sent [OF c] assms by auto
  show ?thesis
    unfolding fetch_one_def c
    by (rule reports_sent [OF w1(1)])
       (auto split: sum.split reply.split Outcome.split intro: reports_emit w1 probe_complete fetch_v1_reports
         simp: reports_def [of _ _ None])
qed

section \<open>Ending\<close>

text \<open>An operation that never completes waits on a peer that has gone silent.\<close>

definition pends_only_on_silence :: "'a act \<Rightarrow> bool" where
  "pends_only_on_silence m \<longleftrightarrow> (\<forall>s. ending (snd (m s)) = ending s \<and> (fst (m s) = Pending \<longrightarrow> ending s = Silent))"

lemma pends_basic [simp]:
  "pends_only_on_silence (ret a)" "pends_only_on_silence (throw e)" "pends_only_on_silence (ok_or x e)"
  "pends_only_on_silence (read_exact_or_short n)" "pends_only_on_silence (write_all bs)"
  by (auto simp: pends_only_on_silence_def ret_def throw_def ok_or_def read_exact_or_short_def write_all_def
      split: Ending.splits option.splits)

lemma pends_bind [simp]:
  "pends_only_on_silence m \<Longrightarrow> (\<And>a. pends_only_on_silence (k a)) \<Longrightarrow> pends_only_on_silence (bind_act m k)"
  by (auto simp: pends_only_on_silence_def bind_act_def split: prod.splits reply.splits) (metis fst_conv snd_conv)+

lemma pends_v1_records [simp]: "pends_only_on_silence (read_v1_records P remaining p recs)"
proof (induction P remaining p recs rule: read_v1_records.induct)
  case (1 P remaining p recs)
  then show ?case
    by (subst read_v1_records.simps) (auto simp: read_v1_record_def read_text_def Let_def)
qed

lemma pends_dispatch [simp]: "pends_only_on_silence (dispatch_after_response P r)"
proof -
  have "pends_only_on_silence (v3_listing_of P h payload)" for h payload
    by (auto simp: v3_listing_of_def split: sum.split)
  then show ?thesis
    by (auto simp: dispatch_after_response_def read_v1_listing_def read_v3_listing_def Let_def)
qed

lemma pends_run_v1 [simp]: "pends_only_on_silence (run_v1 P)"
  by (simp add: run_v1_def)

lemma pends_watchdog [simp]: "pends_only_on_silence (read_under_watchdog n)"
  by (auto simp: pends_only_on_silence_def read_under_watchdog_def read_exact_or_short_def split: Ending.splits)

lemma pends_probe [simp]: "pends_only_on_silence (run_v3_probe P f)"
  unfolding run_v3_probe_def
  by (intro pends_bind pends_basic pends_watchdog)
     (auto split: option.split reply.split TrackerError.split)

lemma not_pending: "pends_only_on_silence m \<Longrightarrow> ending s \<noteq> Silent \<Longrightarrow> fst (m s) \<noteq> Pending"
  by (auto simp: pends_only_on_silence_def)

text \<open>A connector whose streams all end: in data, in a close or in an error.\<close>

definition streams_end :: "'c connector \<Rightarrow> bool" where
  "streams_end C \<longleftrightarrow> (\<forall>c url t s c'. C c url t = (Inr s, c') \<longrightarrow> ending s \<noteq> Silent)"

lemma connect_ends:
  "streams_end C \<Longrightarrow> connect_with_fallback C url w = (Inr s, w') \<Longrightarrow> ending s \<noteq> Silent"
  unfolding streams_end_def
  by (fastforce simp: connect_with_fallback_def call_connector_def Let_def
      split: if_splits prod.splits sum.splits ConnectError.splits)

lemma fetch_v1_ends: "streams_end C \<Longrightarrow> fetch_v1 P C url w \<noteq> None"
  using not_pending [OF pends_run_v1, of _ P]
  by (auto simp: fetch_v1_def split: prod.splits sum.splits reply.splits dest!: connect_ends)

lemma fetch_one_ends: "streams_end C \<Longrightarrow> fetch_one P C f url w \<noteq> None"
  using not_pending [OF pends_probe, of _ P f] fetch_v1_ends [of C P url]
  by (auto simp: fetch_one_def split: prod.splits sum.splits reply.splits Outcome.splits
      dest: connect_ends)

lemma run_fetch_notifying_reports:
  "streams_end C \<Longrightarrow> receiver w = None \<Longrightarrow>
   \<exists>w' blocks. run_fetch_notifying P C f urls n w = Some (w', n + length urls + 1) \<and>
     list_all2 tracker_block urls blocks \<and> sent w' = sent w @ concat blocks @ [Done]"
proof (induction urls arbitrary: n w)
  case Nil
  then show ?case by (simp add: send_event_def)
next
  case (Cons url urls)
  obtain go_on w1 where f: "fetch_one P C f url w = Some (go_on, w1)"
    using fetch_one_ends [OF Cons.prems(1), of P f url w] by auto
  then have "reports url w (Some (go_on, w1))"
    using fetch_one_reports [OF Cons.prems(2), of url P C f] by simp
  then obtain b where g: "go_on" "receiver w1 = None" and b: "tracker_block url b" "sent w1 = sent w @ b"
    by (auto simp: reports_def)
  obtain w' blocks where "run_fetch_notifying P C f urls (n + 1) w1 = Some (w', (n + 1) + length urls + 1)"
      and "list_all2 tracker_block urls blocks" and "sent w' = sent w1 @ concat blocks @ [Done]"
    using Cons.IH [OF Cons.prems(1) g(2)] by blast
  then show ?case using f g b by (intro exI [of _ w'] exI [of _ "b # blocks"]) simp
qed

text \<open>C21: Where every stream the connector returns ends at some point and the receiver stays, the walk
  completes and reports every configured tracker exactly once, in order: a batch with the announced
  number of records or one error line, and then a final \<open>Done\<close>.\<close>

theorem walk_reports_every_tracker:
  assumes "streams_end C" "receiver w = None"
  shows "\<exists>w' blocks. run_fetch P C f urls w = Some w' \<and> list_all2 tracker_block urls blocks \<and>
    sent w' = sent w @ concat blocks @ [Done]"
  using run_fetch_notifying_reports [OF assms, of P f urls 0] by (auto simp: run_fetch_def)

definition script_ends :: "(ConnectError + Conn) list connector" where
  "script_ends c url t =
     (case c of Inr s # rs \<Rightarrow> (if ending s = Silent then Inl (TransportFailed ''silent'') else Inr s, rs)
      | r # rs \<Rightarrow> (r, rs) | [] \<Rightarrow> (Inl (TransportFailed ''end''), []))"

lemma script_ends_end: "streams_end script_ends"
  by (auto simp: streams_end_def script_ends_def split: list.splits sum.splits if_splits)

theorem walk_reports_every_tracker_witness:
  "\<exists>w' blocks. run_fetch plain_codec script_ends 0 [''a'', ''b''] (start_walk two_trackers) = Some w' \<and>
    list_all2 tracker_block [''a'', ''b''] blocks \<and> sent w' = [] @ concat blocks @ [Done]"
  using walk_reports_every_tracker [OF script_ends_end, of "start_walk two_trackers" plain_codec 0 "[''a'', ''b'']"]
  by (simp add: start_walk_def)


section \<open>Where the walk waits and where it falls back\<close>

text \<open>
  A tracker that sends the magic of a v1 reply within the watchdog and then stays silent holds the
  walk: no later read has a timeout, and the trackers after it are not asked.
\<close>

lemma silent_tracker_holds_walk:
  assumes "connect_with_fallback C url w = (Inr s, w')"
    and "inbound s = HTRK_MAGIC @ be_bytes16 HTRK_VERSION_V1 @ tail" "length tail < 8"
    and "ending s = Silent" "\<not> late s" "room s = None"
  shows "run_fetch P C f (url # urls) w = None"
proof -
  have "fst (run_v3_probe P f s) = Pending"
    using assms(2-)
    by (simp add: run_v3_probe_def bind_act_def write_all_def read_under_watchdog_def
        read_exact_or_short_def dispatch_after_response_def read_v1_listing_def Let_def
        HTRK_MAGIC_def be_bytes16_def HTRK_VERSION_V1_def HTRK_VERSION_V3_def from_be16_def)
  then show ?thesis
    using assms(1) by (simp add: run_fetch_def fetch_one_def)
qed

text \<open>
  The reopen after an inconclusive probe goes through the whole ladder again: a tracker whose probe
  ran over TLS is asked in plain text where the second handshake fails.
\<close>

lemma reopen_may_leave_tls:
  "map_option calls (run_fetch plain_codec script 0 [''a'']
     (start_walk [Inr (peer [] Eof), Inl (TlsFailed ''eof''), Inr sample_peer])) =
   Some [(''a'', UseTls, None), (''a'', UseTls, Some (TlsFailed ''eof'')), (''a'', UsePlain, None)]"
  by code_simp

section \<open>Hosts and ports\<close>

text \<open>
  A host and port written out are read back, with brackets for an address that holds colons; white
  space around them does not matter to a text without white space inside.
\<close>

lemma dec_of_nat_no_colon: "CHR '':'' \<notin> set (dec_of_nat n)"
proof
  assume "CHR '':'' \<in> set (dec_of_nat n)"
  then have "is_ascii_digit CHR '':''" using dec_of_nat_digits [of n] by (simp add: list_all_iff)
  then show False by (simp add: is_ascii_digit_def)
qed

lemma parse_host_port_written:
  assumes "str_trim (host @ '':'' @ dec_of_nat (unat p)) = host @ '':'' @ dec_of_nat (unat p)"
    and "CHR '':'' \<notin> set host" "host = [] \<or> hd host \<noteq> CHR ''[''"
  shows "parse_host_port (host @ '':'' @ dec_of_nat (unat (p :: u16))) = (host, p)"
proof -
  let ?d = "dec_of_nat (unat p)"
  have p: "parse_uint 16 ?d = Some (unat p)"
    using unsigned_less [of p, where ?'a = nat] by simp
  have "rsplit_once CHR '':'' (host @ '':'' @ ?d) = Some (host, ?d)"
    by (simp add: rsplit_once_iff dec_of_nat_no_colon)
  moreover have "strip_prefix ''['' (host @ '':'' @ ?d) = None"
    using assms(3) by (cases host) auto
  ultimately show ?thesis
    using assms(1,2) p by (simp add: parse_host_port_def parse_host_port_plain_def)
qed

lemma parse_host_port_bracketed:
  assumes "str_trim (''['' @ host @ '']:'' @ dec_of_nat (unat p)) = ''['' @ host @ '']:'' @ dec_of_nat (unat p)"
    and "CHR '']'' \<notin> set host"
  shows "parse_host_port (''['' @ host @ '']:'' @ dec_of_nat (unat (p :: u16))) = (host, p)"
proof -
  have "split_once CHR '']'' (host @ '']:'' @ dec_of_nat (unat p)) = Some (host, '':'' @ dec_of_nat (unat p))"
    using assms(2) by (simp add: split_once_iff)
  moreover have "parse_uint 16 (dec_of_nat (unat p)) = Some (unat p)"
    using unsigned_less [of p, where ?'a = nat] by simp
  ultimately show ?thesis
    using assms(1) by (simp add: parse_host_port_def parse_port_or_default_def)
qed

text \<open>A TLS stream the production connector returns has passed the trust gate.\<close>

lemma tcp_tls_connect_trusted:
  "tcp_tls_connect N verify n url UseTls = (Inr s, n') \<Longrightarrow>
   \<exists>tcp n1 webpki_ok fp. wrap_tls N n1 tcp (fst (parse_host_port url)) = (Inr (s, webpki_ok, fp), n') \<and>
     (webpki_ok \<or> verify = None \<or>
      (\<exists>v f. verify = Some v \<and> fp = Some f \<and> v (fst (parse_host_port url)) (snd (parse_host_port url)) f))"
  by (auto simp: tcp_tls_connect_def trust_gate_def Let_def
      split: prod.splits sum.splits option.splits if_splits) fastforce

end
