(* ===== verification/Htxf.thy ===== *)
theory Htxf
  imports Hx_Prelude
begin

text \<open>
  The file-transfer subchannel (crate \<open>hxnet\<close>, \<open>htxf.rs\<close>): the framed byte channel over a blocking
  transport, the connection that holds it, and the cancellation token.

  A blocking transport is the list of what its next reads meet: a chunk of bytes, of which a short
  read takes a part, an interrupted call, or a failure; after the list the peer has closed.  Writes
  append to \<open>written\<close> unless the next entry of \<open>write_faults\<close> says otherwise.  The sealing and opening of
  \<open>hxcrypto\<close> are the fields of \<open>Aead\<close>, over states of any type.
\<close>


datatype ErrorKind =
    Interrupted | WouldBlock | TimedOut | UnexpectedEof | InvalidData | ConnectionAborted | OtherKind

datatype Rd = Chunk bytes | Fault ErrorKind

record HtxfInner =
  incoming :: "Rd list"
  written :: bytes
  write_faults :: "ErrorKind option list"

definition transport_read :: "nat \<Rightarrow> HtxfInner \<Rightarrow> (ErrorKind + bytes) \<times> HtxfInner" where
  "transport_read n t =
     (case incoming t of
        [] \<Rightarrow> (Inr [], t)
      | Fault e # es \<Rightarrow> (Inl e, t\<lparr>incoming := es\<rparr>)
      | Chunk bs # es \<Rightarrow>
          (Inr (take n bs),
           t\<lparr>incoming := (if length bs \<le> n then es else Chunk (drop n bs) # es)\<rparr>))"

definition transport_write :: "bytes \<Rightarrow> HtxfInner \<Rightarrow> ErrorKind option \<times> HtxfInner" where
  "transport_write bs t =
     (case write_faults t of
        Some e # fs \<Rightarrow> (Some e, t\<lparr>write_faults := fs\<rparr>)
      | None # fs \<Rightarrow> (None, t\<lparr>written := written t @ bs, write_faults := fs\<rparr>)
      | [] \<Rightarrow> (None, t\<lparr>written := written t @ bs\<rparr>))"

section \<open>Loops over the transport\<close>

text \<open>How much a transport can still be read: every read of a byte or a fault makes it smaller.\<close>

definition rd_size :: "HtxfInner \<Rightarrow> nat" where
  "rd_size t = (\<Sum>e \<leftarrow> incoming t. case e of Chunk bs \<Rightarrow> Suc (length bs) | Fault _ \<Rightarrow> 1)"

lemma transport_read_size:
  "transport_read n t = (r, t') \<Longrightarrow> 0 < n \<Longrightarrow> incoming t \<noteq> [] \<Longrightarrow> rd_size t' < rd_size t"
  by (auto simp: transport_read_def rd_size_def split: list.splits Rd.splits if_splits)

lemma transport_read_nonempty:
  "transport_read n t = (Inr bs, t') \<Longrightarrow> bs \<noteq> [] \<Longrightarrow> 0 < n \<and> incoming t \<noteq> []"
  "transport_read n t = (Inl e, t') \<Longrightarrow> incoming t \<noteq> []"
  by (auto simp: transport_read_def split: list.splits Rd.splits if_splits) (use neq0_conv in fastforce)

lemma transport_read_le: "transport_read n t = (Inr bs, t') \<Longrightarrow> length bs \<le> n"
  by (auto simp: transport_read_def split: list.splits Rd.splits if_splits)

lemma transport_read_decr:
  "(Inr bs, t') = transport_read n t \<Longrightarrow> bs \<noteq> [] \<Longrightarrow> rd_size t' < rd_size t"
  "(Inl e, t') = transport_read n t \<Longrightarrow> 0 < n \<Longrightarrow> rd_size t' < rd_size t"
  by (metis transport_read_nonempty(1) transport_read_size)
     (metis transport_read_nonempty(2) transport_read_size)

text \<open>
  \<open>read_exact_or_eof\<close>, with \<open>filled\<close> bytes of the buffer in hand and \<open>want\<close> to come: \<open>Inr None\<close> is
  the clean end of the stream.
\<close>

function read_exact_or_eof ::
  "nat \<Rightarrow> bytes \<Rightarrow> HtxfInner \<Rightarrow> (ErrorKind + bytes option) \<times> HtxfInner" where
  "read_exact_or_eof len filled t =
     (if length filled < len
      then (case transport_read (len - length filled) t of
              (Inr bs, t') \<Rightarrow>
                if bs = []
                then (if filled = [] then (Inr None, t') else (Inl UnexpectedEof, t'))
                else read_exact_or_eof len (filled @ bs) t'
            | (Inl e, t') \<Rightarrow>
                if e = Interrupted then read_exact_or_eof len filled t' else (Inl e, t'))
      else (Inr (Some filled), t))"
  by pat_completeness auto
termination
  by (relation "measure (\<lambda>(len, filled, t). rd_size t)") (auto intro: transport_read_decr)

declare read_exact_or_eof.simps [simp del]

text \<open>\<open>Read::read_exact\<close>: the same loop, where every early end is an error.\<close>

definition read_exact :: "nat \<Rightarrow> HtxfInner \<Rightarrow> (ErrorKind + bytes) \<times> HtxfInner" where
  "read_exact len t =
     (case read_exact_or_eof len [] t of
        (Inr (Some bs), t') \<Rightarrow> (Inr bs, t')
      | (Inr None, t') \<Rightarrow> (Inl UnexpectedEof, t')
      | (Inl e, t') \<Rightarrow> (Inl e, t'))"

text \<open>The plain read, which retries an interrupted call.\<close>

function read_retry :: "nat \<Rightarrow> HtxfInner \<Rightarrow> (ErrorKind + bytes) \<times> HtxfInner" where
  "read_retry n t =
     (case transport_read n t of
        (Inl e, t') \<Rightarrow> if e = Interrupted then read_retry n t' else (Inl e, t')
      | (Inr bs, t') \<Rightarrow> (Inr bs, t'))"
  by pat_completeness auto
termination
  by (relation "measure (\<lambda>(n, t). length (incoming t))")
     (auto simp: transport_read_def split: list.splits Rd.splits if_splits)

declare read_retry.simps [simp del]

section \<open>The channel\<close>

definition AEAD_LENGTH_PREFIX :: nat where "AEAD_LENGTH_PREFIX = 4"
definition AEAD_TAG_SIZE :: nat where "AEAD_TAG_SIZE = 16"

record 's Aead =
  seal :: "'s \<Rightarrow> bytes \<Rightarrow> (bytes \<times> 's) option"
  open_frame :: "'s \<Rightarrow> bytes \<Rightarrow> (bytes \<times> 's) option"
  peek_frame_size :: "bytes \<Rightarrow> nat option"

record 's HtxfChannel =
  inner :: HtxfInner
  encode :: 's
  decode :: 's
  aead_active :: bool
  rx_plain :: bytes
  rx_plain_pos :: nat

definition new_plain :: "HtxfInner \<Rightarrow> 's \<Rightarrow> 's HtxfChannel" where
  "new_plain t zero = \<lparr>inner = t, encode = zero, decode = zero, aead_active = False, rx_plain = [],
     rx_plain_pos = 0\<rparr>"

definition new_aead :: "HtxfInner \<Rightarrow> 's \<Rightarrow> 's \<Rightarrow> 's HtxfChannel" where
  "new_aead t enc dec = \<lparr>inner = t, encode = enc, decode = dec, aead_active = True, rx_plain = [],
     rx_plain_pos = 0\<rparr>"

definition channel_write ::
  "'s Aead \<Rightarrow> bytes \<Rightarrow> 's HtxfChannel \<Rightarrow> (ErrorKind + nat) \<times> 's HtxfChannel" where
  "channel_write A buf c =
     (if buf = [] then (Inr 0, c)
      else if \<not> aead_active c
      then (case transport_write buf (inner c) of
              (None, t') \<Rightarrow> (Inr (length buf), c\<lparr>inner := t'\<rparr>)
            | (Some e, t') \<Rightarrow> (Inl e, c\<lparr>inner := t'\<rparr>))
      else (case seal A (encode c) buf of
              None \<Rightarrow> (Inl OtherKind, c)
            | Some (framed, enc) \<Rightarrow>
                (case transport_write framed (inner c) of
                   (None, t') \<Rightarrow> (Inr (length buf), c\<lparr>inner := t', encode := enc\<rparr>)
                 | (Some e, t') \<Rightarrow> (Inl e, c\<lparr>inner := t', encode := enc\<rparr>))))"

text \<open>The plaintext goes into a buffer of its length, zeros before the frame is opened.\<close>

definition plain_len :: "nat \<Rightarrow> nat" where
  "plain_len frame_total = frame_total - AEAD_LENGTH_PREFIX - AEAD_TAG_SIZE"

definition fit :: "nat \<Rightarrow> bytes \<Rightarrow> bytes" where
  "fit n bs = take n (bs @ replicate n 0)"

definition fill_one_frame ::
  "'s Aead \<Rightarrow> 's HtxfChannel \<Rightarrow> (ErrorKind + bool) \<times> 's HtxfChannel" where
  "fill_one_frame A c =
     (case read_exact_or_eof AEAD_LENGTH_PREFIX [] (inner c) of
        (Inl e, t1) \<Rightarrow> (Inl e, c\<lparr>inner := t1\<rparr>)
      | (Inr None, t1) \<Rightarrow> (Inr False, c\<lparr>inner := t1\<rparr>)
      | (Inr (Some prefix), t1) \<Rightarrow>
          (case peek_frame_size A prefix of
             None \<Rightarrow> (Inl InvalidData, c\<lparr>inner := t1\<rparr>)
           | Some frame_total \<Rightarrow>
               (case read_exact (frame_total - AEAD_LENGTH_PREFIX) t1 of
                  (Inl e, t2) \<Rightarrow> (Inl e, c\<lparr>inner := t2\<rparr>)
                | (Inr body, t2) \<Rightarrow>
                    (case open_frame A (decode c) (prefix @ body) of
                       None \<Rightarrow>
                         (Inl InvalidData, c\<lparr>inner := t2, rx_plain := replicate (plain_len frame_total) 0\<rparr>)
                     | Some (plain, dec) \<Rightarrow>
                         (Inr True,
                          c\<lparr>inner := t2, decode := dec, rx_plain := fit (plain_len frame_total) plain,
                            rx_plain_pos := 0\<rparr>)))))"

definition channel_read ::
  "'s Aead \<Rightarrow> nat \<Rightarrow> 's HtxfChannel \<Rightarrow> (ErrorKind + bytes) \<times> 's HtxfChannel" where
  "channel_read A n c =
     (if n = 0 then (Inr [], c)
      else if \<not> aead_active c
      then (case read_retry n (inner c) of (r, t') \<Rightarrow> (r, c\<lparr>inner := t'\<rparr>))
      else
        (let serve = (\<lambda>c. let avail = drop (rx_plain_pos c) (rx_plain c); m = min (length avail) n
                          in (Inr (take m avail), c\<lparr>rx_plain_pos := rx_plain_pos c + m\<rparr>))
         in if length (rx_plain c) \<le> rx_plain_pos c
            then (case fill_one_frame A c of
                    (Inl e, c') \<Rightarrow> (Inl e, c')
                  | (Inr False, c') \<Rightarrow> (Inr [], c')
                  | (Inr True, c') \<Rightarrow> serve c')
            else serve c))"


section \<open>How much is left to read\<close>

text \<open>Every read that gives bytes makes the rest smaller, so a loop over reads ends.\<close>

definition unread :: "'s HtxfChannel \<Rightarrow> nat" where
  "unread c = rd_size (inner c) + (length (rx_plain c) - rx_plain_pos c)"

lemma transport_read_rd_size:
  "transport_read n t = (r, t') \<Longrightarrow>
   rd_size t' + (case r of Inr bs \<Rightarrow> length bs | Inl e \<Rightarrow> 0) \<le> rd_size t"
  by (auto simp: transport_read_def rd_size_def split: list.splits Rd.splits if_splits)

lemma read_exact_or_eof_rd_size:
  "read_exact_or_eof len filled t = (r, t') \<Longrightarrow> length filled \<le> len \<Longrightarrow>
   rd_size t' + (case r of Inr (Some bs) \<Rightarrow> len - length filled | _ \<Rightarrow> 0) \<le> rd_size t \<and>
   (\<forall>bs. r = Inr (Some bs) \<longrightarrow> length bs = len)"
proof (induction len filled t rule: read_exact_or_eof.induct)
  case (1 len filled t)
  show ?case
  proof (cases "length filled < len")
    case False
    with "1.prems" show ?thesis by (subst (asm) read_exact_or_eof.simps) auto
  next
    case True
    obtain r1 t1 where r1: "transport_read (len - length filled) t = (r1, t1)" by fastforce
    note sz = transport_read_rd_size [OF r1]
    show ?thesis
    proof (cases r1)
      case (Inl e)
      show ?thesis
      proof (cases "e = Interrupted")
        case i: True
        have "read_exact_or_eof len filled t1 = (r, t')"
          using "1.prems"(1) True r1 Inl i by (subst (asm) read_exact_or_eof.simps) simp
        from "1.IH"(1) [OF True r1 [symmetric] Inl i this "1.prems"(2)] sz Inl show ?thesis by auto
      next
        case False
        with "1.prems"(1) True r1 Inl sz show ?thesis by (subst (asm) read_exact_or_eof.simps) auto
      qed
    next
      case (Inr bs)
      show ?thesis
      proof (cases "bs = []")
        case e: True
        with "1.prems"(1) True r1 Inr sz show ?thesis
          by (subst (asm) read_exact_or_eof.simps) (auto split: if_splits)
      next
        case ne: False
        have l: "length (filled @ bs) \<le> len" using r1 Inr True transport_read_le by fastforce
        have "read_exact_or_eof len (filled @ bs) t1 = (r, t')"
          using "1.prems"(1) True r1 Inr ne by (subst (asm) read_exact_or_eof.simps) simp
        from "1.IH"(2) [OF True r1 [symmetric] Inr ne this l] sz Inr l show ?thesis
          by (auto split: sum.splits option.splits)
      qed
    qed
  qed
qed

lemma read_exact_rd_size:
  "read_exact len t = (r, t') \<Longrightarrow>
   rd_size t' + (case r of Inr bs \<Rightarrow> len | Inl e \<Rightarrow> 0) \<le> rd_size t"
  by (auto simp: read_exact_def split: prod.splits sum.splits option.splits
      dest!: read_exact_or_eof_rd_size)

lemma read_retry_rd_size:
  "read_retry n t = (r, t') \<Longrightarrow> rd_size t' + (case r of Inr bs \<Rightarrow> length bs | Inl e \<Rightarrow> 0) \<le> rd_size t"
proof (induction n t rule: read_retry.induct)
  case (1 n t)
  obtain r1 t1 where r1: "transport_read n t = (r1, t1)" by fastforce
  note sz = transport_read_rd_size [OF r1]
  show ?case
  proof (cases "r1 = Inl Interrupted")
    case True
    then have "read_retry n t1 = (r, t')" using "1.prems" r1 by (subst (asm) read_retry.simps) simp
    from "1.IH" [OF r1 [symmetric] True refl this] sz show ?thesis by simp
  next
    case False
    then show ?thesis using "1.prems" r1 sz by (subst (asm) read_retry.simps) (auto split: sum.splits if_splits)
  qed
qed

lemma fill_one_frame_unread:
  assumes "fill_one_frame A c = (r, c')" "length (rx_plain c) \<le> rx_plain_pos c"
  shows "unread c' \<le> unread c \<and> (r = Inr True \<longrightarrow> unread c' < unread c)"
proof -
  obtain r1 t1 where r1: "read_exact_or_eof AEAD_LENGTH_PREFIX [] (inner c) = (r1, t1)" by fastforce
  note s1 = read_exact_or_eof_rd_size [OF r1, simplified]
  show ?thesis
  proof (cases "\<exists>prefix frame_total. r1 = Inr (Some prefix) \<and> peek_frame_size A prefix = Some frame_total")
    case False
    with assms r1 s1 show ?thesis
      by (auto simp: fill_one_frame_def unread_def split: sum.splits option.splits)
  next
    case True
    then obtain prefix frame_total where p: "r1 = Inr (Some prefix)" "peek_frame_size A prefix = Some frame_total"
      by blast
    obtain r2 t2 where r2: "read_exact (frame_total - AEAD_LENGTH_PREFIX) t1 = (r2, t2)" by fastforce
    note s2 = read_exact_rd_size [OF r2]
    show ?thesis
      using assms r1 s1 r2 s2 p
      by (auto simp: fill_one_frame_def unread_def plain_len_def fit_def AEAD_LENGTH_PREFIX_def AEAD_TAG_SIZE_def
          split: sum.splits option.splits)
  qed
qed

lemma channel_read_unread:
  assumes "channel_read A n c = (r, c')"
  shows "unread c' \<le> unread c \<and> (\<forall>bs. r = Inr bs \<and> bs \<noteq> [] \<longrightarrow> unread c' < unread c)"
proof -
  consider "n = 0" | "0 < n" "\<not> aead_active c" | "0 < n" "aead_active c" by auto
  then show ?thesis
  proof cases
    case 1
    with assms show ?thesis by (auto simp: channel_read_def)
  next
    case 2
    then obtain t' where t: "read_retry n (inner c) = (r, t')" "c' = c\<lparr>inner := t'\<rparr>"
      using assms by (auto simp: channel_read_def split: prod.splits)
    show ?thesis
      using read_retry_rd_size [OF t(1)] t(2)
      by (cases r) (auto simp: unread_def length_greater_0_conv [symmetric] simp del: length_greater_0_conv)
  next
    case 3
    show ?thesis
    proof (cases "length (rx_plain c) \<le> rx_plain_pos c")
      case True
      obtain r1 c1 where f: "fill_one_frame A c = (r1, c1)" by fastforce
      show ?thesis
        using fill_one_frame_unread [OF f True] assms 3 True f
        by (auto simp: channel_read_def unread_def Let_def split: sum.splits bool.splits)
    next
      case False
      with assms 3 show ?thesis by (auto simp: channel_read_def unread_def Let_def)
    qed
  qed
qed

section \<open>The connection\<close>

text \<open>
  The token is shared with the thread that cancels: \<open>ticks\<close> is the number of further transport calls
  after which the connection sees it flipped, \<open>None\<close> for never.  \<open>sockopts\<close> are the outcomes of the
  next calls that set a timeout, success after the list.
\<close>

record 's HtxfConn =
  chan :: "'s HtxfChannel"
  has_token :: bool
  ticks :: "nat option"
  sockopts :: "bool list"
  folder_items :: u32
  folder_size :: u64
  forks :: u64
  short :: bool
  stalled :: bool
  broke :: bool

definition new_conn :: "'s HtxfChannel \<Rightarrow> 's HtxfConn" where
  "new_conn c = \<lparr>chan = c, has_token = False, ticks = None, sockopts = [], folder_items = 0,
     folder_size = 0, forks = 0, short = False, stalled = False, broke = False\<rparr>"

definition is_aborted :: "'s HtxfConn \<Rightarrow> bool" where
  "is_aborted h \<longleftrightarrow> has_token h \<and> ticks h = Some 0"

definition tick :: "'s HtxfConn \<Rightarrow> 's HtxfConn" where
  "tick h = h\<lparr>ticks := map_option (\<lambda>n. n - 1) (ticks h)\<rparr>"

definition note_error :: "ErrorKind \<Rightarrow> bool \<Rightarrow> 's HtxfConn \<Rightarrow> 's HtxfConn" where
  "note_error e bound h =
     h\<lparr>broke := True, stalled := (stalled h \<or> bound \<and> (e = WouldBlock \<or> e = TimedOut))\<rparr>"

definition read_some :: "'s Aead \<Rightarrow> nat \<Rightarrow> 's HtxfConn \<Rightarrow> (ErrorKind + bytes) \<times> 's HtxfConn" where
  "read_some A n h =
     (if is_aborted h then (Inl ConnectionAborted, h)
      else case channel_read A n (chan h) of
        (Inl e, c) \<Rightarrow> (Inl e, note_error e (\<not> short h) (tick (h\<lparr>chan := c\<rparr>)))
      | (Inr bs, c) \<Rightarrow>
          let h' = tick (h\<lparr>chan := c, broke := (broke h \<or> bs = [] \<and> n \<noteq> 0)\<rparr>)
          in if is_aborted h' then (Inl ConnectionAborted, h') else (Inr bs, h'))"

definition write_some :: "'s Aead \<Rightarrow> bytes \<Rightarrow> 's HtxfConn \<Rightarrow> (ErrorKind + nat) \<times> 's HtxfConn" where
  "write_some A buf h =
     (if is_aborted h then (Inl ConnectionAborted, h)
      else case channel_write A buf (chan h) of
        (Inl e, c) \<Rightarrow> (Inl e, note_error e True (tick (h\<lparr>chan := c\<rparr>)))
      | (Inr n, c) \<Rightarrow>
          let h' = tick (h\<lparr>chan := c\<rparr>)
          in if is_aborted h' then (Inl ConnectionAborted, h') else (Inr n, h'))"

text \<open>The C calls fold every error into \<open>-1\<close>, here \<open>None\<close>.\<close>

definition hxnet_htxf_read :: "'s Aead \<Rightarrow> nat \<Rightarrow> 's HtxfConn \<Rightarrow> bytes option \<times> 's HtxfConn" where
  "hxnet_htxf_read A n h =
     (if is_aborted h then (None, h)
      else case channel_read A n (chan h) of
        (Inr bs, c) \<Rightarrow>
          let h' = tick (h\<lparr>chan := c, broke := (broke h \<or> bs = [] \<and> n \<noteq> 0)\<rparr>)
          in (if is_aborted h' then None else Some bs, h')
      | (Inl e, c) \<Rightarrow> (None, note_error e (\<not> short h) (tick (h\<lparr>chan := c\<rparr>))))"

definition hxnet_htxf_write :: "'s Aead \<Rightarrow> bytes \<Rightarrow> 's HtxfConn \<Rightarrow> nat option \<times> 's HtxfConn" where
  "hxnet_htxf_write A buf h =
     (case write_some A buf h of (Inr n, h') \<Rightarrow> (Some n, h') | (Inl e, h') \<Rightarrow> (None, h'))"

lemma channel_read_le: "channel_read A n c = (Inr bs, c') \<Longrightarrow> length bs \<le> n"
proof -
  have "read_retry n t = (Inr bs, t') \<Longrightarrow> length bs \<le> n" for t t'
  proof (induction n t rule: read_retry.induct)
    case (1 n t)
    from "1.prems" show ?case
      by (subst (asm) read_retry.simps)
         (auto split: prod.splits sum.splits if_splits intro: "1.IH" dest: transport_read_le)
  qed
  then show "channel_read A n c = (Inr bs, c') \<Longrightarrow> length bs \<le> n"
    by (auto simp: channel_read_def Let_def split: if_splits prod.splits sum.splits bool.splits)
qed

lemma hxnet_htxf_read_le: "hxnet_htxf_read A n h = (Some bs, h') \<Longrightarrow> length bs \<le> n"
  by (auto simp: hxnet_htxf_read_def Let_def split: if_splits prod.splits sum.splits
      dest: channel_read_le)

function hxnet_htxf_read_full :: "'s Aead \<Rightarrow> nat \<Rightarrow> bytes \<Rightarrow> 's HtxfConn \<Rightarrow> bytes option \<times> 's HtxfConn" where
  "hxnet_htxf_read_full A len got h =
     (if length got < len
      then (case hxnet_htxf_read A (len - length got) h of
              (Some bs, h') \<Rightarrow> if bs = [] then (None, h') else hxnet_htxf_read_full A len (got @ bs) h'
            | (None, h') \<Rightarrow> (None, h'))
      else (Some got, h))"
  by pat_completeness auto
termination
  by (relation "measure (\<lambda>(A, len, got, h). len - length got)") (auto intro!: diff_less_mono2)

declare hxnet_htxf_read_full.simps [simp del]

text \<open>\<open>set_timeout\<close> with \<open>Some\<close> arms a shorter bound, with \<open>None\<close> restores the stall bound.\<close>

definition set_timeout :: "bool \<Rightarrow> 's HtxfConn \<Rightarrow> bool \<times> 's HtxfConn" where
  "set_timeout arm h =
     (case sockopts h of
        False # bs \<Rightarrow> (False, h\<lparr>sockopts := bs\<rparr>)
      | True # bs \<Rightarrow> (True, h\<lparr>sockopts := bs, short := arm\<rparr>)
      | [] \<Rightarrow> (True, h\<lparr>short := arm\<rparr>))"

definition folder_size_arrived :: "'s HtxfConn \<Rightarrow> bool" where
  "folder_size_arrived h \<longleftrightarrow> folder_items h = 0 \<and> folder_size h \<noteq> 0 \<and> forks h \<ge> folder_size h"

definition saturating_add64 :: "u64 \<Rightarrow> u64 \<Rightarrow> u64" where
  "saturating_add64 a b = (if unat a + unat b < 2 ^ 64 then a + b else - 1)"

definition forks_read :: "u64 \<Rightarrow> 's HtxfConn \<Rightarrow> 's HtxfConn" where
  "forks_read n h = h\<lparr>forks := saturating_add64 (forks h) n\<rparr>"

definition set_folder_items :: "u32 \<Rightarrow> u64 \<Rightarrow> 's HtxfConn \<Rightarrow> 's HtxfConn" where
  "set_folder_items items bytes h = h\<lparr>folder_items := items, folder_size := bytes\<rparr>"

text \<open>
  The end of an upload: after the half-close, whatever the peer sends is read and dropped until it
  closes, a failure, or the deadline, which \<open>left\<close> more reads reach.
\<close>

fun finish_send :: "nat \<Rightarrow> HtxfInner \<Rightarrow> ErrorKind option \<times> HtxfInner" where
  "finish_send 0 t = (Some TimedOut, t)"
| "finish_send (Suc left) t =
     (case transport_read 4096 t of
        (Inr bs, t') \<Rightarrow> if bs = [] then (None, t') else finish_send left t'
      | (Inl e, t') \<Rightarrow> if e = Interrupted then finish_send left t' else (Some e, t'))"

definition hxnet_htxf_finish_send :: "nat \<Rightarrow> 's HtxfConn \<Rightarrow> bool \<times> 's HtxfConn" where
  "hxnet_htxf_finish_send left h =
     (if is_aborted h then (False, h)
      else case finish_send left (inner (chan h)) of
        (r, t') \<Rightarrow> let h' = tick (h\<lparr>chan := (chan h)\<lparr>inner := t'\<rparr>\<rparr>) in (r = None \<and> \<not> is_aborted h', h'))"

section \<open>The cancellation token\<close>

text \<open>
  \<open>HtxfAbort\<close> and the two threads that use it.  The lock makes \<open>arm\<close> and \<open>abort\<close> atomic.  The worker
  publishes the token in its connection, arms it with a duplicate of the socket where that can be had,
  and reads: it checks the token, parks in the transport and checks again.  \<open>down\<close> says that the socket
  was shut down, \<open>closed\<close> that the peer has closed.
\<close>

record HtxfAbort =
  aborted :: bool
  sock :: bool

definition abort_new :: HtxfAbort where
  "abort_new = \<lparr>aborted = False, sock = False\<rparr>"

text \<open>Both return the token and whether they shut the socket down.\<close>

definition arm :: "HtxfAbort \<Rightarrow> HtxfAbort \<times> bool" where
  "arm t = (if aborted t then (t, True) else (t\<lparr>sock := True\<rparr>, False))"

definition abort :: "HtxfAbort \<Rightarrow> HtxfAbort \<times> bool" where
  "abort t = (t\<lparr>aborted := True, sock := False\<rparr>, sock t)"

datatype Worker = Opened | Published | Idle | Parked

datatype Delivered = Data | CleanEof | Failed

record Subchannel =
  token :: HtxfAbort
  worker :: Worker
  dup_ok :: bool
  down :: bool
  closed :: bool
  results :: "(bool \<times> Delivered) list"

definition subchannel :: "bool \<Rightarrow> Subchannel" where
  "subchannel dup = \<lparr>token = abort_new, worker = Opened, dup_ok = dup, down = False, closed = False,
     results = []\<rparr>"

definition deliver :: "Delivered \<Rightarrow> Subchannel \<Rightarrow> Subchannel" where
  "deliver d s =
     s\<lparr>worker := Idle,
       results := results s @ [(aborted (token s), if aborted (token s) then Failed else d)]\<rparr>"

inductive sub_step :: "Subchannel \<Rightarrow> Subchannel \<Rightarrow> bool" where
  cancel: "abort (token s) = (t, shut) \<Longrightarrow> sub_step s (s\<lparr>token := t, down := (down s \<or> shut)\<rparr>)"
| peer_closes: "sub_step s (s\<lparr>closed := True\<rparr>)"
| publish: "worker s = Opened \<Longrightarrow> sub_step s (s\<lparr>worker := Published\<rparr>)"
| arm_token: "worker s = Published \<Longrightarrow> dup_ok s \<Longrightarrow> arm (token s) = (t, shut) \<Longrightarrow>
    sub_step s (s\<lparr>worker := Idle, token := t, down := (down s \<or> shut)\<rparr>)"
| arm_fails: "worker s = Published \<Longrightarrow> \<not> dup_ok s \<Longrightarrow> sub_step s (s\<lparr>worker := Idle\<rparr>)"
| read_refused: "worker s = Idle \<Longrightarrow> aborted (token s) \<Longrightarrow> sub_step s (deliver Failed s)"
| read_parks: "worker s = Idle \<Longrightarrow> \<not> aborted (token s) \<Longrightarrow> sub_step s (s\<lparr>worker := Parked\<rparr>)"
| read_data: "worker s = Parked \<Longrightarrow> \<not> down s \<Longrightarrow> sub_step s (deliver Data s)"
| read_eof: "worker s = Parked \<Longrightarrow> down s \<or> closed s \<Longrightarrow> sub_step s (deliver CleanEof s)"

inductive sub_reachable :: "bool \<Rightarrow> Subchannel \<Rightarrow> bool" for dup where
  start: "sub_reachable dup (subchannel dup)"
| step: "sub_reachable dup s \<Longrightarrow> sub_step s s' \<Longrightarrow> sub_reachable dup s'"

end
