(* ===== verification/Htxf_Props.thy ===== *)
theory Htxf_Props
  imports Htxf
begin

text \<open>
  Properties of the subchannel: what one side writes is what the other reads, however the transport
  cuts it up; a frame that is cut short is an error and never the end of the stream; a cancel is seen
  by every later read and never looks like the end of the stream.
\<close>

section \<open>Transports without failures\<close>

fun rd_bytes :: "Rd \<Rightarrow> bytes" where
  "rd_bytes (Chunk bs) = bs"
| "rd_bytes (Fault e) = []"

definition wire_bytes :: "HtxfInner \<Rightarrow> bytes" where
  "wire_bytes t = concat (map rd_bytes (incoming t))"

fun rd_quiet :: "Rd \<Rightarrow> bool" where
  "rd_quiet (Chunk bs) \<longleftrightarrow> bs \<noteq> []"
| "rd_quiet (Fault e) \<longleftrightarrow> e = Interrupted"

definition quiet_wire :: "HtxfInner \<Rightarrow> bool" where
  "quiet_wire t \<longleftrightarrow> list_all rd_quiet (incoming t)"

lemma quiet_read:
  assumes "quiet_wire t" "transport_read n t = (r, t')" "0 < n"
  shows "quiet_wire t' \<and>
    ((r = Inl Interrupted \<and> wire_bytes t' = wire_bytes t) \<or>
     (\<exists>bs. r = Inr bs \<and> wire_bytes t = bs @ wire_bytes t' \<and> length bs \<le> n \<and> (bs = [] \<longleftrightarrow> wire_bytes t = [])))"
proof (cases "incoming t")
  case Nil
  then show ?thesis using assms by (auto simp: transport_read_def quiet_wire_def wire_bytes_def)
next
  case (Cons e es)
  then show ?thesis
    using assms by (cases e) (auto simp: transport_read_def quiet_wire_def wire_bytes_def split: if_splits)
qed

lemma read_exact_or_eof_full:
  "quiet_wire t \<Longrightarrow> length filled \<le> len \<Longrightarrow> len \<le> length filled + length (wire_bytes t) \<Longrightarrow>
   \<exists>t'. read_exact_or_eof len filled t = (Inr (Some (filled @ take (len - length filled) (wire_bytes t))), t') \<and>
     quiet_wire t' \<and> wire_bytes t' = drop (len - length filled) (wire_bytes t)"
proof (induction len filled t rule: read_exact_or_eof.induct)
  case (1 len filled t)
  show ?case
  proof (cases "length filled < len")
    case False
    with "1.prems" show ?thesis by (subst read_exact_or_eof.simps) simp
  next
    case True
    obtain r t1 where r: "transport_read (len - length filled) t = (r, t1)" by fastforce
    from quiet_read [OF "1.prems"(1) r] True consider
        (intr) "r = Inl Interrupted" "wire_bytes t1 = wire_bytes t" "quiet_wire t1"
      | (data) bs where "r = Inr bs" "wire_bytes t = bs @ wire_bytes t1" "length bs \<le> len - length filled" "bs \<noteq> []" "quiet_wire t1"
      using "1.prems" by fastforce
    then show ?thesis
    proof cases
      case intr
      with "1.IH"(1) [OF True r [symmetric] intr(1) refl] "1.prems" r True show ?thesis
        by (subst read_exact_or_eof.simps) simp
    next
      case data
      have "\<exists>t'. read_exact_or_eof len (filled @ bs) t1 =
          (Inr (Some ((filled @ bs) @ take (len - length (filled @ bs)) (wire_bytes t1))), t') \<and>
          quiet_wire t' \<and> wire_bytes t' = drop (len - length (filled @ bs)) (wire_bytes t1)"
        by (rule "1.IH"(2) [OF True r [symmetric] data(1,4,5)]) (use data True "1.prems" in auto)
      then show ?thesis
        using data r True by (subst read_exact_or_eof.simps) auto
    qed
  qed
qed

lemma read_exact_or_eof_short:
  "quiet_wire t \<Longrightarrow> length filled + length (wire_bytes t) < len \<Longrightarrow>
   \<exists>t'. read_exact_or_eof len filled t =
       ((if filled = [] \<and> wire_bytes t = [] then Inr None else Inl UnexpectedEof), t') \<and>
     quiet_wire t' \<and> wire_bytes t' = []"
proof (induction len filled t rule: read_exact_or_eof.induct)
  case (1 len filled t)
  have True: "length filled < len" using "1.prems" by simp
  obtain r t1 where r: "transport_read (len - length filled) t = (r, t1)" by fastforce
  from quiet_read [OF "1.prems"(1) r] True consider
      (intr) "r = Inl Interrupted" "wire_bytes t1 = wire_bytes t" "quiet_wire t1"
    | (eof) "r = Inr []" "wire_bytes t = []" "wire_bytes t1 = []" "quiet_wire t1"
    | (data) bs where "r = Inr bs" "wire_bytes t = bs @ wire_bytes t1" "length bs \<le> len - length filled" "bs \<noteq> []" "quiet_wire t1"
    by fastforce
  then show ?case
  proof cases
    case intr
    with "1.IH"(1) [OF True r [symmetric] intr(1) refl] "1.prems" r True show ?thesis
      by (subst read_exact_or_eof.simps) simp
  next
    case eof
    with r True show ?thesis by (subst read_exact_or_eof.simps) auto
  next
    case data
    have "\<exists>t'. read_exact_or_eof len (filled @ bs) t1 =
        ((if filled @ bs = [] \<and> wire_bytes t1 = [] then Inr None else Inl UnexpectedEof), t') \<and>
        quiet_wire t' \<and> wire_bytes t' = []"
      by (rule "1.IH"(2) [OF True r [symmetric] data(1,4,5)]) (use data True "1.prems" in auto)
    then show ?thesis
      using data r True by (subst read_exact_or_eof.simps) auto
  qed
qed

section \<open>Frames\<close>

text \<open>
  What the code relies on of the sealing: an opening state in step with the sealing state gives the
  plaintext back and stays in step, and the length prefix gives the length of the frame.
\<close>

definition aead_ok :: "'s Aead \<Rightarrow> ('s \<Rightarrow> 's \<Rightarrow> bool) \<Rightarrow> bool" where
  "aead_ok A sync \<longleftrightarrow>
     (\<forall>e d m f e'. sync e d \<and> seal A e m = Some (f, e') \<longrightarrow>
        (\<exists>d'. open_frame A d f = Some (m, d') \<and> sync e' d') \<and>
        length f = AEAD_LENGTH_PREFIX + length m + AEAD_TAG_SIZE \<and>
        peek_frame_size A (take AEAD_LENGTH_PREFIX f) = Some (length f))"

fun seal_all :: "'s Aead \<Rightarrow> 's \<Rightarrow> bytes list \<Rightarrow> bytes option" where
  "seal_all A e [] = Some []"
| "seal_all A e (m # ms) =
     (case seal A e m of None \<Rightarrow> None
      | Some (f, e') \<Rightarrow> (case seal_all A e' ms of None \<Rightarrow> None | Some fs \<Rightarrow> Some (f @ fs)))"

text \<open>The channel still has \<open>rest\<close> to hand out: the tail of the open frame and sealed frames.\<close>

definition carries :: "'s Aead \<Rightarrow> ('s \<Rightarrow> 's \<Rightarrow> bool) \<Rightarrow> 's HtxfChannel \<Rightarrow> bytes \<Rightarrow> bool" where
  "carries A sync c rest \<longleftrightarrow> aead_active c \<and> quiet_wire (inner c) \<and>
     (\<exists>e ms. sync e (decode c) \<and> seal_all A e ms = Some (wire_bytes (inner c)) \<and> [] \<notin> set ms \<and>
        rest = drop (rx_plain_pos c) (rx_plain c) @ concat ms)"

lemma fill_one_frame_sealed:
  assumes A: "aead_ok A sync" and sync: "sync e (decode c)" and q: "quiet_wire (inner c)"
    and s: "seal A e m = Some (f, e')" and w: "wire_bytes (inner c) = f @ fs"
  shows "\<exists>t d'. fill_one_frame A c =
      (Inr True, c\<lparr>inner := t, decode := d', rx_plain := m, rx_plain_pos := 0\<rparr>) \<and>
      quiet_wire t \<and> wire_bytes t = fs \<and> sync e' d'"
proof -
  obtain d' where d: "open_frame A (decode c) f = Some (m, d')" "sync e' d'"
    and len: "length f = AEAD_LENGTH_PREFIX + length m + AEAD_TAG_SIZE"
    and peek: "peek_frame_size A (take AEAD_LENGTH_PREFIX f) = Some (length f)"
    using A sync s unfolding aead_ok_def by meson
  have fits: "fit (plain_len (length f)) m = m" using len by (simp add: fit_def plain_len_def)
  have l4: "AEAD_LENGTH_PREFIX \<le> length f" using len by simp
  obtain t1 where t1: "read_exact_or_eof AEAD_LENGTH_PREFIX [] (inner c) =
      (Inr (Some (take AEAD_LENGTH_PREFIX f)), t1)" "quiet_wire t1" "wire_bytes t1 = drop AEAD_LENGTH_PREFIX f @ fs"
    using read_exact_or_eof_full [OF q, of "[]" AEAD_LENGTH_PREFIX] w l4 by auto
  obtain t2 where t2: "read_exact_or_eof (length f - AEAD_LENGTH_PREFIX) [] t1 =
      (Inr (Some (drop AEAD_LENGTH_PREFIX f)), t2)" "quiet_wire t2" "wire_bytes t2 = fs"
    using read_exact_or_eof_full [OF t1(2), of "[]" "length f - AEAD_LENGTH_PREFIX"] t1(3) by auto
  show ?thesis
    using t1 t2 peek d fits
    by (intro exI [of _ t2] exI [of _ d']) (simp add: fill_one_frame_def read_exact_def)
qed

lemma fill_one_frame_end:
  "quiet_wire (inner c) \<Longrightarrow> wire_bytes (inner c) = [] \<Longrightarrow>
   \<exists>t. fill_one_frame A c = (Inr False, c\<lparr>inner := t\<rparr>) \<and> quiet_wire t \<and> wire_bytes t = []"
  using read_exact_or_eof_short [of "inner c" "[]" AEAD_LENGTH_PREFIX]
  by (auto simp: fill_one_frame_def AEAD_LENGTH_PREFIX_def)

lemma channel_read_carries:
  assumes A: "aead_ok A sync" and c: "carries A sync c rest" and n: "0 < n"
  shows "\<exists>r c'. channel_read A n c = (Inr r, c') \<and> rest = r @ drop (length r) rest \<and>
    (r = [] \<longleftrightarrow> rest = []) \<and> carries A sync c' (drop (length r) rest)"
proof -
  obtain e ms where em: "sync e (decode c)" "seal_all A e ms = Some (wire_bytes (inner c))" "[] \<notin> set ms"
      and rest: "rest = drop (rx_plain_pos c) (rx_plain c) @ concat ms"
      and act: "aead_active c" "quiet_wire (inner c)"
    using c by (auto simp: carries_def)
  define serve where "serve = (\<lambda>c. let avail = drop (rx_plain_pos c) (rx_plain c); m = min (length avail) n
      in (Inr (take m avail) :: ErrorKind + bytes, c\<lparr>rx_plain_pos := rx_plain_pos (c :: 'a HtxfChannel) + m\<rparr>))"
  have served: "\<exists>r c'. serve d = (Inr r, c') \<and> all = r @ drop (length r) all \<and>
      (r = [] \<longleftrightarrow> all = []) \<and> carries A sync c' (drop (length r) all)"
    if lt: "rx_plain_pos d < length (rx_plain d)" and cd: "carries A sync d all" for d all
  proof -
    let ?avail = "drop (rx_plain_pos d) (rx_plain d)"
    let ?m = "min (length ?avail) n"
    have m: "0 < ?m" using lt n by simp
    obtain e' ms' where "sync e' (decode d)" "seal_all A e' ms' = Some (wire_bytes (inner d))" "[] \<notin> set ms'"
        and all: "all = ?avail @ concat ms'" "aead_active d" "quiet_wire (inner d)"
      using cd by (auto simp: carries_def)
    then have "carries A sync (d\<lparr>rx_plain_pos := rx_plain_pos d + ?m\<rparr>) (drop ?m all)"
      unfolding carries_def by (auto simp: add.commute min_def intro!: exI [of _ e'] exI [of _ ms'])
    moreover have "take ?m ?avail = take ?m all" "length (take ?m ?avail) = ?m" using all by simp_all
    moreover have "all \<noteq> []" using all lt by simp
    ultimately show ?thesis
      using m unfolding serve_def Let_def
      by (intro exI [of _ "take ?m ?avail"] exI [of _ "d\<lparr>rx_plain_pos := rx_plain_pos d + ?m\<rparr>"])
         (metis append_take_drop_id length_0_conv less_irrefl)
  qed
  show ?thesis
  proof (cases "length (rx_plain c) \<le> rx_plain_pos c")
    case False
    then show ?thesis
      using served [OF _ c] act n by (simp add: channel_read_def serve_def)
  next
    case True
    show ?thesis
    proof (cases ms)
      case Nil
      then have "wire_bytes (inner c) = []" "rest = []" using em rest True by auto
      moreover obtain t where "fill_one_frame A c = (Inr False, c\<lparr>inner := t\<rparr>)" "quiet_wire t" "wire_bytes t = []"
        using fill_one_frame_end [OF act(2)] calculation by blast
      moreover have "carries A sync (c\<lparr>inner := t\<rparr>) []"
        using act True em Nil calculation by (auto simp: carries_def intro!: exI [of _ e] exI [of _ "[]"])
      ultimately show ?thesis
        using True act n by (simp add: channel_read_def)
    next
      case (Cons m ms')
      then obtain f e' fs where f: "seal A e m = Some (f, e')" "seal_all A e' ms' = Some fs"
          "wire_bytes (inner c) = f @ fs"
        using em(2) by (auto split: option.splits)
      obtain t d' where fr: "fill_one_frame A c =
          (Inr True, c\<lparr>inner := t, decode := d', rx_plain := m, rx_plain_pos := 0\<rparr>)"
          "quiet_wire t" "wire_bytes t = fs" "sync e' d'"
        using fill_one_frame_sealed [OF A em(1) act(2) f(1,3)] by blast
      let ?c = "c\<lparr>inner := t, decode := d', rx_plain := m, rx_plain_pos := 0\<rparr>"
      have "carries A sync ?c rest"
        using fr f em(3) act rest True Cons
        by (auto simp: carries_def intro!: exI [of _ e'] exI [of _ ms'])
      moreover have "rx_plain_pos ?c < length (rx_plain ?c)" using em(3) Cons by auto
      ultimately show ?thesis
        using served [of ?c rest] True act n fr(1) by (simp add: channel_read_def serve_def)
    qed
  qed
qed


text \<open>Reads of the given sizes, one after the other, until one fails.\<close>

fun reads :: "'s Aead \<Rightarrow> nat list \<Rightarrow> 's HtxfChannel \<Rightarrow> (ErrorKind + bytes) list \<times> 's HtxfChannel" where
  "reads A [] c = ([], c)"
| "reads A (n # ns) c =
     (case channel_read A n c of
        (Inl e, c') \<Rightarrow> ([Inl e], c')
      | (Inr bs, c') \<Rightarrow> (let (rs, c'') = reads A ns c' in (Inr bs # rs, c'')))"

lemma reads_carries:
  "aead_ok A sync \<Longrightarrow> carries A sync c rest \<Longrightarrow> 0 \<notin> set ns \<Longrightarrow> length rest \<le> length ns \<Longrightarrow>
   \<exists>bss c'. reads A ns c = (map Inr bss, c') \<and> concat bss = rest \<and> carries A sync c' []"
proof (induction ns arbitrary: c rest)
  case Nil
  then show ?case by (auto intro: exI [of _ "[]"])
next
  case (Cons n ns)
  obtain r c1 where r: "channel_read A n c = (Inr r, c1)" "rest = r @ drop (length r) rest"
      "r = [] \<longleftrightarrow> rest = []" "carries A sync c1 (drop (length r) rest)"
    using channel_read_carries [OF Cons.prems(1,2), of n] Cons.prems(3) by auto
  have "length (drop (length r) rest) \<le> length ns"
    using Cons.prems(4) r(3) by (cases "rest = []") (auto simp: Suc_le_eq neq_Nil_conv)
  then obtain bss c' where b: "reads A ns c1 = (map Inr bss, c')" "concat bss = drop (length r) rest"
      "carries A sync c' []"
    using Cons.IH [OF Cons.prems(1) r(4)] Cons.prems(3) by auto
  then show ?case using r by (intro exI [of _ "r # bss"] exI [of _ c']) simp
qed

text \<open>Writes, one after the other, that all succeed.\<close>

fun writes :: "'s Aead \<Rightarrow> bytes list \<Rightarrow> 's HtxfChannel \<Rightarrow> 's HtxfChannel option" where
  "writes A [] c = Some c"
| "writes A (m # ms) c =
     (case channel_write A m c of (Inr n, c') \<Rightarrow> if n = length m then writes A ms c' else None | (Inl e, c') \<Rightarrow> None)"

lemma writes_seal_all:
  "aead_active c \<Longrightarrow> write_faults (inner c) = [] \<Longrightarrow> writes A ms c = Some c' \<Longrightarrow>
   \<exists>fs. seal_all A (encode c) (filter (\<lambda>m. m \<noteq> []) ms) = Some fs \<and>
     written (inner c') = written (inner c) @ fs"
proof (induction ms arbitrary: c)
  case (Cons m ms)
  show ?case
  proof (cases "m = []")
    case True
    with Cons show ?thesis by (simp add: channel_write_def)
  next
    case False
    with Cons.prems obtain f e' where f: "seal A (encode c) m = Some (f, e')"
        and w: "writes A ms (c\<lparr>inner := (inner c)\<lparr>written := written (inner c) @ f\<rparr>, encode := e'\<rparr>) = Some c'"
      by (auto simp: channel_write_def transport_write_def split: option.splits prod.splits)
    from Cons.IH [OF _ _ w] Cons.prems f False show ?thesis by auto
  qed
qed simp

text \<open>C10: What one end of an encrypted subchannel writes is what the other end reads: however the
  transport cuts the frames up and interrupts the calls, reads of any positive sizes give the written
  bytes in order, and the read after them is the clean end of the stream.\<close>

theorem htxf_roundtrip:
  assumes A: "aead_ok A sync" and sync: "sync (encode w) (decode r)"
    and act: "aead_active w" "aead_active r" and w: "write_faults (inner w) = []" "written (inner w) = []"
    and sent: "writes A ms w = Some w'"
    and recv: "quiet_wire (inner r)" "wire_bytes (inner r) = written (inner w')" "rx_plain r = []"
    and ns: "0 \<notin> set ns" "length (concat ms) \<le> length ns" and n: "0 < n"
  shows "\<exists>bss r' r''. reads A ns r = (map Inr bss, r') \<and> concat bss = concat ms \<and>
    channel_read A n r' = (Inr [], r'')"
proof -
  obtain fs where fs: "seal_all A (encode w) (filter (\<lambda>m. m \<noteq> []) ms) = Some fs" "written (inner w') = fs"
    using writes_seal_all [OF act(1) w(1) sent] w(2) by auto
  have cat: "concat (filter (\<lambda>m. m \<noteq> []) ms) = concat ms" by (induction ms) auto
  have "carries A sync r (concat ms)"
    unfolding carries_def using act(2) recv sync fs cat
    by (auto intro!: exI [of _ "encode w"] exI [of _ "filter (\<lambda>m. m \<noteq> []) ms"])
  from reads_carries [OF A this ns] obtain bss r' where
    b: "reads A ns r = (map Inr bss, r')" "concat bss = concat ms" "carries A sync r' []" by blast
  from channel_read_carries [OF A b(3) n] obtain r'' where "channel_read A n r' = (Inr [], r'')" by auto
  with b show ?thesis by blast
qed

section \<open>A toy cipher\<close>

text \<open>The counter is the state and fills the tag.\<close>

definition toy_aead :: "nat Aead" where
  "toy_aead =
     \<lparr>seal = (\<lambda>k m. if length m < 1000
        then Some (be_bytes32 (of_nat (length m)) @ m @ replicate AEAD_TAG_SIZE (of_nat k), Suc k) else None),
      open_frame = (\<lambda>k f. if AEAD_LENGTH_PREFIX + AEAD_TAG_SIZE \<le> length f \<and>
          drop (length f - AEAD_TAG_SIZE) f = replicate AEAD_TAG_SIZE (of_nat k)
        then Some (take (length f - AEAD_LENGTH_PREFIX - AEAD_TAG_SIZE) (drop AEAD_LENGTH_PREFIX f), Suc k) else None),
      peek_frame_size = (\<lambda>p. case p of [a, b, c, d] \<Rightarrow>
          Some (unat (from_be32 a b c d) + AEAD_LENGTH_PREFIX + AEAD_TAG_SIZE) | _ \<Rightarrow> None)\<rparr>"

lemma toy_aead_ok: "aead_ok toy_aead (=)"
  unfolding aead_ok_def
proof (intro allI impI, elim conjE)
  fix e d m f e'
  assume eq: "e = d" and s: "seal toy_aead e m = Some (f, e')"
  then have f: "length m < 1000" "f = be_bytes32 (of_nat (length m)) @ m @ replicate AEAD_TAG_SIZE (of_nat e)" "e' = Suc e"
    by (auto simp: toy_aead_def split: if_splits)
  have u: "unat (of_nat (length m) :: u32) = length m" using f(1) by (simp add: unat_of_nat)
  have p: "take AEAD_LENGTH_PREFIX f = be_bytes32 (of_nat (length m))"
    using f(2) by (simp add: AEAD_LENGTH_PREFIX_def)
  show "(\<exists>d'. open_frame toy_aead d f = Some (m, d') \<and> e' = d') \<and>
      length f = AEAD_LENGTH_PREFIX + length m + AEAD_TAG_SIZE \<and>
      peek_frame_size toy_aead (take AEAD_LENGTH_PREFIX f) = Some (length f)"
  proof (intro conjI)
    show "\<exists>d'. open_frame toy_aead d f = Some (m, d') \<and> e' = d'"
      using f eq by (simp add: toy_aead_def AEAD_LENGTH_PREFIX_def AEAD_TAG_SIZE_def)
    show "length f = AEAD_LENGTH_PREFIX + length m + AEAD_TAG_SIZE"
      using f by (simp add: AEAD_LENGTH_PREFIX_def AEAD_TAG_SIZE_def)
    show "peek_frame_size toy_aead (take AEAD_LENGTH_PREFIX f) = Some (length f)"
      unfolding p using f u
      by (simp add: toy_aead_def AEAD_LENGTH_PREFIX_def AEAD_TAG_SIZE_def be_bytes32_def be_simps)
  qed
qed

definition empty_transport :: HtxfInner where
  "empty_transport = \<lparr>incoming = [], written = [], write_faults = []\<rparr>"

definition toy_writer :: "nat HtxfChannel" where
  "toy_writer = the (writes toy_aead [[1, 2, 3], [], [4, 5]] (new_aead empty_transport 7 9))"

definition toy_reader :: "nat HtxfChannel" where
  "toy_reader = new_aead (empty_transport\<lparr>incoming :=
     [Chunk (take 5 (written (inner toy_writer))), Fault Interrupted, Chunk (drop 5 (written (inner toy_writer)))]\<rparr>) 9 7"

theorem htxf_roundtrip_witness:
  "\<exists>bss r' r''. reads toy_aead [2, 2, 2, 2, 9] toy_reader = (map Inr bss, r') \<and>
    concat bss = concat [[1, 2, 3], [], [4, 5]] \<and> channel_read toy_aead 1 r' = (Inr [], r'')"
proof (rule htxf_roundtrip [OF toy_aead_ok, where w = "new_aead empty_transport 7 9" and w' = toy_writer])
  show "writes toy_aead [[1, 2, 3], [], [4, 5]] (new_aead empty_transport 7 9) = Some toy_writer"
    by code_simp
  have "written (inner toy_writer) = [0, 0, 0, 3, 1, 2, 3] @ replicate 16 7 @ [0, 0, 0, 2, 4, 5] @ replicate 16 8"
    by code_simp
  then show "quiet_wire (inner toy_reader)" "wire_bytes (inner toy_reader) = written (inner toy_writer)"
    by (simp_all add: toy_reader_def new_aead_def quiet_wire_def wire_bytes_def)
qed (simp_all add: toy_reader_def new_aead_def empty_transport_def)


section \<open>Frames cut short\<close>

text \<open>A frame that the peer starts and does not finish is an error: cut anywhere after its first
  byte, the read gives an unexpected end of file, never the clean end of the stream and never data.\<close>

theorem truncated_frame_refused:
  assumes A: "aead_ok A sync" and c: "sync e (decode c)" "aead_active c" "quiet_wire (inner c)"
    and drained: "length (rx_plain c) \<le> rx_plain_pos c"
    and f: "seal A e m = Some (f, e')" and cut: "0 < k" "k < length f" "wire_bytes (inner c) = take k f"
    and n: "0 < n"
  shows "fst (channel_read A n c) = Inl UnexpectedEof"
proof -
  have "length f = AEAD_LENGTH_PREFIX + length m + AEAD_TAG_SIZE"
    and peek: "peek_frame_size A (take AEAD_LENGTH_PREFIX f) = Some (length f)"
    using A c(1) f unfolding aead_ok_def by meson+
  then have len: "AEAD_LENGTH_PREFIX + AEAD_TAG_SIZE \<le> length f" by simp
  have "\<exists>c'. fill_one_frame A c = (Inl UnexpectedEof, c')"
  proof (cases "k < AEAD_LENGTH_PREFIX")
    case True
    then show ?thesis
      using read_exact_or_eof_short [OF c(3), of "[]" AEAD_LENGTH_PREFIX] cut
      by (auto simp: fill_one_frame_def)
  next
    case False
    obtain t1 where t1: "read_exact_or_eof AEAD_LENGTH_PREFIX [] (inner c) =
        (Inr (Some (take AEAD_LENGTH_PREFIX f)), t1)" "quiet_wire t1"
        "wire_bytes t1 = drop AEAD_LENGTH_PREFIX (take k f)"
      using read_exact_or_eof_full [OF c(3), of "[]" AEAD_LENGTH_PREFIX] cut False
      by (auto simp: min_def)
    have lt: "k - AEAD_LENGTH_PREFIX < length f - AEAD_LENGTH_PREFIX" using cut False by linarith
    have "\<exists>t2. read_exact (length f - AEAD_LENGTH_PREFIX) t1 = (Inl UnexpectedEof, t2)"
      using read_exact_or_eof_short [OF t1(2), of "[]" "length f - AEAD_LENGTH_PREFIX"] t1(3) cut False len lt
      by (auto simp: read_exact_def)
    then show ?thesis using t1 peek by (auto simp: fill_one_frame_def)
  qed
  then show ?thesis using c(2) drained n by (auto simp: channel_read_def)
qed

theorem truncated_frame_refused_witness:
  "fst (channel_read toy_aead 10
     (new_aead (empty_transport\<lparr>incoming := [Chunk [0, 0, 0, 3], Chunk [1, 2, 3, 7]]\<rparr>) 9 7)) = Inl UnexpectedEof"
  by (rule truncated_frame_refused [OF toy_aead_ok, where e = 7 and m = "[1, 2, 3]" and k = 8 and e' = 8
      and f = "[0, 0, 0, 3, 1, 2, 3] @ replicate 16 7"])
     (simp_all add: new_aead_def empty_transport_def quiet_wire_def wire_bytes_def, code_simp)

text \<open>
  After a frame that fails to open, the buffer has the length of that frame's plaintext and the read
  position of the frame before it: where the new frame is longer, the next read does not open another
  frame but serves bytes of the buffer.
\<close>

lemma read_after_failed_open:
  assumes "fill_one_frame A c = (Inl InvalidData, c')" "aead_active c" "length (rx_plain c) \<le> rx_plain_pos c"
    "0 < n" "rx_plain c' \<noteq> rx_plain c" "rx_plain_pos c < length (rx_plain c')"
  shows "fst (channel_read A n c) = Inl InvalidData \<and>
    (\<exists>c''. channel_read A n (snd (channel_read A n c)) = (Inr (take n (drop (rx_plain_pos c) (rx_plain c'))), c''))"
proof -
  have "rx_plain_pos c' = rx_plain_pos c" "aead_active c'"
    using assms(1,2) by (auto simp: fill_one_frame_def split: prod.splits sum.splits option.splits)
  then show ?thesis
    using assms by (auto simp: channel_read_def Let_def min_def)
qed

lemma read_after_failed_open_example:
  "fst (reads toy_aead [3, 9]
     (new_aead (empty_transport\<lparr>incoming := [Chunk ([0, 0, 0, 3, 1, 2, 3] @ replicate 16 7)]\<rparr>) 9 7)) =
     [Inr [1, 2, 3], Inr []]"
  "let forged = [0, 0, 0, 5, 9, 9, 9, 9, 9] @ replicate 16 99;
       c = snd (reads toy_aead [3]
         (new_aead (empty_transport\<lparr>incoming := [Chunk ([0, 0, 0, 3, 1, 2, 3] @ replicate 16 7 @ forged)]\<rparr>) 9 7));
       (r1, c1) = channel_read toy_aead 9 c
   in r1 = Inl InvalidData \<and> fst (channel_read toy_aead 9 c1) = Inr [0, 0]"
  by code_simp+

section \<open>Cancellation\<close>

definition token_inv :: "Subchannel \<Rightarrow> bool" where
  "token_inv s \<longleftrightarrow>
     (if worker s = Opened \<or> worker s = Published then \<not> sock (token s) \<and> \<not> down s
      else down s = (aborted (token s) \<and> dup_ok s) \<and> sock (token s) = (\<not> aborted (token s) \<and> dup_ok s))"

definition results_inv :: "Subchannel \<Rightarrow> bool" where
  "results_inv s \<longleftrightarrow> (\<forall>r \<in> set (results s). fst r \<longrightarrow> snd r = Failed) \<and>
     ((False, CleanEof) \<in> set (results s) \<longrightarrow> closed s)"

lemma token_inv_step: "sub_step s s' \<Longrightarrow> token_inv s \<Longrightarrow> token_inv s' \<and> dup_ok s' = dup_ok s"
  by (induction rule: sub_step.induct)
     (simp_all add: token_inv_def abort_def arm_def deliver_def split: if_splits, auto)

lemma results_inv_step: "sub_step s s' \<Longrightarrow> token_inv s \<Longrightarrow> results_inv s \<Longrightarrow> results_inv s'"
  by (induction rule: sub_step.induct)
     (simp_all add: results_inv_def token_inv_def deliver_def split: if_splits, auto)

lemma sub_inv_reachable: "sub_reachable dup s \<Longrightarrow> dup_ok s = dup \<and> token_inv s \<and> results_inv s"
proof (induction rule: sub_reachable.induct)
  case start
  then show ?case by (simp add: token_inv_def results_inv_def subchannel_def abort_new_def)
next
  case (step s s')
  then show ?case using token_inv_step results_inv_step by metis
qed

text \<open>C20: In every interleaving of the worker and the thread that cancels, a read that ends after the
  cancel fails; a clean end of the stream is only reported where the peer has closed, not where the
  cancel shut the socket down; and a read parked when the cancel comes can always complete, once the
  token was armed with a duplicate of the socket.\<close>

theorem cancel_is_seen:
  assumes "sub_reachable dup s"
  shows "(\<forall>r \<in> set (results s). fst r \<longrightarrow> snd r = Failed) \<and>
    ((False, CleanEof) \<in> set (results s) \<longrightarrow> closed s) \<and>
    (dup \<and> aborted (token s) \<and> worker s = Parked \<longrightarrow>
       (\<exists>s'. sub_step s s' \<and> results s' = results s @ [(True, Failed)]))"
proof -
  have inv: "dup_ok s = dup" "token_inv s" "results_inv s" using sub_inv_reachable [OF assms] by auto
  have "\<exists>s'. sub_step s s' \<and> results s' = results s @ [(True, Failed)]"
    if p: "dup" "aborted (token s)" "worker s = Parked"
  proof -
    have "down s" using inv p by (simp add: token_inv_def)
    then have "sub_step s (deliver CleanEof s)" using p(3) by (simp add: sub_step.read_eof)
    then show ?thesis using p(2) by (intro exI [of _ "deliver CleanEof s"]) (simp add: deliver_def)
  qed
  then show ?thesis using inv(3) unfolding results_inv_def by blast
qed

definition cancelled_park :: Subchannel where
  "cancelled_park = \<lparr>token = \<lparr>aborted = True, sock = False\<rparr>, worker = Parked, dup_ok = True, down = True,
     closed = False, results = []\<rparr>"

lemma cancelled_park_reachable: "sub_reachable True cancelled_park"
proof -
  let ?s = "\<lambda>t w. \<lparr>token = t, worker = w, dup_ok = True, down = False, closed = False, results = []\<rparr>"
  have "sub_reachable True (?s abort_new Opened)"
    using sub_reachable.start [of True] by (simp add: subchannel_def)
  then have "sub_reachable True (?s abort_new Published)"
    by (rule sub_reachable.step) (use sub_step.publish [of "?s abort_new Opened"] in simp)
  then have "sub_reachable True (?s \<lparr>aborted = False, sock = True\<rparr> Idle)"
    by (rule sub_reachable.step)
       (use sub_step.arm_token [of "?s abort_new Published" _ False] in \<open>simp add: arm_def abort_new_def\<close>)
  then have "sub_reachable True (?s \<lparr>aborted = False, sock = True\<rparr> Parked)"
    by (rule sub_reachable.step)
       (use sub_step.read_parks [of "?s \<lparr>aborted = False, sock = True\<rparr> Idle"] in simp)
  then show ?thesis
    by (rule sub_reachable.step)
       (use sub_step.cancel [of "?s \<lparr>aborted = False, sock = True\<rparr> Parked" _ True]
        in \<open>simp add: abort_def cancelled_park_def\<close>)
qed

theorem cancel_is_seen_witness:
  "\<exists>s'. sub_step cancelled_park s' \<and> results s' = results cancelled_park @ [(True, Failed)]"
  using cancel_is_seen [OF cancelled_park_reachable] by (simp add: cancelled_park_def)

text \<open>A read on a connection whose token was seen flipped, before or during, is an error.\<close>

lemma read_some_aborted:
  "is_aborted h \<Longrightarrow> read_some A n h = (Inl ConnectionAborted, h)"
  "read_some A n h = (Inr bs, h') \<Longrightarrow> \<not> is_aborted h \<and> \<not> is_aborted h'"
  by (auto simp: read_some_def Let_def split: if_splits prod.splits sum.splits)

lemma hxnet_htxf_read_iff:
  "hxnet_htxf_read A n h = ((case fst (read_some A n h) of Inr bs \<Rightarrow> Some bs | Inl e \<Rightarrow> None), snd (read_some A n h))"
  by (auto simp: hxnet_htxf_read_def read_some_def Let_def split: prod.splits sum.splits)

end
