(* ===== verification/Xfer.thy ===== *)
theory Xfer
  imports Htxf
begin

text \<open>
  The copy loops of a file transfer (crate \<open>hxnet\<close>, \<open>xfer.rs\<close>): one file received or sent over the
  subchannel of \<open>Htxf\<close>.  The folder loops are in \<open>Xfer_Folder\<close>.

  The worker's state is its connection, the local disk, the bytes it reported as progress, what a
  preview was shown, and the file as its header described it (the \<open>was\<close> argument of \<open>file_recv\<close>).  A step
  gives a value or ends the function with a return code, 0 included, as the early returns of the source
  do.  The header codec of \<open>hxfiles_xfer\<close> and the sidecar and resource-fork access of \<open>hxhfs\<close>, which are
  another repository, are the fields of \<open>Ext\<close>.  Sizes are 64-bit words and wrap as the release build
  does.  The ledgers of the folder loops are part of the state.
\<close>

definition EIO :: int where "EIO = 5"
definition EPIPE :: int where "EPIPE = 32"
definition EINVAL :: int where "EINVAL = 22"
definition EFBIG :: int where "EFBIG = 27"
definition ENAMETOOLONG :: int where "ENAMETOOLONG = 36"
definition EPROTO :: int where "EPROTO = 71"
definition ETIMEDOUT :: int where "ETIMEDOUT = 110"
definition ENOSPC :: int where "ENOSPC = 28"
definition HXNET_XFER_STOPPED :: int where "HXNET_XFER_STOPPED = - 1"
definition FORK_HEADER_LEN :: nat where "FORK_HEADER_LEN = 16"
definition FILP_HEADER_LEN :: nat where "FILP_HEADER_LEN = 133"
definition COPY_LEN :: nat where "COPY_LEN = 0xf000"

section \<open>The disk and the codecs\<close>

type_synonym path = bytes

record HfsInfo =
  hi_type_creator :: bytes
  hi_create_time :: bytes
  hi_modify_time :: bytes
  hi_rsrclen :: u64
  hi_comment :: bytes

record FilpInfo =
  fi_type_creator :: bytes
  fi_create_time :: bytes
  fi_modify_time :: bytes
  fi_comment :: bytes
  fi_data_fork_len :: u64

record FileNode =
  content :: bytes
  modified :: nat

text \<open>
  \<open>deny\<close> is the error of opening or making a path, \<open>space\<close> how many bytes the disk still takes,
  \<open>clock\<close> the time a write stamps a file with.
\<close>

record Fs =
  files :: "(path \<times> FileNode) list"
  rforks :: "(path \<times> bytes) list"
  sidecars :: "(path \<times> HfsInfo) list"
  dirs :: "path list"
  deny :: "path \<Rightarrow> int option"
  space :: "nat option"
  clock :: nat

record Ext =
  info_block_len :: "u8 \<Rightarrow> u8 \<Rightarrow> nat option"
  parse_filp_info :: "bytes \<Rightarrow> bool \<Rightarrow> FilpInfo option"
  fork_len :: "bytes \<Rightarrow> bool \<Rightarrow> u64"
  pack_fork_header :: "bytes \<Rightarrow> u64 \<Rightarrow> bool \<Rightarrow> bytes option"
  hfs_h_to_mtime :: "bytes \<Rightarrow> bytes"
  hfsinfo_read :: "Fs \<Rightarrow> path \<Rightarrow> HfsInfo"
  hfsinfo_write :: "path \<Rightarrow> HfsInfo \<Rightarrow> Fs \<Rightarrow> Fs"
  hfs_type_creator :: "Fs \<Rightarrow> path \<Rightarrow> bytes"
  resource_len :: "Fs \<Rightarrow> path \<Rightarrow> u64"
  comment_len :: "Fs \<Rightarrow> path \<Rightarrow> nat"
  resource_open :: "bool \<Rightarrow> Fs \<Rightarrow> path \<Rightarrow> int + bool"
  resource_get :: "Fs \<Rightarrow> path \<Rightarrow> bytes"
  resource_put :: "path \<Rightarrow> nat \<Rightarrow> bytes \<Rightarrow> Fs \<Rightarrow> Fs"
  rflt_encode :: "u32 \<Rightarrow> u32 \<Rightarrow> bytes"

text \<open>Bytes written at a position of a file, with zeros where it is shorter than that.\<close>

definition splice :: "nat \<Rightarrow> bytes \<Rightarrow> bytes \<Rightarrow> bytes" where
  "splice pos bs old =
     take pos (old @ replicate pos 0) @ bs @ drop (pos + length bs) old"

definition file_content :: "Fs \<Rightarrow> path \<Rightarrow> bytes" where
  "file_content d p = (case map_of (files d) p of Some f \<Rightarrow> content f | None \<Rightarrow> [])"

definition write_file :: "path \<Rightarrow> bytes \<Rightarrow> Fs \<Rightarrow> Fs" where
  "write_file p bs d =
     d\<lparr>files := AList.update p \<lparr>content = bs, modified = clock d\<rparr> (files d), clock := clock d + 1\<rparr>"

definition use_space :: "nat \<Rightarrow> Fs \<Rightarrow> Fs" where
  "use_space n d = d\<lparr>space := map_option (\<lambda>k. k - n) (space d)\<rparr>"

section \<open>Steps of a worker\<close>

record Filp =
  filp_len :: u64
  filp_modified :: bytes

text \<open>A file as a folder download left it, and what a folder upload has sent.\<close>

record Kept =
  kept_len :: u64
  kept_modified :: nat
  kept_whole :: bool
  kept_filp :: "Filp option"

type_synonym FolderLedger = "(bytes \<times> Kept) list"

record Offered =
  off_len :: u64
  off_modified :: nat

record UploadLedger =
  up_files :: "(bytes \<times> Offered) list"
  up_folders :: "bytes list"
  up_unsure :: "bytes list"

record 's St =
  conn :: "'s HtxfConn"
  disk :: Fs
  counted :: nat
  shown :: bytes
  shown_done :: bool
  was :: "Filp option"
  ledger :: FolderLedger
  uploads :: UploadLedger

type_synonym ('s, 'a) xstep = "'s St \<Rightarrow> (int + 'a) \<times> 's St"

definition give :: "'a \<Rightarrow> ('s, 'a) xstep" where
  "give a s = (Inr a, s)"

definition stop :: "int \<Rightarrow> ('s, 'a) xstep" where
  "stop rc s = (Inl rc, s)"

definition seq :: "('s, 'a) xstep \<Rightarrow> ('a \<Rightarrow> ('s, 'b) xstep) \<Rightarrow> ('s, 'b) xstep" where
  "seq m k s = (case m s of (Inl rc, s') \<Rightarrow> (Inl rc, s') | (Inr a, s') \<Rightarrow> k a s')"

definition or_stop :: "'a option \<Rightarrow> int \<Rightarrow> ('s, 'a) xstep" where
  "or_stop x rc = (case x of Some a \<Rightarrow> give a | None \<Rightarrow> stop rc)"

definition on_disk :: "(Fs \<Rightarrow> Fs) \<Rightarrow> ('s, unit) xstep" where
  "on_disk f s = (Inr (), s\<lparr>disk := f (disk s)\<rparr>)"

definition get_disk :: "('s, Fs) xstep" where
  "get_disk s = (Inr (disk s), s)"

definition add_progress :: "nat \<Rightarrow> 's St \<Rightarrow> 's St" where
  "add_progress n s = s\<lparr>counted := counted s + n\<rparr>"

definition report :: "nat \<Rightarrow> ('s, unit) xstep" where
  "report n s = (Inr (), add_progress n s)"

definition return_code :: "(int + 'a) \<Rightarrow> int" where
  "return_code r = (case r of Inl rc \<Rightarrow> rc | Inr _ \<Rightarrow> 0)"

section \<open>Reading\<close>

definition xfer_read :: "'s Aead \<Rightarrow> nat \<Rightarrow> ('s, bytes) xstep" where
  "xfer_read A n s =
     (case hxnet_htxf_read A n (conn s) of
        (Some bs, h) \<Rightarrow> (if bs = [] then Inl EIO else Inr bs, s\<lparr>conn := h\<rparr>)
      | (None, h) \<Rightarrow> (Inl EIO, s\<lparr>conn := h\<rparr>))"

lemma xfer_read_Inr: "xfer_read A n s = (Inr bs, s') \<Longrightarrow> bs \<noteq> [] \<and> length bs \<le> n"
  by (auto simp: xfer_read_def split: prod.splits option.splits if_splits dest: hxnet_htxf_read_le)

function read_exact_progress :: "'s Aead \<Rightarrow> nat \<Rightarrow> bytes \<Rightarrow> ('s, bytes) xstep" where
  "read_exact_progress A len out s =
     (if length out < len
      then (case xfer_read A (len - length out) s of
              (Inl e, s') \<Rightarrow> (Inl e, s')
            | (Inr bs, s') \<Rightarrow> read_exact_progress A len (out @ bs) (add_progress (length bs) s'))
      else (Inr out, s))"
  by pat_completeness auto
termination
  by (relation "measure (\<lambda>(A, len, out, s). len - length out)")
     (auto dest!: xfer_read_Inr [OF sym] intro!: diff_less_mono2)

declare read_exact_progress.simps [simp del]

text \<open>The loop of \<open>read_macr_marker\<close>, with \<open>got\<close> of the 16 bytes in hand.\<close>

function macr_loop :: "'s Aead \<Rightarrow> bool \<Rightarrow> bytes \<Rightarrow> ('s, bytes option) xstep" where
  "macr_loop A wait got s =
     (case hxnet_htxf_read A (FORK_HEADER_LEN - length got) (conn s) of
        (None, h) \<Rightarrow> (if got = [] \<and> \<not> wait then Inr None else Inl EIO, s\<lparr>conn := h\<rparr>)
      | (Some bs, h) \<Rightarrow>
          if bs = [] then (if got = [] \<and> \<not> wait then Inr None else Inl EIO, s\<lparr>conn := h\<rparr>)
          else if length got + length bs = FORK_HEADER_LEN
          then (Inr (Some (got @ bs)), add_progress (length bs) (s\<lparr>conn := h\<rparr>))
          else macr_loop A wait (got @ bs) (add_progress (length bs) (s\<lparr>conn := h\<rparr>)))"
  by pat_completeness auto
termination
  by (relation "measure (\<lambda>(A, wait, got, s). FORK_HEADER_LEN - length got)")
     (auto dest!: hxnet_htxf_read_le [OF sym] simp: neq_Nil_conv)

declare macr_loop.simps [simp del]

definition arm_timeout :: "bool \<Rightarrow> ('s, bool) xstep" where
  "arm_timeout on s = (case set_timeout on (conn s) of (ok, h) \<Rightarrow> (Inr ok, s\<lparr>conn := h\<rparr>))"

definition arm_or_stop :: "bool \<Rightarrow> ('s, unit) xstep" where
  "arm_or_stop on = seq (arm_timeout on) (\<lambda>ok. if ok then give () else stop EIO)"

text \<open>The timeout is disarmed before the outcome of the loop is returned, an error included.\<close>

definition read_macr_marker :: "'s Aead \<Rightarrow> bool \<Rightarrow> ('s, bytes option) xstep" where
  "read_macr_marker A wait s =
     (if wait then macr_loop A wait [] s
      else case arm_or_stop True s of
        (Inl e, s1) \<Rightarrow> (Inl e, s1)
      | (Inr _, s1) \<Rightarrow>
          (case macr_loop A wait [] s1 of
             (marker, s2) \<Rightarrow>
               (case arm_or_stop False s2 of
                  (Inl e, s3) \<Rightarrow> (Inl e, s3)
                | (Inr _, s3) \<Rightarrow> (marker, s3))))"

text \<open>
  \<open>rd_wr_recv\<close>: the bytes copied, also where it fails part way.  \<open>limited\<close> says that the destination is
  on the disk, \<open>loud\<close> that progress is reported.
\<close>

function rd_wr_recv :: "'s Aead \<Rightarrow> bool \<Rightarrow> bool \<Rightarrow> nat \<Rightarrow> bytes \<Rightarrow> 's St \<Rightarrow> (int + unit) \<times> bytes \<times> 's St" where
  "rd_wr_recv A limited loud data_len copied s =
     (if data_len = 0 then (Inr (), copied, s)
      else (case xfer_read A (min COPY_LEN data_len) s of
              (Inl e, s') \<Rightarrow> (Inl e, copied, s')
            | (Inr bs, s') \<Rightarrow>
                (case (if limited then space (disk s') else None) of
                   Some room \<Rightarrow>
                     if room < length bs
                     then (Inl ENOSPC, copied @ take room bs, s'\<lparr>disk := use_space room (disk s')\<rparr>)
                     else rd_wr_recv A limited loud (data_len - length bs) (copied @ bs)
                       ((if loud then add_progress (length bs) else id)
                         (s'\<lparr>disk := use_space (length bs) (disk s')\<rparr>))
                 | None \<Rightarrow>
                     rd_wr_recv A limited loud (data_len - length bs) (copied @ bs)
                       ((if loud then add_progress (length bs) else id) s'))))"
  by pat_completeness auto
termination
  by (relation "measure (\<lambda>(A, limited, loud, data_len, copied, s). data_len)")
     (auto dest!: xfer_read_Inr [OF sym])

declare rd_wr_recv.simps [simp del]

text \<open>A copy whose destination is a sink.\<close>

definition drain_bytes :: "'s Aead \<Rightarrow> nat \<Rightarrow> ('s, unit) xstep" where
  "drain_bytes A n s = (case rd_wr_recv A False True n [] s of (r, _, s') \<Rightarrow> (r, s'))"

function preview_get :: "'s Aead \<Rightarrow> nat \<Rightarrow> ('s, unit) xstep" where
  "preview_get A data_len s =
     (if data_len = 0 then (Inr (), s\<lparr>shown_done := True\<rparr>)
      else (case xfer_read A (min COPY_LEN data_len) s of
              (Inl e, s') \<Rightarrow> (Inl e, s')
            | (Inr bs, s') \<Rightarrow>
                preview_get A (data_len - length bs)
                  (add_progress (length bs) (s'\<lparr>shown := shown s' @ bs\<rparr>))))"
  by pat_completeness auto
termination
  by (relation "measure (\<lambda>(A, data_len, s). data_len)") (auto dest!: xfer_read_Inr [OF sym])

declare preview_get.simps [simp del]


section \<open>Receiving a file\<close>

record Params =
  px_path :: "path option"
  file_budget :: u64
  data_pos :: u64
  rsrc_pos :: u64
  opt_preview :: bool
  opt_folder :: bool
  opt_large :: bool
  preview :: bool
  preview_limit :: "(u64 \<Rightarrow> u64) option"
  data_size :: u64
  rsrc_size :: u64

definition make_hfsinfo :: "bytes \<Rightarrow> FilpInfo \<Rightarrow> u64 \<Rightarrow> HfsInfo" where
  "make_hfsinfo tc fi rsrclen =
     \<lparr>hi_type_creator = tc, hi_create_time = fi_create_time fi, hi_modify_time = fi_modify_time fi,
      hi_rsrclen = rsrclen, hi_comment = fi_comment fi\<rparr>"

definition finish :: "Ext \<Rightarrow> path \<Rightarrow> FilpInfo \<Rightarrow> u64 \<Rightarrow> ('s, unit) xstep" where
  "finish E p fi rsrclen = on_disk (hfsinfo_write E p (make_hfsinfo (fi_type_creator fi) fi rsrclen))"

definition checked_add64 :: "u64 \<Rightarrow> u64 \<Rightarrow> u64 option" where
  "checked_add64 a b = (if unat a + unat b < 2 ^ 64 then Some (a + b) else None)"

definition data_from :: "Filp option \<Rightarrow> u64 \<Rightarrow> u64 \<Rightarrow> bytes \<Rightarrow> int + u64" where
  "data_from w pos len mtime =
     (case w of
        None \<Rightarrow> Inr pos
      | Some w0 \<Rightarrow>
          if filp_modified w0 \<noteq> mtime then Inl EIO
          else if checked_add64 pos len = Some (filp_len w0) then Inr pos
          else if len = filp_len w0 then Inr 0
          else Inl EIO)"

definition place_data :: "Params \<Rightarrow> FilpInfo \<Rightarrow> ('s, u64) xstep" where
  "place_data p fi s =
     (case data_from (was s) (data_pos p) (fi_data_fork_len fi) (fi_modify_time fi) of
        Inl e \<Rightarrow> (Inl e, s\<lparr>was := None\<rparr>)
      | Inr at \<Rightarrow>
          (Inr at, s\<lparr>was := Some \<lparr>filp_len = at + fi_data_fork_len fi, filp_modified = fi_modify_time fi\<rparr>\<rparr>))"

definition HTftHTLC :: bytes where
  "HTftHTLC = [0x48, 0x54, 0x66, 0x74, 0x48, 0x54, 0x4C, 0x43]"

definition recv_preview :: "'s Aead \<Rightarrow> Params \<Rightarrow> u64 \<Rightarrow> ('s, unit) xstep" where
  "recv_preview A p len =
     (if \<not> preview p then stop 0
      else let wanted = min (case preview_limit p of Some f \<Rightarrow> f len | None \<Rightarrow> len) len
        in seq (preview_get A (unat wanted)) (\<lambda>_.
             if wanted < len then stop HXNET_XFER_STOPPED else give ()))"

text \<open>
  The data fork: the file is made or emptied, the bytes sent again are copied in silence and the rest
  with progress, and what was copied is on the disk also where the copy fails part way.
\<close>

definition open_data :: "path \<Rightarrow> bool \<Rightarrow> Fs \<Rightarrow> Fs" where
  "open_data p trunc d = (if trunc \<or> map_of (files d) p = None then write_file p [] d else d)"

definition put_data :: "path \<Rightarrow> nat \<Rightarrow> bytes \<Rightarrow> Fs \<Rightarrow> Fs" where
  "put_data p pos bs d = (if bs = [] then d else write_file p (splice pos bs (file_content d p)) d)"

definition copy_data :: "'s Aead \<Rightarrow> path \<Rightarrow> u64 \<Rightarrow> u64 \<Rightarrow> u64 \<Rightarrow> ('s, unit) xstep" where
  "copy_data A p at again len s =
     (let s0 = s\<lparr>disk := open_data p (at = 0) (disk s)\<rparr> in
      case rd_wr_recv A True False (unat again) [] s0 of
        (Inl e, bs, s1) \<Rightarrow> (Inl e, s1\<lparr>disk := put_data p (unat at) bs (disk s1)\<rparr>)
      | (Inr _, bs, s1) \<Rightarrow>
          (case rd_wr_recv A True True (unat (len - again)) bs s1 of
             (Inl e, bs', s2) \<Rightarrow> (Inl e, s2\<lparr>disk := put_data p (unat at) bs' (disk s2)\<rparr>)
           | (Inr _, bs', s2) \<Rightarrow>
               (Inr (), s2\<lparr>disk := put_data p (unat at) bs' (disk s2),
                           conn := forks_read (len - again) (conn s2)\<rparr>)))"

definition recv_data_fork :: "'s Aead \<Rightarrow> path \<Rightarrow> u64 \<Rightarrow> u64 \<Rightarrow> u64 \<Rightarrow> ('s, unit) xstep" where
  "recv_data_fork A p at again len =
     (if len = 0 then give ()
      else seq get_disk (\<lambda>d.
        case deny d p of
          Some e \<Rightarrow> stop e
        | None \<Rightarrow> copy_data A p at (min again len) len))"

function drain_loop :: "'s Aead \<Rightarrow> nat \<Rightarrow> 's St \<Rightarrow> 's St" where
  "drain_loop A remaining s =
     (if remaining = 0 then s
      else (case hxnet_htxf_read A (min 2048 remaining) (conn s) of
              (None, h) \<Rightarrow> s\<lparr>conn := h\<rparr>
            | (Some bs, h) \<Rightarrow>
                if bs = [] then s\<lparr>conn := h\<rparr>
                else drain_loop A (remaining - length bs) (add_progress (length bs) (s\<lparr>conn := h\<rparr>))))"
  by pat_completeness auto
termination
  by (relation "measure (\<lambda>(A, remaining, s). remaining)") auto

declare drain_loop.simps [simp del]

definition folder_drain :: "'s Aead \<Rightarrow> nat \<Rightarrow> ('s, unit) xstep" where
  "folder_drain A n =
     seq (arm_timeout True) (\<lambda>ok.
       if \<not> ok then give ()
       else seq (\<lambda>s. (Inr (), drain_loop A n s)) (\<lambda>_. arm_or_stop False))"

definition recv_resource_fork :: "'s Aead \<Rightarrow> Ext \<Rightarrow> path \<Rightarrow> u64 \<Rightarrow> u64 \<Rightarrow> ('s, u64) xstep" where
  "recv_resource_fork A E p pos len s =
     (case resource_open E True (disk s) p of
        Inl e \<Rightarrow> (Inl e, s)
      | Inr False \<Rightarrow> (Inl EIO, s)
      | Inr True \<Rightarrow>
          (case rd_wr_recv A True True (unat len) [] s of
             (Inl e, bs, s') \<Rightarrow> (Inl e, s'\<lparr>disk := resource_put E p (unat pos) bs (disk s')\<rparr>)
           | (Inr _, bs, s') \<Rightarrow>
               (case checked_add64 pos len of
                  None \<Rightarrow> (Inl EFBIG, s'\<lparr>disk := resource_put E p (unat pos) bs (disk s')\<rparr>)
                | Some n \<Rightarrow> (Inr n, s'\<lparr>disk := resource_put E p (unat pos) bs (disk s')\<rparr>))))"

definition recv_resource ::
  "'s Aead \<Rightarrow> Ext \<Rightarrow> Params \<Rightarrow> path \<Rightarrow> FilpInfo \<Rightarrow> bool \<Rightarrow> u64 \<Rightarrow> u64 \<Rightarrow> ('s, unit) xstep" where
  "recv_resource A E p path fi declared tot_len budget =
     (if opt_folder p \<and> file_budget p = 0
      then seq (read_macr_marker A declared) (\<lambda>m.
           seq (case m of Some h \<Rightarrow> drain_bytes A (unat (fork_len E h (opt_large p))) | None \<Rightarrow> give ()) (\<lambda>_.
           finish E path fi 0))
      else if opt_folder p
      then seq (if tot_len < budget then folder_drain A (unat (budget - tot_len)) else give ()) (\<lambda>_.
           finish E path fi 0)
      else if tot_len \<ge> budget then finish E path fi (rsrc_pos p)
      else seq (read_macr_marker A False) (\<lambda>m.
           case m of
             None \<Rightarrow> finish E path fi (rsrc_pos p)
           | Some h \<Rightarrow>
               let len = fork_len E h (opt_large p) in
               if len = 0 then finish E path fi (rsrc_pos p)
               else seq (recv_resource_fork A E path (rsrc_pos p) len) (finish E path fi)))"

definition recv_forks ::
  "'s Aead \<Rightarrow> Ext \<Rightarrow> Params \<Rightarrow> path \<Rightarrow> FilpInfo \<Rightarrow> bytes \<Rightarrow> nat \<Rightarrow> u64 \<Rightarrow> ('s, unit) xstep" where
  "recv_forks A E p path fi hdr info_len at =
     (let len = fi_data_fork_len fi;
          again = data_pos p - at;
          budget = (if file_budget p = 0 then 0 else saturating_add64 (file_budget p) again);
          tot_len = of_nat (40 + info_len) + len
      in if opt_preview p then recv_preview A p len
         else seq (recv_data_fork A path at again len) (\<lambda>_.
           recv_resource A E p path fi (from_be16 (hdr ! 22) (hdr ! 23) \<ge> 3) tot_len budget))"

definition file_recv :: "'s Aead \<Rightarrow> Ext \<Rightarrow> Params \<Rightarrow> ('s, unit) xstep" where
  "file_recv A E p =
     seq (or_stop (px_path p) EINVAL) (\<lambda>path.
     seq (read_exact_progress A 40 []) (\<lambda>hdr.
     seq (or_stop (info_block_len E (hdr ! 38) (hdr ! 39)) EIO) (\<lambda>info_len.
     seq (read_exact_progress A info_len []) (\<lambda>info.
     seq (or_stop (parse_filp_info E info (opt_large p)) EIO) (\<lambda>fi.
     seq (if opt_preview p then give ()
          else on_disk (hfsinfo_write E path (make_hfsinfo HTftHTLC fi (rsrc_pos p)))) (\<lambda>_.
     seq (place_data p fi) (\<lambda>at.
     recv_forks A E p path fi hdr info_len at)))))))"

definition hxnet_xfer_file_recv_one :: "'s Aead \<Rightarrow> Ext \<Rightarrow> Params \<Rightarrow> 's St \<Rightarrow> int \<times> 's St" where
  "hxnet_xfer_file_recv_one A E p s =
     (case file_recv A E p (s\<lparr>was := None\<rparr>) of (r, s') \<Rightarrow> (return_code r, s'))"

section \<open>Sending a file\<close>

definition FILP_TEMPLATE :: bytes where
  "FILP_TEMPLATE =
    [0x46,0x49,0x4c,0x50,0x00,0x01,0x00,0x00,0x00,0x00,0x00,0x00,
     0x00,0x00,0x00,0x00,0x00,0x00,0x00,0x00,0x00,0x00,0x00,0x02,
     0x49,0x4e,0x46,0x4f,0x00,0x00,0x00,0x00,0x00,0x00,0x00,0x00,
     0x00,0x00,0x00,0x5e,0x41,0x4d,0x41,0x43,0x54,0x59,0x50,0x45,
     0x43,0x52,0x45,0x41,0x00,0x00,0x00,0x00,0x00,0x00,0x01,0x00,
     0x00,0x00,0x00,0x00,0x00,0x00,0x00,0x00,0x00,0x00,0x00,0x00,
     0x00,0x00,0x00,0x00,0x00,0x00,0x00,0x00,0x00,0x00,0x00,0x00,
     0x00,0x00,0x00,0x00,0x00,0x00,0x00,0x00,0x07,0x70,0x00,0x00,
     0x00,0x00,0x00,0x00,0x07,0x70,0x00,0x00,0x00,0x00,0x00,0x00,
     0x00,0x00,0x00,0x03,0x68,0x78,0x64]"

definition xfer_write :: "'s Aead \<Rightarrow> bytes \<Rightarrow> ('s, unit) xstep" where
  "xfer_write A buf s =
     (case write_some A buf (conn s) of
        (Inr n, h) \<Rightarrow> (if n = length buf then Inr () else Inl EPIPE, s\<lparr>conn := h\<rparr>)
      | (Inl e, h) \<Rightarrow> (Inl (if e = WouldBlock \<or> e = TimedOut then ETIMEDOUT else EPIPE), s\<lparr>conn := h\<rparr>))"

text \<open>\<open>rd_wr_send\<close>: \<open>src\<close> is what the local file still holds.\<close>

function rd_wr_send :: "'s Aead \<Rightarrow> bytes \<Rightarrow> nat \<Rightarrow> ('s, unit) xstep" where
  "rd_wr_send A src data_len s =
     (if data_len = 0 then (Inr (), s)
      else let chunk = take (min COPY_LEN data_len) src in
        if chunk = [] then (Inl EIO, s)
        else (case xfer_write A chunk s of
                (Inl e, s') \<Rightarrow> (Inl e, s')
              | (Inr _, s') \<Rightarrow>
                  rd_wr_send A (drop (length chunk) src) (data_len - length chunk)
                    (add_progress (length chunk) s')))"
  by pat_completeness auto
termination
  by (relation "measure (\<lambda>(A, src, data_len, s). data_len)") (auto simp: COPY_LEN_def)

declare rd_wr_send.simps [simp del]

definition copy_at :: "nat \<Rightarrow> bytes \<Rightarrow> bytes \<Rightarrow> bytes" where
  "copy_at pos bs xs = take pos xs @ bs @ drop (pos + length bs) xs"

definition filp_header :: "Ext \<Rightarrow> Fs \<Rightarrow> path \<Rightarrow> bool \<Rightarrow> HfsInfo \<Rightarrow> bytes \<Rightarrow> bytes" where
  "filp_header E d path rsrc_left fi data_hdr =
     (let comlen = length (hi_comment fi);
          comfield = 65 + comlen + 12;
          h0 = FILP_TEMPLATE @ replicate (18 + comlen) 0;
          h1 = (if rsrc_left then h0[23 := 3] else h0);
          h2 = (if comfield > 0xff then h1[38 := 1] else h1);
          h3 = h2[39 := of_nat comfield];
          h4 = copy_at 44 (hfs_type_creator E d path) h3;
          h5 = copy_at 96 (hfs_h_to_mtime E (hi_create_time fi)) h4;
          h6 = copy_at 104 (hfs_h_to_mtime E (hi_modify_time fi)) h5;
          h7 = h6[115 := 0, 116 := of_nat comlen];
          h8 = copy_at 117 (hi_comment fi) h7
      in copy_at (117 + comlen) data_hdr h8)"

definition send_raw :: "'s Aead \<Rightarrow> path \<Rightarrow> nat \<Rightarrow> u64 \<Rightarrow> ('s, unit) xstep" where
  "send_raw A path pos len =
     seq get_disk (\<lambda>d.
       case deny d path of
         Some e \<Rightarrow> stop e
       | None \<Rightarrow> rd_wr_send A (drop pos (file_content d path)) (unat len))"

definition send_resource :: "'s Aead \<Rightarrow> Ext \<Rightarrow> Params \<Rightarrow> path \<Rightarrow> u64 \<Rightarrow> ('s, unit) xstep" where
  "send_resource A E p path left =
     seq (or_stop (pack_fork_header E [0x4D, 0x41, 0x43, 0x52] left (opt_large p)) EFBIG) (\<lambda>macr.
     seq (\<lambda>s. case xfer_write A macr s of
            (Inl e, s') \<Rightarrow> (Inl (if e = ETIMEDOUT then ETIMEDOUT else 0), s')
          | (Inr u, s') \<Rightarrow> (Inr u, s')) (\<lambda>_.
     seq (report 16) (\<lambda>_.
     seq get_disk (\<lambda>d.
       case resource_open E False d path of
         Inl e \<Rightarrow> stop e
       | Inr False \<Rightarrow> stop EIO
       | Inr True \<Rightarrow> rd_wr_send A (drop (unat (rsrc_pos p)) (resource_get E d path)) (unat left)))))"

definition file_send :: "'s Aead \<Rightarrow> Ext \<Rightarrow> Params \<Rightarrow> ('s, unit) xstep" where
  "file_send A E p =
     seq (or_stop (px_path p) EINVAL) (\<lambda>path.
       if opt_large p \<and> \<not> opt_folder p then send_raw A path 0 (data_size p)
       else seq get_disk (\<lambda>d.
         let data_left = data_size p - data_pos p;
             rsrc_left = rsrc_size p - rsrc_pos p;
             fi = hfsinfo_read E d path
         in seq (or_stop (pack_fork_header E [0x44, 0x41, 0x54, 0x41] data_left (opt_large p)) EFBIG) (\<lambda>data_hdr.
            seq (xfer_write A (filp_header E d path (rsrc_left \<noteq> 0) fi data_hdr)) (\<lambda>_.
            seq (report (FILP_HEADER_LEN + length (hi_comment fi))) (\<lambda>_.
            seq (if data_left \<noteq> 0 then send_raw A path (unat (data_pos p)) data_left else give ()) (\<lambda>_.
            if rsrc_left = 0 then give () else send_resource A E p path rsrc_left))))))"

definition hxnet_xfer_file_send_one :: "'s Aead \<Rightarrow> Ext \<Rightarrow> Params \<Rightarrow> 's St \<Rightarrow> int \<times> 's St" where
  "hxnet_xfer_file_send_one A E p s = (case file_send A E p s of (r, s') \<Rightarrow> (return_code r, s'))"

section \<open>Why a transfer failed\<close>

datatype Failure = Unreachable | Stalled | Lost | Local int | Larger

definition may_retry :: "Failure \<Rightarrow> bool" where
  "may_retry f \<longleftrightarrow> f \<noteq> Larger \<and> f \<notin> Local ` {EFBIG, EINVAL, ENAMETOOLONG}"

definition failure :: "'s HtxfConn option \<Rightarrow> int \<Rightarrow> Failure" where
  "failure h rv =
     (case h of
        Some c \<Rightarrow>
          if stalled c then Stalled
          else if broke c \<or> rv < 0 \<or> rv = EPROTO then Lost else Local rv
      | None \<Rightarrow> if rv < 0 \<or> rv = EPROTO then Lost else Local rv)"

end
