(* ===== verification/Xfer_Folder.thy ===== *)
theory Xfer_Folder
  imports Xfer "HOL-Library.List_Lexorder"
begin

text \<open>
  The folder loops of a transfer (crate \<open>hxnet\<close>, \<open>xfer.rs\<close>): the FILE_NEXT, FILE_SEND and FILE_RESUME
  exchange in both directions, the ledgers that let a folder be asked for again, and the walk of the
  local tree.

  Waiting times are left out: whether a read within a grace runs out is the transport's next fault.
\<close>

definition FILE_SEND_CMD :: u16 where "FILE_SEND_CMD = 1"
definition FILE_RESUME_CMD :: u16 where "FILE_RESUME_CMD = 2"
definition FILE_NEXT_CMD :: u16 where "FILE_NEXT_CMD = 3"
definition NFI_HEADER_LEN :: nat where "NFI_HEADER_LEN = 6"
definition NFI_LEN_FIXED :: nat where "NFI_LEN_FIXED = 4"
definition MAXPATHLEN :: nat where "MAXPATHLEN = 4095"
definition RFLT_MAX :: nat where "RFLT_MAX = 128"
definition HXNET_XFER_CHANGED :: int where "HXNET_XFER_CHANGED = - 2"
definition HXNET_XFER_AGAIN :: int where "HXNET_XFER_AGAIN = - 3"
definition HXNET_XFER_REOFFER :: int where "HXNET_XFER_REOFFER = - 4"

section \<open>Reading whole fields\<close>

datatype EntryRead = Entry bytes | Closed | Silent | EntryFailed

datatype FullRead = Full bytes | CleanEnd | Broken

function htxf_read_full :: "'s Aead \<Rightarrow> nat \<Rightarrow> bytes \<Rightarrow> 's St \<Rightarrow> FullRead \<times> 's St" where
  "htxf_read_full A want got s =
     (if length got < want
      then (case hxnet_htxf_read A (want - length got) (conn s) of
              (None, h) \<Rightarrow> (Broken, s\<lparr>conn := h\<rparr>)
            | (Some bs, h) \<Rightarrow>
                if bs = [] then (if got = [] then CleanEnd else Broken, s\<lparr>conn := h\<rparr>)
                else htxf_read_full A want (got @ bs) (s\<lparr>conn := h\<rparr>))
      else (Full got, s))"
  by pat_completeness auto
termination
  by (relation "measure (\<lambda>(A, want, got, s). want - length got)") (auto intro!: diff_less_mono2)

declare htxf_read_full.simps [simp del]

definition field :: "'s Aead \<Rightarrow> nat \<Rightarrow> ('s, bytes) xstep" where
  "field A n s =
     (case htxf_read_full A n [] s of (Full bs, s') \<Rightarrow> (Inr bs, s') | (_, s') \<Rightarrow> (Inl EIO, s'))"

lemma read_retry_not_interrupted: "read_retry n t \<noteq> (Inl Interrupted, t')"
proof (induction n t rule: read_retry.induct)
  case (1 n t)
  obtain r t1 where r: "transport_read n t = (r, t1)" by fastforce
  show ?case
    using r "1.IH" [OF r [symmetric]] by (subst read_retry.simps) (auto split: sum.split)
qed

lemma read_exact_or_eof_not_interrupted: "read_exact_or_eof len filled t \<noteq> (Inl Interrupted, t')"
proof (induction len filled t rule: read_exact_or_eof.induct)
  case (1 len filled t)
  obtain r t1 where r: "transport_read (len - length filled) t = (r, t1)" by fastforce
  show ?case
    using r "1.IH"(1) [OF _ r [symmetric]] "1.IH"(2) [OF _ r [symmetric]]
    by (subst read_exact_or_eof.simps) (auto split: sum.split)
qed

lemma channel_read_not_interrupted: "channel_read A n c \<noteq> (Inl Interrupted, c')"
  by (auto simp: channel_read_def fill_one_frame_def read_exact_def Let_def
      read_retry_not_interrupted read_exact_or_eof_not_interrupted
      split: prod.splits sum.splits option.splits if_splits bool.splits)

lemma read_some_not_interrupted: "read_some A n h \<noteq> (Inl Interrupted, h')"
  by (auto simp: read_some_def Let_def channel_read_not_interrupted split: prod.splits sum.splits)

lemma read_some_le: "read_some A n h = (Inr bs, h') \<Longrightarrow> length bs \<le> n"
  by (auto simp: read_some_def Let_def split: if_splits prod.splits sum.splits dest: channel_read_le)

text \<open>An interrupted read is retried; the channel below never reports one.\<close>

function entry_loop :: "'s Aead \<Rightarrow> nat \<Rightarrow> bytes \<Rightarrow> 's St \<Rightarrow> EntryRead \<times> 's St" where
  "entry_loop A len got s =
     (if length got < len
      then (case read_some A (len - length got) (conn s) of
              (Inr bs, h) \<Rightarrow>
                if bs = [] then (if got = [] then Closed else EntryFailed, s\<lparr>conn := h\<rparr>)
                else entry_loop A len (got @ bs) (s\<lparr>conn := h\<rparr>)
            | (Inl e, h) \<Rightarrow>
                if e = Interrupted then entry_loop A len got (s\<lparr>conn := h\<rparr>)
                else if got = [] \<and> (e = WouldBlock \<or> e = TimedOut) then (Silent, s\<lparr>conn := h\<rparr>)
                else (EntryFailed, s\<lparr>conn := h\<rparr>))
      else (Entry got, s))"
  by pat_completeness auto
termination
  by (relation "measure (\<lambda>(A, len, got, s). len - length got)")
     (auto intro!: diff_less_mono2 simp: read_some_not_interrupted [symmetric])

declare entry_loop.simps [simp del]

definition read_entry_within :: "'s Aead \<Rightarrow> 's St \<Rightarrow> EntryRead \<times> 's St" where
  "read_entry_within A s =
     (case arm_timeout True s of
        (Inr True, s1) \<Rightarrow>
          (case entry_loop A NFI_HEADER_LEN [] s1 of
             (Entry bs, s2) \<Rightarrow>
               (case arm_timeout False s2 of
                  (Inr True, s3) \<Rightarrow> (Entry bs, s3)
                | (_, s3) \<Rightarrow> (EntryFailed, s3))
           | (r, s2) \<Rightarrow> (r, s2))
      | (_, s1) \<Rightarrow> (EntryFailed, s1))"

section \<open>The download ledger\<close>

definition kept_of :: "Fs \<Rightarrow> path \<Rightarrow> bool \<Rightarrow> Filp option \<Rightarrow> Kept option" where
  "kept_of d p whole filp =
     map_option (\<lambda>f. \<lparr>kept_len = of_nat (length (content f)), kept_modified = modified f,
       kept_whole = whole, kept_filp = filp\<rparr>) (map_of (files d) p)"

datatype Answer = Send | Resume u32 | Skip

definition answer :: "Kept option \<Rightarrow> Kept option \<Rightarrow> Answer" where
  "answer kept now =
     (case (kept, now) of
        (Some k, Some n) \<Rightarrow>
          if kept_len k = kept_len n \<and> kept_modified k = kept_modified n
          then (if kept_whole k then Skip
                else if kept_filp k \<noteq> None \<and> unat (kept_len k) < 2 ^ 32 then Resume (ucast (kept_len k))
                else Send)
          else Send
      | _ \<Rightarrow> Send)"

definition ledger_note :: "bytes \<Rightarrow> Kept option \<Rightarrow> FolderLedger \<Rightarrow> FolderLedger" where
  "ledger_note rel k l = (case k of Some x \<Rightarrow> AList.update rel x l | None \<Rightarrow> AList.delete rel l)"

definition join_path :: "path \<Rightarrow> bytes \<Rightarrow> path" where
  "join_path base rel = (if base = [] then rel else if last base = 47 then base @ rel else base @ [47] @ rel)"

definition ledger_held :: "Fs \<Rightarrow> path \<Rightarrow> FolderLedger \<Rightarrow> nat" where
  "ledger_held d base l =
     (\<Sum>(rel, k) \<leftarrow> l.
        (case kept_of d (join_path base rel) False None of
           None \<Rightarrow> 0
         | Some now \<Rightarrow> if answer (Some k) (Some now) \<noteq> Send then unat (kept_len k) else 0))"

section \<open>Receiving a folder\<close>

record FolderParams =
  fp_base :: "path option"
  fp_progress :: bool
  fp_preview :: bool
  fp_folder :: bool
  fp_large :: bool

definition per_file_params :: "FolderParams \<Rightarrow> path \<Rightarrow> u64 \<Rightarrow> u64 \<Rightarrow> u64 \<Rightarrow> u64 \<Rightarrow> u64 \<Rightarrow> Params" where
  "per_file_params fp path budget dpos rpos dsize rsize =
     \<lparr>px_path = Some path, file_budget = budget, data_pos = dpos, rsrc_pos = rpos,
      opt_preview = fp_preview fp, opt_folder = fp_folder fp, opt_large = fp_large fp,
      preview = False, preview_limit = None, data_size = dsize, rsrc_size = rsize\<rparr>"

definition create_dir_all :: "path \<Rightarrow> ('s, unit) xstep" where
  "create_dir_all p s =
     (case deny (disk s) p of
        Some e \<Rightarrow> (Inl e, s)
      | None \<Rightarrow> (Inr (), s\<lparr>disk := (disk s)\<lparr>dirs := p # dirs (disk s)\<rparr>\<rparr>))"

definition bad_name :: "bytes \<Rightarrow> bool" where
  "bad_name name \<longleftrightarrow> name = [46, 46] \<or> 47 \<in> set name \<or> 92 \<in> set name"

text \<open>The path components of an entry, joined with slashes.\<close>

fun read_components :: "'s Aead \<Rightarrow> nat \<Rightarrow> bytes \<Rightarrow> ('s, bytes) xstep" where
  "read_components A 0 rel = give rel"
| "read_components A (Suc n) rel =
     seq (field A 3) (\<lambda>ph.
       let nlen = unat (ph ! 2) in
       if nlen = 0 then stop EINVAL
       else seq (field A nlen) (\<lambda>name.
         if bad_name name then stop EINVAL
         else if length rel + (if rel = [] then nlen else 1 + nlen) > MAXPATHLEN then stop ENAMETOOLONG
         else read_components A n (if rel = [] then name else rel @ [47] @ name)))"

definition parent_of :: "path \<Rightarrow> path" where
  "parent_of p = rev (drop 1 (dropWhile (\<lambda>b. b \<noteq> 47) (rev p)))"

text \<open>The answer to an offered file: where its data goes, or \<open>None\<close> to pass over it.\<close>

definition answer_offer :: "'s Aead \<Rightarrow> Ext \<Rightarrow> path \<Rightarrow> bytes \<Rightarrow> ('s, u64 option) xstep" where
  "answer_offer A E full rel s =
     (let kept = map_of (ledger s) rel in
      case answer kept (kept_of (disk s) full False None) of
        Skip \<Rightarrow>
          (Inr None, s\<lparr>conn := forks_read (case kept of Some k \<Rightarrow> kept_len k | None \<Rightarrow> 0) (conn s)\<rparr>)
      | Send \<Rightarrow>
          (case xfer_write A (be_bytes16 FILE_SEND_CMD) s of
             (Inl e, s') \<Rightarrow> (Inl EIO, s')
           | (Inr _, s') \<Rightarrow> (Inr (Some 0), s'\<lparr>was := None\<rparr>))
      | Resume data \<Rightarrow>
          (let list = rflt_encode E data 0 in
           case xfer_write A (be_bytes16 FILE_RESUME_CMD @ be_bytes16 (of_nat (length list)) @ list) s of
             (Inl e, s') \<Rightarrow> (Inl EIO, s')
           | (Inr _, s') \<Rightarrow>
               (Inr (Some (ucast data)),
                s'\<lparr>was := (case kept of Some k \<Rightarrow> kept_filp k | None \<Rightarrow> None),
                   conn := forks_read (ucast data) (conn s')\<rparr>)))"

definition recv_folder_file ::
  "'s Aead \<Rightarrow> Ext \<Rightarrow> FolderParams \<Rightarrow> path \<Rightarrow> bytes \<Rightarrow> u64 \<Rightarrow> ('s, unit) xstep" where
  "recv_folder_file A E fp full rel at =
     seq (field A 4) (\<lambda>sz.
       let size = ucast (from_be32 (sz ! 0) (sz ! 1) (sz ! 2) (sz ! 3)) :: u64 in
       if 0 \<in> set full then stop EINVAL
       else (\<lambda>s.
         case file_recv A E (per_file_params fp full size at 0 0 0) s of
           (r, s') \<Rightarrow>
             let rv = return_code r;
                 s'' = s'\<lparr>ledger := ledger_note rel (kept_of (disk s') full (rv = 0) (was s')) (ledger s')\<rparr>
             in (if rv = 0 then Inr () else Inl rv, s'')))"

definition next_header :: "'s Aead \<Rightarrow> u32 \<Rightarrow> u32 \<Rightarrow> ('s, bytes) xstep" where
  "next_header A expected received s =
     (if expected \<noteq> 0 \<and> received \<ge> expected \<or> folder_size_arrived (conn s)
      then (case read_entry_within A s of
              (Entry nfi, s') \<Rightarrow> (Inr nfi, s')
            | (Closed, s') \<Rightarrow> (Inl 0, s')
            | (Silent, s') \<Rightarrow> (Inl 0, s')
            | (EntryFailed, s') \<Rightarrow> (Inl EIO, s'))
      else (case htxf_read_full A NFI_HEADER_LEN [] s of
              (Full nfi, s') \<Rightarrow> (Inr nfi, s')
            | (CleanEnd, s') \<Rightarrow> (Inl 0, s')
            | (Broken, s') \<Rightarrow> (Inl EIO, s')))"

text \<open>One turn of the loop: ask for the next entry and take it.\<close>

definition folder_turn ::
  "'s Aead \<Rightarrow> Ext \<Rightarrow> FolderParams \<Rightarrow> path \<Rightarrow> u32 \<Rightarrow> u32 \<Rightarrow> ('s, unit) xstep" where
  "folder_turn A E fp base expected received =
     seq (\<lambda>s. case xfer_write A (be_bytes16 FILE_NEXT_CMD) s of
            (Inl e, s') \<Rightarrow> (Inl EIO, s') | (Inr u, s') \<Rightarrow> (Inr u, s')) (\<lambda>_.
     seq (next_header A expected received) (\<lambda>nfi.
     let ftype = from_be16 (nfi ! 2) (nfi ! 3);
         pathcount = unat (from_be16 (nfi ! 4) (nfi ! 5))
     in seq (read_components A pathcount []) (\<lambda>rel.
        if rel = [] then stop EINVAL
        else let full = join_path base rel in
          if ftype = 1 then create_dir_all full
          else seq (if pathcount > 1 then create_dir_all (parent_of full) else give ()) (\<lambda>_.
               seq (answer_offer A E full rel) (\<lambda>at.
               case at of None \<Rightarrow> give () | Some pos \<Rightarrow> recv_folder_file A E fp full rel pos)))))"


subsection \<open>The loop ends\<close>

text \<open>
  A turn that continues has read an entry header, so what is left to read gets smaller: the loop ends
  with the stream, whatever the server sends.
\<close>

named_theorems shrinking \<open>operations that leave no more to read than there was\<close>

definition left_over :: "'s St \<Rightarrow> nat" where
  "left_over s = unread (chan (conn s))"

definition shrinks :: "('s, 'a) xstep \<Rightarrow> bool" where
  "shrinks m \<longleftrightarrow> (\<forall>s. left_over (snd (m s)) \<le> left_over s)"

definition consumes :: "('s, 'a) xstep \<Rightarrow> bool" where
  "consumes m \<longleftrightarrow> (\<forall>s a s'. m s = (Inr a, s') \<longrightarrow> left_over s' < left_over s)"

lemma hxnet_htxf_read_unread:
  "hxnet_htxf_read A n h = (r, h') \<Longrightarrow>
   unread (chan h') \<le> unread (chan h) \<and> (\<forall>bs. r = Some bs \<and> bs \<noteq> [] \<longrightarrow> unread (chan h') < unread (chan h))"
  by (auto simp: hxnet_htxf_read_def Let_def tick_def note_error_def split: if_splits prod.splits sum.splits
      dest!: channel_read_unread)

lemma read_some_unread:
  "read_some A n h = (r, h') \<Longrightarrow>
   unread (chan h') \<le> unread (chan h) \<and> (\<forall>bs. r = Inr bs \<and> bs \<noteq> [] \<longrightarrow> unread (chan h') < unread (chan h))"
  by (auto simp: read_some_def Let_def tick_def note_error_def split: if_splits prod.splits sum.splits
      dest!: channel_read_unread)

lemma channel_write_unread: "channel_write A buf c = (r, c') \<Longrightarrow> unread c' = unread c"
  by (auto simp: channel_write_def transport_write_def unread_def rd_size_def
      split: if_splits option.splits prod.splits list.splits)

lemma write_some_unread: "write_some A buf h = (r, h') \<Longrightarrow> unread (chan h') = unread (chan h)"
  by (auto simp: write_some_def Let_def tick_def note_error_def split: if_splits prod.splits sum.splits
      dest!: channel_write_unread)

lemma set_timeout_unread: "set_timeout b h = (ok, h') \<Longrightarrow> unread (chan h') = unread (chan h)"
  by (auto simp: set_timeout_def split: list.splits bool.splits)

lemma left_over_simps [simp]:
  "left_over (add_progress n s) = left_over s" "left_over (s\<lparr>disk := d\<rparr>) = left_over s"
  "left_over (s\<lparr>was := w\<rparr>) = left_over s" "left_over (s\<lparr>ledger := l\<rparr>) = left_over s"
  "left_over (s\<lparr>shown := b\<rparr>) = left_over s" "left_over (s\<lparr>shown_done := k\<rparr>) = left_over s"
  "left_over (s\<lparr>conn := h\<rparr>) = unread (chan h)" "unread (chan (forks_read m h)) = unread (chan h)"
  "unread (chan (conn s)) = left_over s"
  by (simp_all add: left_over_def add_progress_def forks_read_def)

lemma shrinks_basic [shrinking]:
  "shrinks (give a)" "shrinks (stop e)" "shrinks (or_stop x e)" "shrinks (on_disk f)" "shrinks get_disk"
  "shrinks (report n)" "shrinks (place_data p fi)" "shrinks (create_dir_all path)"
  by (auto simp: shrinks_def give_def stop_def or_stop_def on_disk_def get_disk_def report_def place_data_def
      create_dir_all_def split: option.splits sum.splits)

lemma shrinks_seq [shrinking]: "shrinks m \<Longrightarrow> (\<And>a. shrinks (k a)) \<Longrightarrow> shrinks (seq m k)"
  unfolding shrinks_def seq_def
  by (auto split: prod.splits sum.splits) (metis le_trans snd_conv)+

lemma consumes_seq1: "consumes m \<Longrightarrow> (\<And>a. shrinks (k a)) \<Longrightarrow> consumes (seq m k)"
  unfolding shrinks_def consumes_def seq_def
  by (auto split: prod.splits sum.splits) (metis le_less_trans snd_conv)

lemma consumes_seq2: "shrinks m \<Longrightarrow> (\<And>a. consumes (k a)) \<Longrightarrow> consumes (seq m k)"
  unfolding shrinks_def consumes_def seq_def
  by (auto split: prod.splits sum.splits) (metis less_le_trans snd_conv)

lemma xfer_read_left: "xfer_read A n s = (r, s') \<Longrightarrow> left_over s' \<le> left_over s"
  by (auto simp: xfer_read_def split: prod.splits option.splits dest!: hxnet_htxf_read_unread)

lemma read_exact_progress_left: "read_exact_progress A len out s = (r, s') \<Longrightarrow> left_over s' \<le> left_over s"
proof (induction A len out s rule: read_exact_progress.induct)
  case (1 A len out s)
  obtain r1 s1 where r1: "xfer_read A (len - length out) s = (r1, s1)" by fastforce
  show ?case
    using "1.prems" r1 xfer_read_left [OF r1] "1.IH" [OF _ r1 [symmetric]]
    by (subst (asm) read_exact_progress.simps) (fastforce split: if_splits sum.splits)
qed

lemma macr_loop_left: "macr_loop A wait got s = (r, s') \<Longrightarrow> left_over s' \<le> left_over s"
proof (induction A wait got s rule: macr_loop.induct)
  case (1 A wait got s)
  obtain r1 h1 where r1: "hxnet_htxf_read A (FORK_HEADER_LEN - length got) (conn s) = (r1, h1)" by fastforce
  show ?case
    using "1.prems" r1 hxnet_htxf_read_unread [OF r1] "1.IH" [OF r1 [symmetric]]
    by (subst (asm) macr_loop.simps) (fastforce split: if_splits option.splits)
qed

lemma rd_wr_recv_left:
  "rd_wr_recv A limited loud n copied s = (r, bs, s') \<Longrightarrow> left_over s' \<le> left_over s"
proof (induction A limited loud n copied s rule: rd_wr_recv.induct)
  case (1 A limited loud n copied s)
  obtain r1 s1 where r1: "xfer_read A (min COPY_LEN n) s = (r1, s1)" by fastforce
  show ?case
    using "1.prems" r1 xfer_read_left [OF r1] "1.IH" [OF _ r1 [symmetric]]
    by (subst (asm) rd_wr_recv.simps) (fastforce split: if_splits sum.splits option.splits)
qed

lemma preview_get_left: "preview_get A n s = (r, s') \<Longrightarrow> left_over s' \<le> left_over s"
proof (induction A n s rule: preview_get.induct)
  case (1 A n s)
  obtain r1 s1 where r1: "xfer_read A (min COPY_LEN n) s = (r1, s1)" by fastforce
  show ?case
    using "1.prems" r1 xfer_read_left [OF r1] "1.IH" [OF _ r1 [symmetric]]
    by (subst (asm) preview_get.simps) (fastforce split: if_splits sum.splits)
qed

lemma drain_loop_left: "left_over (drain_loop A n s) \<le> left_over s"
proof (induction A n s rule: drain_loop.induct)
  case (1 A n s)
  obtain r1 h1 where r1: "hxnet_htxf_read A (min 2048 n) (conn s) = (r1, h1)" by fastforce
  show ?case
    using r1 hxnet_htxf_read_unread [OF r1] "1.IH" [OF _ r1 [symmetric]]
    by (subst drain_loop.simps) (fastforce split: if_splits option.split)
qed

lemma htxf_read_full_left:
  "htxf_read_full A want got s = (r, s') \<Longrightarrow>
   left_over s' \<le> left_over s \<and> (\<forall>bs. r = Full bs \<and> length got < want \<longrightarrow> left_over s' < left_over s)"
proof (induction A want got s rule: htxf_read_full.induct)
  case (1 A want got s)
  obtain r1 h1 where r1: "hxnet_htxf_read A (want - length got) (conn s) = (r1, h1)" by fastforce
  show ?case
    using "1.prems" r1 hxnet_htxf_read_unread [OF r1] "1.IH" [OF _ r1 [symmetric]]
    by (subst (asm) htxf_read_full.simps) (fastforce split: if_splits option.splits)
qed

lemma entry_loop_left:
  "entry_loop A len got s = (r, s') \<Longrightarrow>
   left_over s' \<le> left_over s \<and> (\<forall>bs. r = Entry bs \<and> length got < len \<longrightarrow> left_over s' < left_over s)"
proof (induction A len got s rule: entry_loop.induct)
  case (1 A len got s)
  obtain r1 h1 where r1: "read_some A (len - length got) (conn s) = (r1, h1)" by fastforce
  show ?case
    using "1.prems" r1 read_some_unread [OF r1] "1.IH" [OF _ r1 [symmetric]]
      read_some_not_interrupted [of A "len - length got" "conn s" h1]
    by (subst (asm) entry_loop.simps) (fastforce split: if_splits sum.splits)
qed


lemma arm_timeout_left: "arm_timeout b s = (r, s') \<Longrightarrow> left_over s' = left_over s"
  by (auto simp: arm_timeout_def split: prod.splits dest!: set_timeout_unread)

lemma shrinksI: "(\<And>s r s'. m s = (r, s') \<Longrightarrow> left_over s' \<le> left_over s) \<Longrightarrow> shrinks m"
  unfolding shrinks_def by (metis prod.collapse)

lemma shrinksD: "shrinks m \<Longrightarrow> m s = (r, s') \<Longrightarrow> left_over s' \<le> left_over s"
  unfolding shrinks_def by (metis snd_conv)

lemma shrinks_read_exact_progress [shrinking]: "shrinks (read_exact_progress A len out)"
  by (rule shrinksI) (erule read_exact_progress_left)

lemma shrinks_preview_get [shrinking]: "shrinks (preview_get A n)"
  by (rule shrinksI) (erule preview_get_left)

lemma shrinks_arm_timeout [shrinking]: "shrinks (arm_timeout b)"
  by (rule shrinksI) (simp add: arm_timeout_left)

lemma shrinks_drain_loop [shrinking]: "shrinks (\<lambda>s. (Inr (), drain_loop A n s))"
  by (simp add: shrinks_def drain_loop_left)

lemma shrinks_drain_bytes [shrinking]: "shrinks (drain_bytes A n)"
  by (rule shrinksI) (auto simp: drain_bytes_def split: prod.splits dest!: rd_wr_recv_left)

lemma shrinks_field [shrinking]: "shrinks (field A n)"
  by (rule shrinksI) (auto simp: field_def split: prod.splits FullRead.splits dest!: htxf_read_full_left)

lemma shrinks_write [shrinking]: "shrinks (xfer_write A buf)"
  by (auto simp: shrinks_def xfer_write_def split: prod.splits sum.splits dest!: write_some_unread)

lemma shrinks_arm_or_stop [shrinking]: "shrinks (arm_or_stop b)"
  by (auto simp: arm_or_stop_def intro!: shrinking)

lemma shrinks_macr [shrinking]: "shrinks (read_macr_marker A wait)"
proof (rule shrinksI)
  fix s r s' assume m: "read_macr_marker A wait s = (r, s' :: 'a St)"
  show "left_over s' \<le> left_over s"
  proof (cases wait)
    case True
    then show ?thesis using m macr_loop_left by (simp add: read_macr_marker_def)
  next
    case False
    obtain r1 s1 where 1: "arm_or_stop True s = (r1, s1)" by fastforce
    obtain r2 s2 where 2: "macr_loop A wait [] s1 = (r2, s2)" by fastforce
    obtain r3 s3 where 3: "arm_or_stop False s2 = (r3, s3)" by fastforce
    have "left_over s1 \<le> left_over s" "left_over s2 \<le> left_over s1" "left_over s3 \<le> left_over s2"
      using shrinksD [OF shrinks_arm_or_stop 1] macr_loop_left [OF 2] shrinksD [OF shrinks_arm_or_stop 3] .
    then show ?thesis
      using m False 1 2 3 by (auto simp: read_macr_marker_def split: sum.splits)
  qed
qed

lemma shrinks_copy_data [shrinking]: "shrinks (copy_data A p at again len)"
  unfolding shrinks_def copy_data_def Let_def
  by (auto split: prod.splits sum.splits dest!: rd_wr_recv_left)

lemma shrinks_recv_resource_fork [shrinking]: "shrinks (recv_resource_fork A E p pos len)"
  unfolding shrinks_def recv_resource_fork_def
  by (auto split: prod.splits sum.splits option.splits bool.splits dest!: rd_wr_recv_left)

lemma shrinks_recv_preview [shrinking]: "shrinks (recv_preview A p len)"
  unfolding recv_preview_def Let_def by (simp add: shrinking)

lemma shrinks_recv_data_fork [shrinking]: "shrinks (recv_data_fork A p at again len)"
  unfolding recv_data_fork_def by (simp add: shrinking split: option.split)

lemma shrinks_finish [shrinking]: "shrinks (finish E p fi n)"
  unfolding finish_def by (rule shrinking)

lemma shrinks_folder_drain [shrinking]: "shrinks (folder_drain A n)"
  unfolding folder_drain_def by (simp add: shrinking)

lemma shrinks_recv_resource [shrinking]: "shrinks (recv_resource A E p path fi declared tot budget)"
  unfolding recv_resource_def Let_def by (simp add: shrinking split: option.split)

lemma shrinks_recv_forks [shrinking]: "shrinks (recv_forks A E p path fi hdr n at)"
  unfolding recv_forks_def Let_def by (simp add: shrinking)

lemma shrinks_file_recv [shrinking]: "shrinks (file_recv A E p)"
  unfolding file_recv_def by (simp add: shrinking)

lemma shrinks_read_components [shrinking]: "shrinks (read_components A n rel)"
  by (induction A n rel rule: read_components.induct) (auto simp: Let_def intro!: shrinking)

lemma shrinks_answer_offer [shrinking]: "shrinks (answer_offer A E full rel)"
proof -
  have "left_over (snd (xfer_write A buf s)) \<le> left_over s" for buf and s :: "'a St"
    using shrinks_write by (auto simp: shrinks_def)
  then show ?thesis
    unfolding shrinks_def answer_offer_def Let_def
    by (auto split: Answer.splits prod.splits sum.splits) (metis snd_conv)+
qed

lemma shrinks_recv_folder_file [shrinking]: "shrinks (recv_folder_file A E fp full rel at)"
proof -
  have "left_over (snd (file_recv A E p s)) \<le> left_over s" for p and s :: "'a St"
    using shrinks_file_recv by (auto simp: shrinks_def)
  then have "shrinks (\<lambda>s. case file_recv A E p s of (r, s') \<Rightarrow>
      let rv = return_code r;
          s'' = s'\<lparr>ledger := ledger_note rel (kept_of (disk s') full (rv = 0) (was s')) (ledger s')\<rparr>
      in (if rv = 0 then Inr () else Inl rv, s''))" for p
    unfolding shrinks_def Let_def by (auto split: prod.splits) (metis snd_conv)
  then show ?thesis
    unfolding recv_folder_file_def Let_def by (auto intro!: shrinking simp: Let_def)
qed

lemma consumes_next_header: "consumes (next_header A expected received)"
  unfolding consumes_def next_header_def read_entry_within_def
  by (auto split: if_splits prod.splits EntryRead.splits FullRead.splits sum.splits bool.splits
      dest!: entry_loop_left htxf_read_full_left arm_timeout_left simp: NFI_HEADER_LEN_def)

lemma consumes_folder_turn: "consumes (folder_turn A E fp base expected received)"
proof -
  have "shrinks (\<lambda>s. case xfer_write A buf s of (Inl e, s') \<Rightarrow> (Inl EIO, s') | (Inr u, s') \<Rightarrow> (Inr u, s'))" for buf
    using shrinks_write [of A buf] unfolding shrinks_def
    by (auto split: prod.splits sum.splits) (metis snd_conv)+
  then show ?thesis
    unfolding folder_turn_def
    by (intro consumes_seq2 [OF _ consumes_seq1 [OF consumes_next_header]])
       (auto simp: Let_def intro!: shrinking split: option.split)
qed

lemma folder_turn_left: "folder_turn A E fp base expected received s = (Inr u, s') \<Longrightarrow> left_over s' < left_over s"
  using consumes_folder_turn unfolding consumes_def by blast

function folder_loop ::
  "'s Aead \<Rightarrow> Ext \<Rightarrow> FolderParams \<Rightarrow> path \<Rightarrow> u32 \<Rightarrow> u32 \<Rightarrow> 's St \<Rightarrow> int \<times> 's St" where
  "folder_loop A E fp base expected received s =
     (case folder_turn A E fp base expected received s of
        (Inl rc, s') \<Rightarrow> (rc, s')
      | (Inr _, s') \<Rightarrow> folder_loop A E fp base expected (saturating_add32 received 1) s')"
  by pat_completeness auto
termination
  by (relation "measure (\<lambda>(A, E, fp, base, expected, received, s). left_over s)")
     (auto dest: folder_turn_left [OF sym])

declare folder_loop.simps [simp del]

definition folder_recv :: "'s Aead \<Rightarrow> Ext \<Rightarrow> FolderParams \<Rightarrow> 's St \<Rightarrow> int \<times> 's St" where
  "folder_recv A E fp s =
     (if \<not> fp_progress fp then (EINVAL, s)
      else case fp_base fp of
        None \<Rightarrow> (EINVAL, s)
      | Some base \<Rightarrow>
          (case create_dir_all base s of
             (Inl e, s') \<Rightarrow> (e, s')
           | (Inr _, s') \<Rightarrow> folder_loop A E fp base (folder_items (conn s')) 0 s'))"

section \<open>Sending a folder\<close>

text \<open>The local tree as the walk finds it, without following links.\<close>

datatype LocalTree = LFile | LOther | LDir "(bytes \<times> LocalTree) list"

record PutEntry =
  pe_folder :: bool
  pe_comps :: "bytes list"

function collect_put_entries :: "bytes list \<Rightarrow> (bytes \<times> LocalTree) list \<Rightarrow> PutEntry list" where
  "collect_put_entries prefix es =
     concat (map (\<lambda>(name, t).
       case t of
         LFile \<Rightarrow> [\<lparr>pe_folder = False, pe_comps = prefix @ [name]\<rparr>]
       | LOther \<Rightarrow> []
       | LDir sub \<Rightarrow>
           \<lparr>pe_folder = True, pe_comps = prefix @ [name]\<rparr> # collect_put_entries (prefix @ [name]) sub)
       (sort_key fst es))"
  by pat_completeness auto
termination
proof (relation "measure (\<lambda>(prefix, es). size_list (\<lambda>(n, t). size t) es)")
  fix prefix :: "bytes list" and es :: "(bytes \<times> LocalTree) list" and x and name :: bytes and t sub
  assume "x \<in> set (sort_key fst es)" "(name, t) = x" "t = LDir sub"
  then have "(name, LDir sub) \<in> set es" by simp
  then have "size (LDir sub) < size_list (\<lambda>(n, t). size t) es"
    by (induction es) auto
  moreover have "size_list (\<lambda>(n, t). size t) sub < size (LDir sub)"
    by (induction sub) auto
  ultimately show "((prefix @ [name], sub), prefix, es) \<in> measure (\<lambda>(prefix, es). size_list (\<lambda>(n, t). size t) es)"
    by simp
qed simp

declare collect_put_entries.simps [simp del]

fun join_comps :: "bytes list \<Rightarrow> bytes" where
  "join_comps [] = []"
| "join_comps [c] = c"
| "join_comps (c # cs) = c @ [47] @ join_comps cs"


definition offered_of :: "FileNode \<Rightarrow> Offered" where
  "offered_of f = \<lparr>off_len = of_nat (length (content f)), off_modified = modified f\<rparr>"

definition upload_changed :: "Fs \<Rightarrow> path \<Rightarrow> UploadLedger \<Rightarrow> bool" where
  "upload_changed d base l \<longleftrightarrow>
     list_ex (\<lambda>(rel, o0). case map_of (files d) (join_path base rel) of
        Some f \<Rightarrow> offered_of f \<noteq> o0 | None \<Rightarrow> False) (up_files l)"

definition put_totals :: "Fs \<Rightarrow> path \<Rightarrow> (bytes \<times> LocalTree) list \<Rightarrow> UploadLedger option \<Rightarrow> u64 \<times> u32" where
  "put_totals d base tree sent =
     (let entries = collect_put_entries [] tree;
          lens = map (\<lambda>e. of_nat (length (file_content d (join_path base (join_comps (pe_comps e))))) :: u64)
            (filter (\<lambda>e. \<not> pe_folder e \<and> map_of (files d) (join_path base (join_comps (pe_comps e))) \<noteq> None) entries);
          made = (\<lambda>e. pe_folder e \<and> (case sent of Some l \<Rightarrow> join_comps (pe_comps e) \<in> set (up_folders l) | None \<Rightarrow> False));
          items = length (filter (\<lambda>e. \<not> made e) entries)
      in (foldl saturating_add64 0 lens, if items < 2 ^ 32 then of_nat items else - 1))"

text \<open>What the ledger learns where the server ended the upload, and the code to return, if any.\<close>

definition ended ::
  "(bytes \<times> bool) option \<Rightarrow> bool \<Rightarrow> UploadLedger \<Rightarrow> int option \<times> UploadLedger" where
  "ended offered in_skipped l =
     (case offered of
        Some (made, True) \<Rightarrow>
          (Some HXNET_XFER_AGAIN,
           l\<lparr>up_unsure := removeAll made (up_unsure l), up_folders := List.insert made (up_folders l)\<rparr>)
      | _ \<Rightarrow>
          if in_skipped
          then (Some HXNET_XFER_REOFFER,
                l\<lparr>up_folders := [], up_unsure := up_folders l @ up_unsure l\<rparr>)
          else (None, l))"

definition aborted_xfer :: "'s St \<Rightarrow> bool" where
  "aborted_xfer s = is_aborted (conn s)"

text \<open>
  The server's request for the next entry.  A stream that ends here may teach the ledger something;
  else a folder whose answer is lost is remembered as unsure.
\<close>

definition await_next :: "'s Aead \<Rightarrow> (bytes \<times> bool) option \<Rightarrow> bool \<Rightarrow> ('s, unit) xstep" where
  "await_next A offered in_skipped s =
     (case htxf_read_full A 2 [] s of
        (Full cmd, s') \<Rightarrow>
          (if from_be16 (cmd ! 0) (cmd ! 1) \<noteq> FILE_NEXT_CMD then Inl EPROTO else Inr (), s')
      | (r, s') \<Rightarrow>
          (case (if r = CleanEnd \<and> \<not> aborted_xfer s' then ended offered in_skipped (uploads s')
                 else (None, uploads s')) of
             (Some rc, l) \<Rightarrow> (Inl rc, s'\<lparr>uploads := l\<rparr>)
           | (None, l) \<Rightarrow>
               (Inl EIO,
                s'\<lparr>uploads := (case offered of
                     Some (rel, _) \<Rightarrow> l\<lparr>up_unsure := List.insert rel (up_unsure l)\<rparr> | None \<Rightarrow> l)\<rparr>)))"

definition confirm_offered :: "(bytes \<times> bool) option \<Rightarrow> ('s, unit) xstep" where
  "confirm_offered offered s =
     (Inr (), case offered of
        None \<Rightarrow> s
      | Some (made, _) \<Rightarrow>
          s\<lparr>uploads := (uploads s)\<lparr>up_unsure := removeAll made (up_unsure (uploads s)),
             up_folders := List.insert made (up_folders (uploads s))\<rparr>\<rparr>)"

definition or_eio :: "('s, 'a) xstep \<Rightarrow> ('s, 'a) xstep" where
  "or_eio m s = (case m s of (Inl e, s') \<Rightarrow> (Inl EIO, s') | (Inr a, s') \<Rightarrow> (Inr a, s'))"

definition nfi_len :: "bytes list \<Rightarrow> nat" where
  "nfi_len comps = NFI_LEN_FIXED + (\<Sum>c \<leftarrow> comps. 3 + length c)"

definition nfi_header :: "PutEntry \<Rightarrow> bytes" where
  "nfi_header e =
     be_bytes16 (of_nat (nfi_len (pe_comps e))) @ be_bytes16 (if pe_folder e then 1 else 0) @
     be_bytes16 (of_nat (length (pe_comps e)))"

fun send_components :: "'s Aead \<Rightarrow> bytes list \<Rightarrow> ('s, unit) xstep" where
  "send_components A [] = give ()"
| "send_components A (c # cs) =
     (if length c > 255 then stop ENAMETOOLONG
      else seq (or_eio (xfer_write A [0, 0, of_nat (length c)])) (\<lambda>_.
           seq (if c = [] then give () else or_eio (xfer_write A c)) (\<lambda>_.
           send_components A cs)))"

definition send_nfi :: "'s Aead \<Rightarrow> PutEntry \<Rightarrow> ('s, unit) xstep" where
  "send_nfi A e =
     (if nfi_len (pe_comps e) \<ge> 2 ^ 16 \<or> length (pe_comps e) \<ge> 2 ^ 16 then stop ENAMETOOLONG
      else seq (or_eio (xfer_write A (nfi_header e))) (\<lambda>_. send_components A (pe_comps e)))"

text \<open>
  The server's answer to an offered file: to pass over it, or from where to send it.  The offsets of a
  resume list are the big-endian words at bytes 46 and 62.
\<close>

definition rflt_offset :: "bytes \<Rightarrow> nat \<Rightarrow> nat \<Rightarrow> u64" where
  "rflt_offset rflt at need =
     (if need \<le> length rflt
      then ucast (from_be32 (rflt ! at) (rflt ! (at + 1)) (rflt ! (at + 2)) (rflt ! (at + 3))) else 0)"

definition read_resume :: "'s Aead \<Rightarrow> ('s, u64 \<times> u64) xstep" where
  "read_resume A =
     seq (field A 2) (\<lambda>rl.
       let rlen = unat (from_be16 (rl ! 0) (rl ! 1)) in
       if rlen > RFLT_MAX then stop EPROTO
       else seq (if rlen > 0 then field A rlen else give []) (\<lambda>rflt.
         give (rflt_offset rflt 46 50, rflt_offset rflt 62 66)))"

definition stop_ended :: "(bytes \<times> bool) option \<Rightarrow> bool \<Rightarrow> int \<Rightarrow> ('s, 'a) xstep" where
  "stop_ended offered in_skipped rc s =
     (if aborted_xfer s then (Inl rc, s)
      else case ended offered in_skipped (uploads s) of
        (Some again, l) \<Rightarrow> (Inl again, s\<lparr>uploads := l\<rparr>)
      | (None, l) \<Rightarrow> (Inl rc, s))"

definition read_answer :: "'s Aead \<Rightarrow> bool \<Rightarrow> ('s, (u64 \<times> u64) option) xstep" where
  "read_answer A in_skipped s =
     (case htxf_read_full A 2 [] s of
        (Full c, s') \<Rightarrow>
          (let cmd = from_be16 (c ! 0) (c ! 1) in
           if cmd = FILE_NEXT_CMD then (Inr None, s')
           else if cmd = FILE_RESUME_CMD then seq (read_resume A) (\<lambda>pos. give (Some pos)) s'
           else if cmd \<noteq> FILE_SEND_CMD then (Inl EPROTO, s')
           else (Inr (Some (0, 0)), s'))
      | (CleanEnd, s') \<Rightarrow> stop_ended None in_skipped EIO s'
      | (Broken, s') \<Rightarrow> (Inl EIO, s'))"

definition payload_size :: "u64 \<Rightarrow> u64 \<Rightarrow> u64 \<Rightarrow> u64" where
  "payload_size com data_left rsrc_left =
     of_nat FILP_HEADER_LEN + com + data_left +
     (if rsrc_left = 0 then 0 else of_nat FORK_HEADER_LEN + rsrc_left)"

definition send_folder_file ::
  "'s Aead \<Rightarrow> Ext \<Rightarrow> FolderParams \<Rightarrow> path \<Rightarrow> bytes \<Rightarrow> bool \<Rightarrow> u64 \<Rightarrow> u64 \<Rightarrow> ('s, unit) xstep" where
  "send_folder_file A E fp full rel in_skipped dpos rpos =
     seq get_disk (\<lambda>d.
     seq (case deny d full of Some e \<Rightarrow> stop e | None \<Rightarrow> or_stop (map_of (files d) full) 2) (\<lambda>md.
     let dsize = of_nat (length (content md));
         rsize = resource_len E d full;
         com = of_nat (comment_len E d full);
         now = offered_of md;
         resumed = (dpos + rpos \<noteq> 0)
     in seq (\<lambda>s. if dpos > dsize \<or> rpos > rsize \<or>
                   resumed \<and> (case map_of (up_files (uploads s)) rel of Some o0 \<Rightarrow> o0 \<noteq> now | None \<Rightarrow> False)
                then (Inl HXNET_XFER_CHANGED, s)
                else (Inr (), s\<lparr>uploads := (uploads s)\<lparr>up_files := AList.update rel now (up_files (uploads s))\<rparr>\<rparr>)) (\<lambda>_.
        seq (if resumed then report (unat (dpos + rpos)) else give ()) (\<lambda>_.
        let size = payload_size com (dsize - dpos) (rsize - rpos) in
        if unat size \<ge> 2 ^ 32 then stop EFBIG
        else seq (or_eio (xfer_write A (be_bytes32 (ucast size)))) (\<lambda>_.
          if 0 \<in> set full then stop EINVAL
          else (\<lambda>s. case hxnet_xfer_file_send_one A E (per_file_params fp full 0 dpos rpos dsize rsize) s of
                  (rv, s') \<Rightarrow>
                    if rv = 0 then (Inr (), s')
                    else if rv = EPIPE then stop_ended None in_skipped rv s'
                    else (Inl rv, s')))))))"

text \<open>The loop over the entries, with its local variables.\<close>

record SendVars =
  sv_asked :: bool
  sv_offered :: "(bytes \<times> bool) option"
  sv_skipped :: "bytes list list"
  sv_in_skipped :: bool

definition starts_with_comps :: "bytes list \<Rightarrow> bytes list \<Rightarrow> bool" where
  "starts_with_comps comps pre \<longleftrightarrow> take (length pre) comps = pre"

definition send_entry ::
  "'s Aead \<Rightarrow> Ext \<Rightarrow> FolderParams \<Rightarrow> path \<Rightarrow> PutEntry \<Rightarrow> SendVars \<Rightarrow> ('s, SendVars) xstep" where
  "send_entry A E fp base e v s =
     (let rel = join_comps (pe_comps e) in
      if pe_folder e \<and> rel \<in> set (up_folders (uploads s))
      then (Inr (v\<lparr>sv_skipped := sv_skipped v @ [pe_comps e]\<rparr>), s)
      else seq (if sv_asked v then give () else await_next A (sv_offered v) (sv_in_skipped v)) (\<lambda>_.
        seq (confirm_offered (sv_offered v)) (\<lambda>_.
        let in_skipped = (\<not> pe_folder e \<and> list_ex (starts_with_comps (pe_comps e)) (sv_skipped v));
            v1 = v\<lparr>sv_asked := False, sv_offered := None, sv_in_skipped := in_skipped\<rparr>
        in seq (send_nfi A e) (\<lambda>_.
          if pe_folder e
          then (\<lambda>s1. (Inr (v1\<lparr>sv_offered := Some (rel, rel \<in> set (up_unsure (uploads s1)))\<rparr>), s1))
          else seq (read_answer A in_skipped) (\<lambda>a.
            case a of
              None \<Rightarrow> give (v1\<lparr>sv_asked := True\<rparr>)
            | Some (dpos, rpos) \<Rightarrow>
                seq (send_folder_file A E fp (join_path base rel) rel in_skipped dpos rpos) (\<lambda>_. give v1))))) s)"

fun send_entries ::
  "'s Aead \<Rightarrow> Ext \<Rightarrow> FolderParams \<Rightarrow> path \<Rightarrow> PutEntry list \<Rightarrow> SendVars \<Rightarrow> ('s, unit) xstep" where
  "send_entries A E fp base [] v = give ()"
| "send_entries A E fp base (e # es) v =
     seq (send_entry A E fp base e v) (\<lambda>v'. send_entries A E fp base es v')"

definition folder_send ::
  "'s Aead \<Rightarrow> Ext \<Rightarrow> FolderParams \<Rightarrow> (bytes \<times> LocalTree) list \<Rightarrow> 's St \<Rightarrow> int \<times> 's St" where
  "folder_send A E fp tree s =
     (if \<not> fp_progress fp then (EINVAL, s)
      else case fp_base fp of
        None \<Rightarrow> (EINVAL, s)
      | Some base \<Rightarrow>
          (case send_entries A E fp base (collect_put_entries [] tree)
               \<lparr>sv_asked = False, sv_offered = None, sv_skipped = [], sv_in_skipped = False\<rparr> s of
             (r, s') \<Rightarrow> (return_code r, s')))"

end
