(* ===== verification/Xfer_Props.thy ===== *)
theory Xfer_Props
  imports Xfer_Folder Htxf_Props
begin

text \<open>
  Properties of the transfer workers: what a sender writes is what the declared size says and what a
  receiver rebuilds, a resumed download ends with the server's file, and a folder download stays inside
  its folder whatever the server names.
\<close>

section \<open>A connection that feeds the worker\<close>

text \<open>The connection still gives \<open>rest\<close>, in clear or sealed, is not cancelled and takes its timeouts.\<close>

definition feeds :: "'s Aead \<Rightarrow> ('s \<Rightarrow> 's \<Rightarrow> bool) \<Rightarrow> 's HtxfConn \<Rightarrow> bytes \<Rightarrow> bool" where
  "feeds A sync h rest \<longleftrightarrow> ticks h = None \<and> sockopts h = [] \<and>
     (if aead_active (chan h) then carries A sync (chan h) rest
      else quiet_wire (inner (chan h)) \<and> wire_bytes (inner (chan h)) = rest)"

lemma read_retry_quiet:
  "quiet_wire t \<Longrightarrow> 0 < n \<Longrightarrow>
   \<exists>bs t'. read_retry n t = (Inr bs, t') \<and> quiet_wire t' \<and> wire_bytes t = bs @ wire_bytes t' \<and> (bs = [] \<longleftrightarrow> wire_bytes t = [])"
proof (induction n t rule: read_retry.induct)
  case (1 n t)
  obtain r t1 where r: "transport_read n t = (r, t1)" by fastforce
  from quiet_read [OF "1.prems"(1) r "1.prems"(2)] consider
      (intr) "r = Inl Interrupted" "wire_bytes t1 = wire_bytes t" "quiet_wire t1"
    | (data) bs where "r = Inr bs" "wire_bytes t = bs @ wire_bytes t1" "bs = [] \<longleftrightarrow> wire_bytes t = []" "quiet_wire t1"
    by blast
  then show ?case
  proof cases
    case intr
    with "1.IH" [OF r [symmetric] intr(1) refl intr(3)] "1.prems" r show ?thesis
      by (subst read_retry.simps) simp
  next
    case data
    with r show ?thesis by (subst read_retry.simps) auto
  qed
qed

lemma feeds_read:
  assumes A: "aead_ok A sync" and f: "feeds A sync h rest" and n: "0 < n"
  shows "\<exists>r h'. hxnet_htxf_read A n h = (Some r, h') \<and> rest = r @ drop (length r) rest \<and>
    (r = [] \<longleftrightarrow> rest = []) \<and> feeds A sync h' (drop (length r) rest) \<and> length r \<le> n \<and>
    forks h' = forks h \<and> stalled h' = stalled h"
proof -
  have "\<exists>r c. channel_read A n (chan h) = (Inr r, c) \<and> rest = r @ drop (length r) rest \<and>
      (r = [] \<longleftrightarrow> rest = []) \<and> feeds A sync (h\<lparr>chan := c\<rparr>) (drop (length r) rest)"
  proof (cases "aead_active (chan h)")
    case True
    then have c: "carries A sync (chan h) rest" using f by (simp add: feeds_def)
    obtain r c where "channel_read A n (chan h) = (Inr r, c)" "rest = r @ drop (length r) rest"
        "r = [] \<longleftrightarrow> rest = []" "carries A sync c (drop (length r) rest)"
      using channel_read_carries [OF A c n] by blast
    moreover have "aead_active c" using calculation(4) by (simp add: carries_def)
    ultimately show ?thesis using f by (intro exI [of _ r] exI [of _ c]) (simp add: feeds_def)
  next
    case False
    then have q: "quiet_wire (inner (chan h))" "wire_bytes (inner (chan h)) = rest" using f by (simp_all add: feeds_def)
    obtain bs t where t: "read_retry n (inner (chan h)) = (Inr bs, t)" "quiet_wire t" "rest = bs @ wire_bytes t"
        "bs = [] \<longleftrightarrow> rest = []"
      using read_retry_quiet [OF q(1) n] q(2) by auto
    then show ?thesis
      using False f n
      by (intro exI [of _ bs] exI [of _ "(chan h)\<lparr>inner := t\<rparr>"]) (simp add: channel_read_def feeds_def)
  qed
  then obtain r c where rc: "channel_read A n (chan h) = (Inr r, c)" "rest = r @ drop (length r) rest"
      "r = [] \<longleftrightarrow> rest = []" "feeds A sync (h\<lparr>chan := c\<rparr>) (drop (length r) rest)"
    by blast
  let ?h = "tick (h\<lparr>chan := c, broke := (broke h \<or> r = [] \<and> n \<noteq> 0)\<rparr>)"
  have "hxnet_htxf_read A n h = (Some r, ?h)"
    using rc(1) f by (simp add: hxnet_htxf_read_def is_aborted_def feeds_def tick_def)
  moreover have "feeds A sync ?h (drop (length r) rest)"
    using rc(4) f by (auto simp: feeds_def tick_def split: if_splits)
  ultimately show ?thesis
    using rc channel_read_le [OF rc(1)] by (intro exI [of _ r] exI [of _ ?h]) (simp add: tick_def)
qed

lemma feeds_timeout:
  "feeds A sync h rest \<Longrightarrow> \<exists>h'. set_timeout b h = (True, h') \<and> feeds A sync h' rest"
  by (simp add: feeds_def set_timeout_def)

lemma append_drop_split:
  assumes "xs @ ys = r @ zs" "length r \<le> length xs"
  shows "xs = r @ drop (length r) xs \<and> zs = drop (length r) xs @ ys"
proof -
  have "take (length r) (xs @ ys) = r" "drop (length r) (xs @ ys) = zs" using assms(1) by simp_all
  then show ?thesis using assms(2) by (metis append_take_drop_id diff_is_0_eq' drop0 drop_append take0 take_append append_Nil2)
qed

text \<open>One read of at most the bytes wanted takes a non-empty part of them.\<close>

lemma xfer_read_feeds:
  assumes A: "aead_ok A sync" and f: "feeds A sync (conn s) (xs @ rest)" and n: "0 < n" "n \<le> length xs"
  shows "\<exists>r h. xfer_read A n s = (Inr r, s\<lparr>conn := h\<rparr>) \<and> xs = r @ drop (length r) xs \<and> r \<noteq> [] \<and>
    feeds A sync h (drop (length r) xs @ rest) \<and> forks h = forks (conn s)"
proof -
  obtain r h where r: "hxnet_htxf_read A n (conn s) = (Some r, h)" "xs @ rest = r @ drop (length r) (xs @ rest)"
      "r = [] \<longleftrightarrow> xs @ rest = []" "feeds A sync h (drop (length r) (xs @ rest))" "length r \<le> n"
      "forks h = forks (conn s)"
    using feeds_read [OF A f n(1)] by blast
  have l: "length r \<le> length xs" using r(5) n by simp
  then show ?thesis
    using r n append_drop_split [OF r(2) l]
    by (intro exI [of _ r] exI [of _ h]) (auto simp: xfer_read_def)
qed

lemma read_exact_progress_feeds:
  "aead_ok A sync \<Longrightarrow> feeds A sync (conn s) (xs @ rest) \<Longrightarrow> length out + length xs = len \<Longrightarrow>
   \<exists>h. read_exact_progress A len out s = (Inr (out @ xs), s\<lparr>conn := h, counted := counted s + length xs\<rparr>) \<and>
     feeds A sync h rest \<and> forks h = forks (conn s)"
proof (induction A len out s arbitrary: xs rule: read_exact_progress.induct)
  case (1 A len out s)
  show ?case
  proof (cases "xs = []")
    case True
    with "1.prems" show ?thesis
      by (subst read_exact_progress.simps) (auto intro!: exI [of _ "conn s"])
  next
    case False
    then have lt: "length out < len" and len: "0 < len - length out" "len - length out \<le> length xs"
      using "1.prems"(3) by (auto simp: neq_Nil_conv)
    obtain r h where r: "xfer_read A (len - length out) s = (Inr r, s\<lparr>conn := h\<rparr>)"
        "xs = r @ drop (length r) xs" "r \<noteq> []" "feeds A sync h (drop (length r) xs @ rest)" "forks h = forks (conn s)"
      using xfer_read_feeds [OF "1.prems"(1,2) len] by blast
    let ?s = "add_progress (length r) (s\<lparr>conn := h\<rparr>)"
    have lr: "length r + length (drop (length r) xs) = length xs" using r(2) by (metis length_append)
    obtain h' where "read_exact_progress A len (out @ r) ?s =
        (Inr ((out @ r) @ drop (length r) xs),
         ?s\<lparr>conn := h', counted := counted ?s + length (drop (length r) xs)\<rparr>)" "feeds A sync h' rest"
        "forks h' = forks (conn ?s)"
      using "1.IH" [OF lt r(1) [symmetric] refl, of "drop (length r) xs"] "1.prems"(1,3) r(4) lr
      by (auto simp: add_progress_def)
    moreover have "read_exact_progress A len out s = read_exact_progress A len (out @ r) ?s"
      using r(1) lt by (subst read_exact_progress.simps) simp
    ultimately show ?thesis
      using r lr by (intro exI [of _ h']) (auto simp: add_progress_def)
  qed
qed

lemma rd_wr_recv_feeds:
  "aead_ok A sync \<Longrightarrow> feeds A sync (conn s) (xs @ rest) \<Longrightarrow> length xs = n \<Longrightarrow>
   (if limited then space (disk s) else None) = None \<Longrightarrow>
   \<exists>h. rd_wr_recv A limited loud n copied s =
       (Inr (), copied @ xs, s\<lparr>conn := h, counted := counted s + (if loud then n else 0)\<rparr>) \<and>
     feeds A sync h rest \<and> forks h = forks (conn s)"
proof (induction A limited loud n copied s arbitrary: xs rule: rd_wr_recv.induct)
  case (1 A limited loud n copied s)
  show ?case
  proof (cases "n = 0")
    case True
    with "1.prems" show ?thesis
      by (subst rd_wr_recv.simps) (auto intro!: exI [of _ "conn s"])
  next
    case False
    then have len: "0 < min COPY_LEN n" "min COPY_LEN n \<le> length xs"
      using "1.prems"(3) by (auto simp: COPY_LEN_def)
    obtain r h where r: "xfer_read A (min COPY_LEN n) s = (Inr r, s\<lparr>conn := h\<rparr>)"
        "xs = r @ drop (length r) xs" "r \<noteq> []" "feeds A sync h (drop (length r) xs @ rest)" "forks h = forks (conn s)"
      using xfer_read_feeds [OF "1.prems"(1,2) len] by blast
    let ?s = "(if loud then add_progress (length r) else id) (s\<lparr>conn := h\<rparr>)"
    have lr: "length r + length (drop (length r) xs) = n" "length (drop (length r) xs) = n - length r"
      using r(2) "1.prems"(3) by (metis length_append, simp)
    have none: "(if limited then space (disk (s\<lparr>conn := h\<rparr>)) else None) = None" using "1.prems"(4) by (cases limited) simp_all
    have fs: "feeds A sync (conn ?s) (drop (length r) xs @ rest)" "(if limited then space (disk ?s) else None) = None"
      using r(4) none by (auto simp: add_progress_def)
    obtain h' where h': "rd_wr_recv A limited loud (n - length r) (copied @ r) ?s =
        (Inr (), (copied @ r) @ drop (length r) xs,
         ?s\<lparr>conn := h', counted := counted ?s + (if loud then n - length r else 0)\<rparr>)" "feeds A sync h' rest"
        "forks h' = forks (conn ?s)"
      using "1.IH"(1) [OF False r(1) [symmetric] refl none "1.prems"(1) fs(1) lr(2) fs(2)] by blast
    moreover have "rd_wr_recv A limited loud n copied s = rd_wr_recv A limited loud (n - length r) (copied @ r) ?s"
      using r(1) False none by (subst rd_wr_recv.simps) simp
    ultimately show ?thesis
      using r lr by (intro exI [of _ h']) (auto simp: add_progress_def)
  qed
qed


lemma macr_loop_feeds:
  "aead_ok A sync \<Longrightarrow> feeds A sync (conn s) (xs @ rest) \<Longrightarrow> length got + length xs = FORK_HEADER_LEN \<Longrightarrow> xs \<noteq> [] \<Longrightarrow>
   \<exists>h. macr_loop A wait got s = (Inr (Some (got @ xs)), s\<lparr>conn := h, counted := counted s + length xs\<rparr>) \<and>
     feeds A sync h rest \<and> forks h = forks (conn s)"
proof (induction A wait got s arbitrary: xs rule: macr_loop.induct)
  case (1 A wait got s)
  have n: "0 < FORK_HEADER_LEN - length got" "FORK_HEADER_LEN - length got \<le> length xs"
    using "1.prems"(3,4) by (auto simp: neq_Nil_conv)
  obtain r h where r: "hxnet_htxf_read A (FORK_HEADER_LEN - length got) (conn s) = (Some r, h)"
      "xs @ rest = r @ drop (length r) (xs @ rest)" "r = [] \<longleftrightarrow> xs @ rest = []"
      "feeds A sync h (drop (length r) (xs @ rest))" "length r \<le> FORK_HEADER_LEN - length got"
      "forks h = forks (conn s)"
    using feeds_read [OF "1.prems"(1,2) n(1)] by blast
  have l: "length r \<le> length xs" using r(5) n(2) by simp
  have x: "xs = r @ drop (length r) xs" "drop (length r) (xs @ rest) = drop (length r) xs @ rest"
    using append_drop_split [OF r(2) l] by auto
  have ne: "r \<noteq> []" using r(3) "1.prems"(4) by simp
  let ?s = "add_progress (length r) (s\<lparr>conn := h\<rparr>)"
  show ?case
  proof (cases "length got + length r = FORK_HEADER_LEN")
    case True
    then have "length r = length xs" using "1.prems"(3) by simp
    then have d: "drop (length r) xs = []" by simp
    have "r = xs" using x(1) unfolding d by simp
    moreover have "feeds A sync h rest" using r(4) unfolding x(2) d by simp
    ultimately have "r = xs" "feeds A sync h rest" .
    then show ?thesis
      using r(1,6) ne True by (subst macr_loop.simps) (auto intro!: exI [of _ h] simp: add_progress_def)
  next
    case False
    have lr: "length (got @ r) + length (drop (length r) xs) = FORK_HEADER_LEN"
      using "1.prems"(3) l by simp
    have ne2: "drop (length r) xs \<noteq> []" using False lr by auto
    have f2: "feeds A sync (conn ?s) (drop (length r) xs @ rest)" using r(4) x(2) by (simp add: add_progress_def)
    obtain h' where h': "macr_loop A wait (got @ r) ?s = (Inr (Some ((got @ r) @ drop (length r) xs)),
        ?s\<lparr>conn := h', counted := counted ?s + length (drop (length r) xs)\<rparr>)" "feeds A sync h' rest"
        "forks h' = forks (conn ?s)"
      using "1.IH" [OF r(1) [symmetric] refl ne False "1.prems"(1) f2 lr ne2] by blast
    moreover have "macr_loop A wait got s = macr_loop A wait (got @ r) ?s"
      using r(1) ne False by (subst macr_loop.simps) simp
    moreover have "length r + length (drop (length r) xs) = length xs" using l by simp
    ultimately show ?thesis
      using r(6) x(1) by (intro exI [of _ h']) (auto simp: add_progress_def)
  qed
qed

section \<open>Resumed downloads\<close>

lemma splice_at_end: "pos = length old \<Longrightarrow> splice pos bs old = old @ bs"
  by (simp add: splice_def)

lemma splice_from_start: "splice 0 bs [] = bs"
  by (simp add: splice_def)

lemma file_content_write [simp]:
  "file_content (write_file p bs d) p = bs" "p' \<noteq> p \<Longrightarrow> file_content (write_file p bs d) p' = file_content d p'"
  "space (write_file p bs d) = space d"
  by (simp_all add: file_content_def write_file_def update_conv')

lemma space_open_data [simp]: "space (open_data p b d) = space d"
  by (simp add: open_data_def write_file_def)

lemma file_content_put [simp]: "bs \<noteq> [] \<Longrightarrow> file_content (put_data p n bs d) p = splice n bs (file_content d p)"
  by (simp add: put_data_def)

lemma copy_data_feeds:
  assumes A: "aead_ok A sync" and f: "feeds A sync (conn s) (xs @ rest)" and len: "length xs = unat len" "xs \<noteq> []"
    and again: "again \<le> len" and sp: "space (disk s) = None"
  shows "\<exists>s'. copy_data A p at again len s = (Inr (), s') \<and> feeds A sync (conn s') rest \<and>
    file_content (disk s') p = splice (unat at) xs (if at = 0 then [] else file_content (disk s) p) \<and>
    disk s' = put_data p (unat at) xs (open_data p (at = 0) (disk s)) \<and>
    counted s' = counted s + unat (len - again)"
proof -
  let ?n = "unat again"
  let ?s0 = "s\<lparr>disk := open_data p (at = 0) (disk s)\<rparr>"
  have n: "?n \<le> length xs" using again len by (simp add: word_le_nat_alt)
  have f0: "feeds A sync (conn ?s0) (take ?n xs @ drop ?n xs @ rest)"
    using f by (simp flip: append.assoc)
  obtain h1 where 1: "rd_wr_recv A True False ?n [] ?s0 = (Inr (), take ?n xs, ?s0\<lparr>conn := h1\<rparr>)"
      "feeds A sync h1 (drop ?n xs @ rest)"
    using rd_wr_recv_feeds [OF A f0, of ?n True False "[]"] n sp by auto
  have f1: "feeds A sync (conn (?s0\<lparr>conn := h1\<rparr>)) (drop ?n xs @ rest)" using 1(2) by simp
  have l2: "length (drop ?n xs) = unat (len - again)" using len again by (simp add: unat_sub)
  obtain h2 where 2: "rd_wr_recv A True True (unat (len - again)) (take ?n xs) (?s0\<lparr>conn := h1\<rparr>) =
      (Inr (), xs, ?s0\<lparr>conn := h2, counted := counted s + unat (len - again)\<rparr>)" "feeds A sync h2 rest"
    using rd_wr_recv_feeds [OF A f1 l2, of True True "take ?n xs"] sp by auto
  have fk: "feeds A sync (forks_read m h2) rest" for m using 2(2) by (simp add: feeds_def forks_read_def)
  have c: "file_content (open_data p (at = 0) (disk s)) p = (if at = 0 then [] else file_content (disk s) p)"
    by (auto simp: open_data_def) (simp add: file_content_def)
  show ?thesis
    using 1(1) 2(1) fk len(2) c by (simp add: copy_data_def)
qed

lemma data_from_refuses:
  assumes "k \<le> length fork" "length (fork :: bytes) < 2 ^ 64"
    "w = \<lparr>filp_len = of_nat (length fork), filp_modified = date\<rparr>"
    "date' \<noteq> date \<or> (unat len \<noteq> length fork \<and> k + unat len \<noteq> length fork)"
  shows "data_from (Some w) (of_nat k) len date' = Inl EIO"
proof -
  have uk: "unat (of_nat k :: u64) = k" using assms(1,2) by (simp add: unat_of_nat)
  have uf: "unat (of_nat (length fork) :: u64) = length fork" using assms(2) by (simp add: unat_of_nat)
  have "checked_add64 (of_nat k) len = Some (of_nat (length fork)) \<longrightarrow> k + unat len = length fork"
    using uk uf by (auto simp: checked_add64_def unat_word_ariths split: if_splits dest!: arg_cong [of _ _ unat])
  moreover have "len = of_nat (length fork) \<longrightarrow> unat len = length fork" using uf by auto
  ultimately show ?thesis using assms(3,4) by (auto simp: data_from_def)
qed



section \<open>What a sender writes\<close>

lemma seq_simps [simp]:
  "seq (give a) k = k a" "seq (stop e) k = stop e" "seq get_disk kd s = kd (disk s) s"
  "seq (report n) ku s = ku () (add_progress n s)" "seq (or_stop (Some a) e) k = k a" "or_stop None e = stop e"
  "seq (on_disk f) ku s = ku () (s\<lparr>disk := f (disk s)\<rparr>)"
  by (auto simp: seq_def give_def stop_def get_disk_def report_def or_stop_def on_disk_def)

lemma seq_Inr: "m s = (Inr a, s') \<Longrightarrow> seq m k s = k a s'"
  by (simp add: seq_def)

text \<open>A connection in clear that takes every write; \<open>w\<close> is what was written.\<close>

definition takes :: "'s HtxfConn \<Rightarrow> bytes \<Rightarrow> bool" where
  "takes h w \<longleftrightarrow> ticks h = None \<and> \<not> aead_active (chan h) \<and> write_faults (inner (chan h)) = [] \<and>
     written (inner (chan h)) = w"

lemma xfer_write_takes:
  "takes (conn s) w \<Longrightarrow> \<exists>h. xfer_write A buf s = (Inr (), s\<lparr>conn := h\<rparr>) \<and> takes h (w @ buf)"
  by (cases "buf = []")
     (auto simp: takes_def xfer_write_def write_some_def is_aborted_def tick_def channel_write_def
      transport_write_def Let_def)

lemma rd_wr_send_takes:
  "takes (conn s) w \<Longrightarrow> data_len \<le> length src \<Longrightarrow>
   \<exists>h. rd_wr_send A src data_len s = (Inr (), s\<lparr>conn := h, counted := counted s + data_len\<rparr>) \<and>
     takes h (w @ take data_len src)"
proof (induction A src data_len s arbitrary: w rule: rd_wr_send.induct)
  case (1 A src data_len s)
  show ?case
  proof (cases "data_len = 0")
    case True
    with "1.prems" show ?thesis by (subst rd_wr_send.simps) (auto intro!: exI [of _ "conn s"])
  next
    case False
    define chunk where "chunk = take (min COPY_LEN data_len) src"
    have lc: "length chunk = min COPY_LEN data_len" using "1.prems"(2) by (simp add: chunk_def)
    then have ne: "chunk \<noteq> []" using False by (auto simp: COPY_LEN_def)
    obtain h where h: "xfer_write A chunk s = (Inr (), s\<lparr>conn := h\<rparr>)" "takes h (w @ chunk)"
      using xfer_write_takes [OF "1.prems"(1)] by blast
    let ?s = "add_progress (length chunk) (s\<lparr>conn := h\<rparr>)"
    have t: "takes (conn ?s) (w @ chunk)" using h(2) by (simp add: add_progress_def)
    have l: "data_len - length chunk \<le> length (drop (length chunk) src)" using "1.prems"(2) by simp
    obtain h' where h': "rd_wr_send A (drop (length chunk) src) (data_len - length chunk) ?s =
        (Inr (), ?s\<lparr>conn := h', counted := counted ?s + (data_len - length chunk)\<rparr>)"
        "takes h' ((w @ chunk) @ take (data_len - length chunk) (drop (length chunk) src))"
      using "1.IH" [OF False chunk_def ne h(1) [symmetric] refl t l] by blast
    moreover have "rd_wr_send A src data_len s =
        rd_wr_send A (drop (length chunk) src) (data_len - length chunk) ?s"
      using False h(1) ne by (subst rd_wr_send.simps) (simp add: Let_def flip: chunk_def)
    moreover have "chunk @ take (data_len - length chunk) (drop (length chunk) src) = take data_len src"
      using lc "1.prems"(2) unfolding chunk_def
      by (metis append_take_drop_id chunk_def length_take min.absorb2 min.cobounded2 take_add le_add_diff_inverse take_drop)
    moreover have "length chunk \<le> data_len" using lc by simp
    ultimately show ?thesis by (intro exI [of _ h']) (auto simp: add_progress_def)
  qed
qed

text \<open>
  What the code relies on of the codecs: the fork header is 16 bytes and carries the length, the block
  after the first 40 bytes ends in the fork header of the data fork, the type and the two dates have
  their width, and the comment is the one the sidecar holds.
\<close>

definition ext_ok :: "Ext \<Rightarrow> bool" where
  "ext_ok E \<longleftrightarrow>
     (\<forall>t n l h. pack_fork_header E t n l = Some h \<longrightarrow> length h = FORK_HEADER_LEN \<and> fork_len E h l = n) \<and>
     (\<forall>t n l. unat n < 2 ^ 32 \<longrightarrow> pack_fork_header E t n l \<noteq> None) \<and>
     (\<forall>d p. length (hfs_type_creator E d p) = 8) \<and> (\<forall>t. length (hfs_h_to_mtime E t) = 4) \<and>
     (\<forall>d p. comment_len E d p = length (hi_comment (hfsinfo_read E d p)) \<and> comment_len E d p \<le> 255) \<and>
     (\<forall>a b. info_block_len E a b = Some (unat a * 256 + unat b + FORK_HEADER_LEN)) \<and>
     (\<forall>info l. 93 \<le> length info \<longrightarrow>
        (\<exists>fi. parse_filp_info E info l = Some fi \<and>
           fi_data_fork_len fi = fork_len E (drop (length info - FORK_HEADER_LEN) info) l))"

text \<open>
  What it relies on of the sidecars and resource forks: they are beside the data forks, and a resource
  fork that can be opened keeps what is put into it.
\<close>

definition ext_disk_ok :: "Ext \<Rightarrow> bool" where
  "ext_disk_ok E \<longleftrightarrow>
     (\<forall>p hi d. files (hfsinfo_write E p hi d) = files d \<and> dirs (hfsinfo_write E p hi d) = dirs d \<and>
        deny (hfsinfo_write E p hi d) = deny d \<and> space (hfsinfo_write E p hi d) = space d \<and>
        resource_get E (hfsinfo_write E p hi d) p = resource_get E d p) \<and>
     (\<forall>p n bs d. files (resource_put E p n bs d) = files d \<and> dirs (resource_put E p n bs d) = dirs d \<and>
        deny (resource_put E p n bs d) = deny d \<and> space (resource_put E p n bs d) = space d \<and>
        resource_get E (resource_put E p n bs d) p = splice n bs (resource_get E d p)) \<and>
     (\<forall>p d. resource_len E d p = of_nat (length (resource_get E d p))) \<and>
     (\<forall>p bs d. resource_get E (write_file p bs d) p = resource_get E d p) \<and>
     (\<forall>w d p. resource_open E w d p = Inr True)"

lemma length_copy_at [simp]: "pos + length bs \<le> length xs \<Longrightarrow> length (copy_at pos bs xs) = length xs"
  by (simp add: copy_at_def)

lemma nth_copy_at: "i < pos \<Longrightarrow> pos \<le> length xs \<Longrightarrow> copy_at pos bs xs ! i = xs ! i"
  by (simp add: copy_at_def nth_append)

lemma drop_copy_at:
  "pos + length bs = length xs \<Longrightarrow> drop pos (copy_at pos bs xs) = bs"
  by (simp add: copy_at_def)

lemma length_FILP_TEMPLATE [simp]: "length FILP_TEMPLATE = 115"
  by (simp add: FILP_TEMPLATE_def)

lemma FILP_TEMPLATE_38: "FILP_TEMPLATE ! 38 = 0"
  by (simp add: FILP_TEMPLATE_def)

lemma filp_header_facts:
  assumes E: "ext_ok E" and c: "length (hi_comment fi) \<le> 255" and h: "length data_hdr = FORK_HEADER_LEN"
    and hdr0: "hdr = filp_header E d path rl fi data_hdr"
  shows "length hdr = FILP_HEADER_LEN + length (hi_comment fi)"
    and "unat (hdr ! 38) * 256 + unat (hdr ! 39) = 77 + length (hi_comment fi)"
    and "drop (117 + length (hi_comment fi)) hdr = data_hdr"
proof -
  let ?n = "length (hi_comment fi)"
  have tc: "length (hfs_type_creator E d path) = 8" "\<And>t. length (hfs_h_to_mtime E t) = 4"
    using E by (simp_all add: ext_ok_def)
  let ?h0 = "FILP_TEMPLATE @ replicate (18 + ?n) 0"
  define h3 where "h3 = (if 65 + ?n + 12 > 0xff then (if rl then ?h0[23 := 3] else ?h0)[38 := 1]
      else (if rl then ?h0[23 := 3] else ?h0))[39 := of_nat (65 + ?n + 12)]"
  define h8 where "h8 = copy_at 117 (hi_comment fi) ((copy_at 104 (hfs_h_to_mtime E (hi_modify_time fi))
      (copy_at 96 (hfs_h_to_mtime E (hi_create_time fi)) (copy_at 44 (hfs_type_creator E d path) h3)))
        [115 := 0, 116 := of_nat ?n])"
  have hdr: "hdr = copy_at (117 + ?n) data_hdr h8"
    by (simp add: hdr0 filp_header_def Let_def h8_def h3_def)
  have l3: "length h3 = 133 + ?n" by (simp add: h3_def)
  have l8: "length h8 = 133 + ?n" using l3 tc by (simp add: h8_def)
  show "length hdr = FILP_HEADER_LEN + ?n" using hdr l8 h by (simp add: FILP_HEADER_LEN_def FORK_HEADER_LEN_def)
  show "drop (117 + ?n) hdr = data_hdr"
    using hdr l8 h by (simp add: drop_copy_at FORK_HEADER_LEN_def)
  have low: "hdr ! i = h3 ! i" if "i < 44" for i
    using that l8 l3 tc unfolding hdr h8_def by (simp add: nth_copy_at)
  have t38: "?h0 ! 38 = 0" using FILP_TEMPLATE_38 by (simp add: nth_append)
  have "h3 ! 38 = (if 65 + ?n + 12 > 0xff then 1 else 0)" "h3 ! 39 = of_nat (65 + ?n + 12)"
    using t38 by (simp_all add: h3_def)
  then have "hdr ! 38 = (if 65 + ?n + 12 > 0xff then 1 else 0)" "hdr ! 39 = of_nat (77 + ?n)"
    using low [of 38] low [of 39] by simp_all
  moreover have "unat (of_nat (77 + ?n) :: u8) = (77 + ?n) mod 256" by (simp add: unat_of_nat del: of_nat_add)
  ultimately show "unat (hdr ! 38) * 256 + unat (hdr ! 39) = 77 + ?n"
    using c by (auto simp: mod_if)
qed


lemma send_raw_takes:
  assumes t: "takes (conn s) w" and d: "deny (disk s) path = None"
    and len: "pos + unat len = length (file_content (disk s) path)"
  shows "\<exists>h. send_raw A path pos len s = (Inr (), s\<lparr>conn := h, counted := counted s + unat len\<rparr>) \<and>
    takes h (w @ drop pos (file_content (disk s) path))"
proof -
  let ?src = "drop pos (file_content (disk s) path)"
  have l: "unat len \<le> length ?src" "take (unat len) ?src = ?src" using len by simp_all
  show ?thesis
    using rd_wr_send_takes [OF t l(1)] l(2) d by (simp add: send_raw_def seq_def get_disk_def)
qed

lemma send_resource_takes:
  assumes t: "takes (conn s) w" and E: "ext_disk_ok E"
    and h: "pack_fork_header E [0x4D, 0x41, 0x43, 0x52] left (opt_large p) = Some macr"
    and len: "unat (rsrc_pos p) + unat left = length (resource_get E (disk s) path)"
  shows "\<exists>h. send_resource A E p path left s = (Inr (), s\<lparr>conn := h, counted := counted s + 16 + unat left\<rparr>) \<and>
    takes h (w @ macr @ drop (unat (rsrc_pos p)) (resource_get E (disk s) path))"
proof -
  obtain h1 where h1: "xfer_write A macr s = (Inr (), s\<lparr>conn := h1\<rparr>)" "takes h1 (w @ macr)"
    using xfer_write_takes [OF t] by blast
  let ?s = "add_progress 16 (s\<lparr>conn := h1\<rparr>)"
  let ?src = "drop (unat (rsrc_pos p)) (resource_get E (disk s) path)"
  have t1: "takes (conn ?s) (w @ macr)" using h1(2) by (simp add: add_progress_def)
  have l: "unat left \<le> length ?src" "take (unat left) ?src = ?src" using len by simp_all
  have o: "resource_open E False d path = Inr True" for d using E by (simp add: ext_disk_ok_def)
  show ?thesis
    using rd_wr_send_takes [OF t1 l(1), of A] h1(1) l(2)
    by (auto simp: send_resource_def seq_def or_stop_def h give_def report_def get_disk_def o add_progress_def)
qed

text \<open>The bytes of one file on the wire, from the two offsets on.\<close>

definition filp_bytes :: "Ext \<Rightarrow> Fs \<Rightarrow> path \<Rightarrow> bool \<Rightarrow> nat \<Rightarrow> nat \<Rightarrow> bytes" where
  "filp_bytes E d path large dpos rpos =
     (let data = drop dpos (file_content d path); rsrc = drop rpos (resource_get E d path) in
      filp_header E d path (rsrc \<noteq> []) (hfsinfo_read E d path)
        (the (pack_fork_header E [0x44, 0x41, 0x54, 0x41] (of_nat (length data)) large)) @ data @
      (if rsrc = [] then []
       else the (pack_fork_header E [0x4D, 0x41, 0x43, 0x52] (of_nat (length rsrc)) large) @ rsrc))"

lemma unat_of_nat64: "n < 2 ^ 64 \<Longrightarrow> unat (of_nat n :: u64) = n"
  by (simp add: unat_of_nat)

lemma of_nat_left:
  assumes "unat pos \<le> length xs" "length (xs :: bytes) < 2 ^ 64"
  shows "(of_nat (length xs) :: u64) - pos = of_nat (length (drop (unat pos) xs))"
proof -
  have "unat (of_nat (length xs) - pos :: u64) = length xs - unat pos"
    using assms by (subst unat_sub) (simp_all add: word_le_nat_alt unat_of_nat64)
  then show ?thesis using assms(2) by (simp only: word_unat_eq_iff unat_of_nat64 length_drop)
qed

lemma file_send_takes:
  assumes t: "takes (conn s) w" and E: "ext_ok E" "ext_disk_ok E" and deny: "deny (disk s) path = None"
    and p: "px_path p = Some path" "opt_large p \<longrightarrow> opt_folder p"
      "data_size p = of_nat (length (file_content (disk s) path))" "rsrc_size p = resource_len E (disk s) path"
    and small: "length (file_content (disk s) path) < 2 ^ 32" "length (resource_get E (disk s) path) < 2 ^ 32"
    and pos: "unat (data_pos p) \<le> length (file_content (disk s) path)"
      "unat (rsrc_pos p) \<le> length (resource_get E (disk s) path)"
  shows "\<exists>s'. file_send A E p s = (Inr (), s') \<and> disk s' = disk s \<and> uploads s' = uploads s \<and>
    takes (conn s') (w @ filp_bytes E (disk s) path (opt_large p) (unat (data_pos p)) (unat (rsrc_pos p))) \<and>
    counted s' = counted s +
      length (filp_bytes E (disk s) path (opt_large p) (unat (data_pos p)) (unat (rsrc_pos p)))"
proof -
  define data where "data = drop (unat (data_pos p)) (file_content (disk s) path)"
  define rsrc where "rsrc = drop (unat (rsrc_pos p)) (resource_get E (disk s) path)"
  let ?fi = "hfsinfo_read E (disk s) path"
  have dl: "data_size p - data_pos p = of_nat (length data)"
    unfolding p(3) data_def using of_nat_left [OF pos(1)] small by simp
  have "rsrc_size p = of_nat (length (resource_get E (disk s) path))" using p(4) E(2) by (simp add: ext_disk_ok_def)
  then have rl: "rsrc_size p - rsrc_pos p = of_nat (length rsrc)"
    unfolding rsrc_def using of_nat_left [OF pos(2)] small by simp
  have sm: "length data < 2 ^ 32" "length rsrc < 2 ^ 32" using small by (simp_all add: data_def rsrc_def)
  have u: "unat (of_nat (length data) :: u64) = length data" "unat (of_nat (length rsrc) :: u64) = length rsrc"
    using sm by (simp_all add: unat_of_nat64)
  have z: "(of_nat (length data) :: u64) = 0 \<longleftrightarrow> data = []" "(of_nat (length rsrc) :: u64) = 0 \<longleftrightarrow> rsrc = []"
    using u by (simp_all add: word_unat_eq_iff)
  obtain dh where dh: "pack_fork_header E [0x44, 0x41, 0x54, 0x41] (of_nat (length data)) (opt_large p) = Some dh"
    using E(1) u sm unfolding ext_ok_def by (metis not_None_eq)
  obtain mh where mh: "pack_fork_header E [0x4D, 0x41, 0x43, 0x52] (of_nat (length rsrc)) (opt_large p) = Some mh"
    using E(1) u sm unfolding ext_ok_def by (metis not_None_eq)
  have lh: "length dh = FORK_HEADER_LEN" "length mh = FORK_HEADER_LEN" using E(1) dh mh unfolding ext_ok_def by blast+
  have com: "length (hi_comment ?fi) \<le> 255" using E(1) unfolding ext_ok_def by metis
  let ?hdr = "filp_header E (disk s) path (rsrc \<noteq> []) ?fi dh"
  have lhdr: "length ?hdr = FILP_HEADER_LEN + length (hi_comment ?fi)"
    by (rule filp_header_facts(1) [OF E(1) com lh(1) refl])
  obtain h1 where h1: "xfer_write A ?hdr s = (Inr (), s\<lparr>conn := h1\<rparr>)" "takes h1 (w @ ?hdr)"
    using xfer_write_takes [OF t] by blast
  let ?s1 = "add_progress (FILP_HEADER_LEN + length (hi_comment ?fi)) (s\<lparr>conn := h1\<rparr>)"
  have s1: "takes (conn ?s1) (w @ ?hdr)" "disk ?s1 = disk s" "uploads ?s1 = uploads s"
    using h1 by (simp_all add: add_progress_def)
  have dpos: "unat (data_pos p) + unat (of_nat (length data) :: u64) = length (file_content (disk ?s1) path)"
    using u pos s1(2) by (simp add: data_def)
  obtain s2 where s2: "(if (of_nat (length data) :: u64) \<noteq> 0 then send_raw A path (unat (data_pos p)) (of_nat (length data))
        else give ()) ?s1 = (Inr (), s2)" "takes (conn s2) (w @ ?hdr @ data)" "disk s2 = disk s"
      "uploads s2 = uploads s" "counted s2 = counted s + length ?hdr + length data"
  proof (cases "data = []")
    case True
    with s1 lhdr that [of ?s1] show ?thesis by (simp add: z give_def add_progress_def)
  next
    case False
    obtain h where "send_raw A path (unat (data_pos p)) (of_nat (length data)) ?s1 =
        (Inr (), ?s1\<lparr>conn := h, counted := counted ?s1 + length data\<rparr>)" "takes h ((w @ ?hdr) @ data)"
      using send_raw_takes [OF s1(1) _ dpos] deny s1(2) u(1) by (auto simp: data_def)
    with False s1 lhdr that show ?thesis by (simp add: z add_progress_def)
  qed
  have rpos: "unat (rsrc_pos p) + unat (of_nat (length rsrc) :: u64) = length (resource_get E (disk s2) path)"
    using u pos s2(3) by (simp add: rsrc_def)
  have bytes: "filp_bytes E (disk s) path (opt_large p) (unat (data_pos p)) (unat (rsrc_pos p)) =
      ?hdr @ data @ (if rsrc = [] then [] else mh @ rsrc)"
    by (simp add: filp_bytes_def Let_def dh mh flip: data_def rsrc_def)
  have run: "file_send A E p s = (if rsrc = [] then give () else send_resource A E p path (of_nat (length rsrc))) s2"
  proof -
    have raw: "(opt_large p \<and> \<not> opt_folder p) = False" using p(2) by auto
    have "file_send A E p s = seq (xfer_write A ?hdr) (\<lambda>_. seq (report (FILP_HEADER_LEN + length (hi_comment ?fi))) (\<lambda>_.
        seq (if (of_nat (length data) :: u64) \<noteq> 0 then send_raw A path (unat (data_pos p)) (of_nat (length data)) else give ())
          (\<lambda>_. if rsrc = [] then give () else send_resource A E p path (of_nat (length rsrc))))) s"
      using p(1) by (simp add: file_send_def Let_def dl rl dh z(2) raw)
    also have "\<dots> = seq (if (of_nat (length data) :: u64) \<noteq> 0 then send_raw A path (unat (data_pos p)) (of_nat (length data))
        else give ()) (\<lambda>_. if rsrc = [] then give () else send_resource A E p path (of_nat (length rsrc))) ?s1"
      by (subst seq_Inr [where m = "xfer_write A ?hdr", OF h1(1)]) simp
    finally show ?thesis by (simp only: seq_def s2(1) prod.case sum.case)
  qed
  show ?thesis
  proof (cases "rsrc = []")
    case True
    with run s2 bytes show ?thesis by (simp add: give_def)
  next
    case False
    obtain h where "send_resource A E p path (of_nat (length rsrc)) s2 =
        (Inr (), s2\<lparr>conn := h, counted := counted s2 + 16 + length rsrc\<rparr>)" "takes h ((w @ ?hdr @ data) @ mh @ rsrc)"
      using send_resource_takes [OF s2(2) E(2) mh rpos] u(2) s2(3) by (auto simp: rsrc_def)
    with False run s2 bytes lh show ?thesis by (simp add: FORK_HEADER_LEN_def)
  qed
qed

text \<open>The declared size of a folder entry counts what follows it.\<close>

lemma length_filp_bytes:
  assumes E: "ext_ok E" "ext_disk_ok E"
    and small: "length (file_content d path) < 2 ^ 32" "length (resource_get E d path) < 2 ^ 32"
  shows "length (filp_bytes E d path large dpos rpos) =
    FILP_HEADER_LEN + comment_len E d path + (length (file_content d path) - dpos) +
    (if length (resource_get E d path) \<le> rpos then 0
     else FORK_HEADER_LEN + (length (resource_get E d path) - rpos))"
proof -
  have pk: "length (the (pack_fork_header E t (of_nat n) large)) = FORK_HEADER_LEN" if "n < 2 ^ 32" for t n
  proof -
    have "unat (of_nat n :: u64) < 2 ^ 32" using that by (simp add: unat_of_nat64)
    then obtain h where "pack_fork_header E t (of_nat n) large = Some h"
      using E(1) unfolding ext_ok_def by (metis not_None_eq)
    then show ?thesis using E(1) unfolding ext_ok_def by simp
  qed
  have com: "length (hi_comment (hfsinfo_read E d path)) = comment_len E d path" "comment_len E d path \<le> 255"
    using E(1) unfolding ext_ok_def by metis+
  let ?dh = "the (pack_fork_header E [0x44, 0x41, 0x54, 0x41] (of_nat (length (file_content d path) - dpos)) large)"
  have "length (filp_header E d path b (hfsinfo_read E d path) ?dh) = FILP_HEADER_LEN + comment_len E d path" for b
    using filp_header_facts(1) [OF E(1) _ pk refl] com small by simp
  then show ?thesis
    using pk [of "length (resource_get E d path) - rpos"] small by (simp add: filp_bytes_def Let_def del: of_nat_diff)
qed


section \<open>Sending and receiving a file\<close>

lemma ext_disk_write_file [simp]:
  "deny (write_file p bs d) = deny d" "deny (put_data p n bs d) = deny d" "deny (open_data p b d) = deny d"
  "space (put_data p n bs d) = space d"
  by (simp_all add: write_file_def put_data_def open_data_def)

lemma resource_get_put_data:
  "ext_disk_ok E \<Longrightarrow> resource_get E (put_data p n bs (open_data p b d)) p = resource_get E d p"
  by (simp add: ext_disk_ok_def put_data_def open_data_def)

lemma recv_data_fork_feeds:
  assumes A: "aead_ok A sync" and f: "feeds A sync (conn s) (xs @ rest)" and E: "ext_disk_ok E"
    and len: "length xs < 2 ^ 64"
    and d: "file_content (disk s) q = []" "deny (disk s) q = None" "space (disk s) = None"
  shows "\<exists>s'. recv_data_fork A q 0 0 (of_nat (length xs)) s = (Inr (), s') \<and> feeds A sync (conn s') rest \<and>
    file_content (disk s') q = xs \<and> resource_get E (disk s') q = resource_get E (disk s) q \<and>
    space (disk s') = None \<and> counted s' = counted s + length xs"
proof (cases "xs = []")
  case True
  then show ?thesis using f d by (simp add: recv_data_fork_def give_def)
next
  case False
  have u: "unat (of_nat (length xs) :: u64) = length xs" using len by (simp add: unat_of_nat64)
  then have nz: "(of_nat (length xs) :: u64) \<noteq> 0" using False by (simp add: word_unat_eq_iff)
  obtain s' where raw: "copy_data A q 0 0 (of_nat (length xs)) s = (Inr (), s') \<and> feeds A sync (conn s') rest \<and>
      file_content (disk s') q = splice (unat (0 :: u64)) xs (if (0 :: u64) = 0 then [] else file_content (disk s) q) \<and>
      disk s' = put_data q (unat (0 :: u64)) xs (open_data q ((0 :: u64) = 0) (disk s)) \<and>
      counted s' = counted s + unat (of_nat (length xs) - 0 :: u64)"
    using copy_data_feeds [OF A f u [symmetric] False word_zero_le d(3)] by blast
  have s': "copy_data A q 0 0 (of_nat (length xs)) s = (Inr (), s')" "feeds A sync (conn s') rest"
      "file_content (disk s') q = xs" and disk: "disk s' = put_data q 0 xs (open_data q True (disk s))"
      and c: "counted s' = counted s + length xs"
    using raw [unfolded u diff_zero unsigned_0 simp_thms if_True splice_from_start] by blast+
  have "resource_get E (disk s') q = resource_get E (disk s) q" "space (disk s') = None"
    unfolding disk using d by (simp_all add: resource_get_put_data [OF E])
  with s' c nz d show ?thesis by (simp add: recv_data_fork_def)
qed

text \<open>
  A file whose data fork is empty is neither made nor emptied: the path is not opened, and what was
  there stays.
\<close>

lemma empty_data_fork_untouched: "recv_data_fork A q at again 0 s = (Inr (), s)"
  by (simp add: recv_data_fork_def give_def)

lemma arm_feeds:
  "feeds A sync (conn s) rest \<Longrightarrow> \<exists>h. arm_or_stop b s = (Inr (), s\<lparr>conn := h\<rparr>) \<and> feeds A sync h rest"
  using feeds_timeout [of A sync "conn s" rest b]
  by (auto simp: arm_or_stop_def arm_timeout_def seq_def give_def)

lemma read_macr_feeds:
  assumes A: "aead_ok A sync" and f: "feeds A sync (conn s) (m @ rest)" and m: "length m = FORK_HEADER_LEN"
  shows "\<exists>h. read_macr_marker A False s = (Inr (Some m), s\<lparr>conn := h, counted := counted s + FORK_HEADER_LEN\<rparr>) \<and>
    feeds A sync h rest"
proof -
  have ne: "m \<noteq> []" using m by (auto simp: FORK_HEADER_LEN_def)
  obtain h1 where h1: "arm_or_stop True s = (Inr (), s\<lparr>conn := h1\<rparr>)" "feeds A sync h1 (m @ rest)"
    using arm_feeds [OF f] by blast
  let ?s1 = "s\<lparr>conn := h1\<rparr>"
  obtain h2 where h2: "macr_loop A False [] ?s1 = (Inr (Some m), ?s1\<lparr>conn := h2, counted := counted s + FORK_HEADER_LEN\<rparr>)"
      "feeds A sync h2 rest"
    using macr_loop_feeds [OF A _ _ ne, of ?s1 rest "[]" False] h1(2) m by auto
  let ?s2 = "?s1\<lparr>conn := h2, counted := counted s + FORK_HEADER_LEN\<rparr>"
  obtain h3 where "arm_or_stop False ?s2 = (Inr (), ?s2\<lparr>conn := h3\<rparr>)" "feeds A sync h3 rest"
    using arm_feeds [of A sync ?s2] h2(2) by auto
  moreover have "?s2\<lparr>conn := h3\<rparr> = s\<lparr>conn := h3, counted := counted s + FORK_HEADER_LEN\<rparr>" by simp
  ultimately show ?thesis using h1(1) h2(1) by (intro exI [of _ h3]) (simp add: read_macr_marker_def)
qed

lemma recv_resource_feeds:
  assumes A: "aead_ok A sync" and E: "ext_ok E" "ext_disk_ok E"
    and p: "rsrc_pos p = 0" "\<not> opt_folder p" "\<not> opt_large p"
    and f: "feeds A sync (conn s) (if xs = [] then rest else m @ xs @ rest)"
    and m: "xs \<noteq> [] \<longrightarrow> pack_fork_header E t (of_nat (length xs)) False = Some m"
    and budget: "tot \<ge> budget \<longleftrightarrow> xs = []" and len: "length xs < 2 ^ 32"
    and d: "resource_get E (disk s) q = []" "space (disk s) = None"
  shows "\<exists>s'. recv_resource A E p q fi b tot budget s = (Inr (), s') \<and> feeds A sync (conn s') rest \<and>
    file_content (disk s') q = file_content (disk s) q \<and> resource_get E (disk s') q = xs \<and>
    counted s' = counted s + (if xs = [] then 0 else FORK_HEADER_LEN + length xs)"
proof -
  have fin: "finish E q fi n r = (Inr (), r\<lparr>disk := hfsinfo_write E q (make_hfsinfo (fi_type_creator fi) fi n) (disk r)\<rparr>)"
    "resource_get E (hfsinfo_write E q hi dd) q = resource_get E dd q"
    "file_content (hfsinfo_write E q hi dd) q = file_content dd q" for n r hi dd
    using E(2) by (simp_all add: finish_def on_disk_def ext_disk_ok_def file_content_def)
  show ?thesis
  proof (cases "xs = []")
    case True
    then show ?thesis using f d p budget by (simp add: recv_resource_def fin)
  next
    case False
    have pk: "length m = FORK_HEADER_LEN" "fork_len E m False = of_nat (length xs)"
      using E(1) m False unfolding ext_ok_def by blast+
    have u: "unat (of_nat (length xs) :: u64) = length xs" using len by (simp add: unat_of_nat64)
    then have nz: "(of_nat (length xs) :: u64) \<noteq> 0" using False by (simp add: word_unat_eq_iff)
    obtain h1 where h1: "read_macr_marker A False s = (Inr (Some m), s\<lparr>conn := h1, counted := counted s + FORK_HEADER_LEN\<rparr>)"
        "feeds A sync h1 (xs @ rest)"
      using read_macr_feeds [OF A _ pk(1), of s "xs @ rest"] f False by auto
    let ?s1 = "s\<lparr>conn := h1, counted := counted s + FORK_HEADER_LEN\<rparr>"
    obtain h2 where h2: "rd_wr_recv A True True (length xs) [] ?s1 =
        (Inr (), xs, ?s1\<lparr>conn := h2, counted := counted s + FORK_HEADER_LEN + length xs\<rparr>)" "feeds A sync h2 rest"
      using rd_wr_recv_feeds [OF A _ refl, of ?s1 xs rest True True "[]"] h1(2) d by auto
    let ?s2 = "?s1\<lparr>conn := h2, counted := counted s + FORK_HEADER_LEN + length xs,
      disk := resource_put E q 0 xs (disk s)\<rparr>"
    have fork: "recv_resource_fork A E q 0 (of_nat (length xs)) ?s1 = (Inr (of_nat (length xs)), ?s2)"
      using E(2) h2(1) u len by (simp add: recv_resource_fork_def ext_disk_ok_def checked_add64_def)
    have put: "resource_get E (resource_put E q 0 xs (disk s)) q = xs"
        "file_content (resource_put E q 0 xs (disk s)) q = file_content (disk s) q"
      using E(2) d by (simp_all add: ext_disk_ok_def splice_from_start file_content_def)
    have nb: "\<not> tot \<ge> budget" using budget False by simp
    show ?thesis
      using False p nb nz h2(2)
      by (simp add: recv_resource_def seq_Inr [where m = "read_macr_marker A False", OF h1(1)] pk Let_def
          seq_Inr [where m = "recv_resource_fork A E q 0 (of_nat (length xs))", OF fork] fin put)
  qed
qed

text \<open>A header of the file, cut where the receiver cuts it.\<close>

lemma filp_header_cut:
  assumes E: "ext_ok E" and dh: "pack_fork_header E t (of_nat n) False = Some dh" and c: "length (hi_comment fi) \<le> 255"
    and hdr: "hdr = filp_header E d path b fi dh"
  shows "info_block_len E (hdr ! 38) (hdr ! 39) = Some (93 + length (hi_comment fi))"
    "length (take 40 hdr) = 40" "length (drop 40 hdr) = 93 + length (hi_comment fi)"
    "\<exists>i. parse_filp_info E (drop 40 hdr) False = Some i \<and> fi_data_fork_len i = of_nat n"
proof -
  have h: "length dh = FORK_HEADER_LEN" "fork_len E dh False = of_nat n" using E dh unfolding ext_ok_def by blast+
  note f = filp_header_facts [OF E c h(1) hdr]
  show l: "length (take 40 hdr) = 40" "length (drop 40 hdr) = 93 + length (hi_comment fi)"
    using f(1) by (simp_all add: FILP_HEADER_LEN_def)
  show "info_block_len E (hdr ! 38) (hdr ! 39) = Some (93 + length (hi_comment fi))"
    using E f(2) unfolding ext_ok_def by (simp add: FORK_HEADER_LEN_def)
  have "drop (length (drop 40 hdr) - FORK_HEADER_LEN) (drop 40 hdr) = dh"
    using f(3) l(2) by (simp add: FORK_HEADER_LEN_def add.commute)
  moreover have "93 \<le> length (drop 40 hdr)" using l(2) by simp
  ultimately show "\<exists>i. parse_filp_info E (drop 40 hdr) False = Some i \<and> fi_data_fork_len i = of_nat n"
    using E h(2) unfolding ext_ok_def by metis
qed

lemma file_recv_feeds:
  assumes A: "aead_ok A sync" and E: "ext_ok E" "ext_disk_ok E"
    and bs: "bs = filp_bytes E d path False 0 0" and f: "feeds A sync (conn s) (bs @ rest)"
    and p: "px_path p = Some q" "data_pos p = 0" "rsrc_pos p = 0" "\<not> opt_preview p" "\<not> opt_folder p" "\<not> opt_large p"
      "file_budget p = of_nat (length bs)"
    and small: "length (file_content d path) < 2 ^ 32" "length (resource_get E d path) < 2 ^ 32"
    and fresh: "was s = None" "file_content (disk s) q = []" "resource_get E (disk s) q = []"
      "deny (disk s) q = None" "space (disk s) = None"
  shows "\<exists>s'. file_recv A E p s = (Inr (), s') \<and> feeds A sync (conn s') rest \<and>
    file_content (disk s') q = file_content d path \<and> resource_get E (disk s') q = resource_get E d path \<and>
    counted s' = counted s + length bs"
proof -
  define data where "data = file_content d path"
  define rsrc where "rsrc = resource_get E d path"
  let ?fi = "hfsinfo_read E d path"
  define com where "com = length (hi_comment ?fi)"
  have pk: "\<exists>h. pack_fork_header E t (of_nat n) False = Some h" if "n < 2 ^ 32" for t n
  proof -
    have "unat (of_nat n :: u64) < 2 ^ 32" using that by (simp add: unat_of_nat64)
    then show ?thesis using E(1) unfolding ext_ok_def by (metis not_None_eq)
  qed
  obtain dh where dh: "pack_fork_header E [0x44, 0x41, 0x54, 0x41] (of_nat (length data)) False = Some dh"
    using pk small by (metis data_def)
  obtain mh where mh: "pack_fork_header E [0x4D, 0x41, 0x43, 0x52] (of_nat (length rsrc)) False = Some mh"
    using pk small by (metis rsrc_def)
  have com: "com \<le> 255" "comment_len E d path = com" using E(1) unfolding ext_ok_def com_def by metis+
  define hdr where "hdr = filp_header E d path (rsrc \<noteq> []) ?fi dh"
  note cut = filp_header_cut [OF E(1) dh com(1) [unfolded com_def] hdr_def, folded com_def]
  obtain i where i: "parse_filp_info E (drop 40 hdr) False = Some i" "fi_data_fork_len i = of_nat (length data)"
    using cut(4) by blast
  have bytes: "bs = take 40 hdr @ drop 40 hdr @ data @ (if rsrc = [] then [] else mh @ rsrc)"
    unfolding bs filp_bytes_def by (simp add: Let_def dh mh hdr_def flip: data_def rsrc_def)
  have len: "length bs = 133 + com + length data + (if rsrc = [] then 0 else 16 + length rsrc)"
    unfolding bs length_filp_bytes [OF E small] com(2)
    by (auto simp: FILP_HEADER_LEN_def FORK_HEADER_LEN_def data_def rsrc_def)
  let ?tl = "if rsrc = [] then rest else mh @ rsrc @ rest"
  have f0: "feeds A sync (conn s) (take 40 hdr @ drop 40 hdr @ data @ ?tl)"
    using f unfolding bytes by (cases "rsrc = []") simp_all
  obtain h1 where h1: "read_exact_progress A 40 [] s = (Inr (take 40 hdr), s\<lparr>conn := h1, counted := counted s + 40\<rparr>)"
      "feeds A sync h1 (drop 40 hdr @ data @ ?tl)"
    using read_exact_progress_feeds [OF A f0, of "[]" 40] cut(2) by auto
  let ?s1 = "s\<lparr>conn := h1, counted := counted s + 40\<rparr>"
  obtain h2 where h2: "read_exact_progress A (93 + com) [] ?s1 =
      (Inr (drop 40 hdr), ?s1\<lparr>conn := h2, counted := counted s + 40 + (93 + com)\<rparr>)" "feeds A sync h2 (data @ ?tl)"
    using read_exact_progress_feeds [OF A, of ?s1 "drop 40 hdr" "data @ ?tl" "[]" "93 + com"] h1(2) cut(3) by auto
  let ?hi = "make_hfsinfo HTftHTLC i 0"
  let ?s3 = "?s1\<lparr>conn := h2, counted := counted s + 40 + (93 + com), disk := hfsinfo_write E q ?hi (disk s),
    was := Some \<lparr>filp_len = of_nat (length data), filp_modified = fi_modify_time i\<rparr>\<rparr>"
  have run: "file_recv A E p s = recv_forks A E p q i (take 40 hdr) (93 + com) 0 ?s3"
    using p fresh(1) i
    by (simp add: file_recv_def seq_Inr [where m = "read_exact_progress A 40 []", OF h1(1)] cut(1)
        seq_Inr [where m = "read_exact_progress A (93 + com) []", OF h2(1)])
       (simp add: seq_def place_data_def data_from_def)
  have d3: "feeds A sync (conn ?s3) (data @ ?tl)" "file_content (disk ?s3) q = []" "deny (disk ?s3) q = None"
      "space (disk ?s3) = None" "resource_get E (disk ?s3) q = []"
    using h2(2) fresh E(2) by (simp_all add: ext_disk_ok_def file_content_def)
  have l64: "length data < 2 ^ 64" using small by (simp add: data_def)
  obtain s4 where s4: "recv_data_fork A q 0 0 (of_nat (length data)) ?s3 = (Inr (), s4)" "feeds A sync (conn s4) ?tl"
      "file_content (disk s4) q = data" "resource_get E (disk s4) q = []" "space (disk s4) = None"
      "counted s4 = counted s + 133 + com + length data"
    using recv_data_fork_feeds [OF A d3(1) E(2) l64 d3(2-4)] d3(5) by auto
  let ?tot = "of_nat (40 + (93 + com)) + of_nat (length data) :: u64" and ?budget = "of_nat (length bs) :: u64"
  have bl: "unat ?budget = length bs" using len small com by (intro unat_of_nat64) (simp add: data_def rsrc_def)
  have tl: "unat ?tot = 133 + com + length data"
    using small com by (simp add: data_def unat_of_nat64 flip: of_nat_add)
  have bud: "?tot \<ge> ?budget \<longleftrightarrow> rsrc = []" unfolding word_le_nat_alt tl bl using len by simp
  have "unat ?budget < 2 ^ 64" using unsigned_less [of ?budget, where ?'a = nat] by simp
  then have sat: "saturating_add64 ?budget 0 = ?budget" by (simp add: saturating_add64_def)
  have "unat ?budget \<noteq> 0" unfolding bl using len by simp
  then have nz: "?budget \<noteq> 0" by (metis unsigned_0)
  have forks: "recv_forks A E p q i (take 40 hdr) (93 + com) 0 ?s3 =
      recv_resource A E p q i (from_be16 (take 40 hdr ! 22) (take 40 hdr ! 23) \<ge> 3) ?tot ?budget s4"
    using p sat nz s4(1) by (simp add: recv_forks_def Let_def i(2) seq_def)
  obtain s5 where "recv_resource A E p q i (from_be16 (take 40 hdr ! 22) (take 40 hdr ! 23) \<ge> 3) ?tot ?budget s4 = (Inr (), s5)"
      "feeds A sync (conn s5) rest" "file_content (disk s5) q = data" "resource_get E (disk s5) q = rsrc"
      "counted s5 = counted s4 + (if rsrc = [] then 0 else FORK_HEADER_LEN + length rsrc)"
    using recv_resource_feeds [OF A E p(3,5,6), of s4 rsrc rest mh "[0x4D, 0x41, 0x43, 0x52]" ?budget ?tot q i
        "from_be16 (take 40 hdr ! 22) (take 40 hdr ! 23) \<ge> 3"] s4 mh bud small by (auto simp: rsrc_def)
  then show ?thesis
    using run forks s4(6) len by (auto simp: data_def rsrc_def FORK_HEADER_LEN_def)
qed


section \<open>Witnesses\<close>

text \<open>Codecs and a disk that satisfy the laws: headers of four bytes of type, eight of zero and the length.\<close>

definition toy_resource :: "Fs \<Rightarrow> path \<Rightarrow> bytes" where
  "toy_resource d p = (case map_of (rforks d) p of Some bs \<Rightarrow> bs | None \<Rightarrow> [])"

definition toy_fork_len :: "bytes \<Rightarrow> bool \<Rightarrow> u64" where
  "toy_fork_len h l = (case drop 12 h of [a, b, c, d] \<Rightarrow> ucast (from_be32 a b c d) | _ \<Rightarrow> 0)"

definition toy_info :: "Fs \<Rightarrow> path \<Rightarrow> HfsInfo" where
  "toy_info d p =
     (case map_of (sidecars d) p of
        Some h \<Rightarrow> h\<lparr>hi_comment := take 255 (hi_comment h)\<rparr>
      | None \<Rightarrow> \<lparr>hi_type_creator = HTftHTLC, hi_create_time = [], hi_modify_time = [], hi_rsrclen = 0, hi_comment = []\<rparr>)"

definition toy_ext :: Ext where
  "toy_ext =
     \<lparr>info_block_len = (\<lambda>a b. Some (unat a * 256 + unat b + FORK_HEADER_LEN)),
      parse_filp_info = (\<lambda>info l. Some \<lparr>fi_type_creator = HTftHTLC, fi_create_time = [], fi_modify_time = [],
        fi_comment = [], fi_data_fork_len = toy_fork_len (drop (length info - FORK_HEADER_LEN) info) l\<rparr>),
      fork_len = toy_fork_len,
      pack_fork_header = (\<lambda>t n l. if unat n < 2 ^ 32
        then Some (take 4 (t @ replicate 4 0) @ replicate 8 0 @ be_bytes32 (ucast n)) else None),
      hfs_h_to_mtime = (\<lambda>t. take 4 (t @ replicate 4 0)), hfsinfo_read = toy_info,
      hfsinfo_write = (\<lambda>p hi d. d\<lparr>sidecars := AList.update p hi (sidecars d)\<rparr>),
      hfs_type_creator = (\<lambda>d p. HTftHTLC), resource_len = (\<lambda>d p. of_nat (length (toy_resource d p))),
      comment_len = (\<lambda>d p. length (hi_comment (toy_info d p))), resource_open = (\<lambda>w d p. Inr True),
      resource_get = toy_resource,
      resource_put = (\<lambda>p n bs d. d\<lparr>rforks := AList.update p (splice n bs (toy_resource d p)) (rforks d)\<rparr>),
      rflt_encode = (\<lambda>a b. be_bytes32 a @ be_bytes32 b)\<rparr>"

lemma toy_ext_ok: "ext_ok toy_ext"
proof -
  have inv: "toy_fork_len (take 4 (t @ replicate 4 0) @ replicate 8 0 @ be_bytes32 (ucast n)) l = n"
    if "unat n < 2 ^ 32" for t n l
  proof -
    have "length (take 4 (t @ replicate 4 (0::u8))) = 4" by simp
    then have "toy_fork_len (take 4 (t @ replicate 4 0) @ replicate 8 0 @ be_bytes32 (ucast n)) l = ucast (ucast n :: u32)"
      by (simp add: toy_fork_len_def be_bytes32_def be_simps)
    also have "\<dots> = n" using that by (simp add: word_unat_eq_iff unsigned_ucast_eq unsigned_take_bit_eq take_bit_nat_eq_self)
    finally show ?thesis .
  qed
  show ?thesis
    using inv unfolding ext_ok_def
    by (auto simp: toy_ext_def FORK_HEADER_LEN_def be_bytes32_def HTftHTLC_def toy_info_def split: if_splits option.splits)
qed

lemma toy_ext_disk_ok: "ext_disk_ok toy_ext"
  by (simp add: ext_disk_ok_def toy_ext_def toy_resource_def write_file_def update_conv')

definition toy_disk :: Fs where
  "toy_disk = \<lparr>files = [([97], \<lparr>content = [1, 2, 3], modified = 0\<rparr>)], rforks = [([97], [9, 8])], sidecars = [],
     dirs = [], deny = (\<lambda>_. None), space = None, clock = 1\<rparr>"

definition toy_worker :: "Fs \<Rightarrow> Rd list \<Rightarrow> nat St" where
  "toy_worker d es =
     \<lparr>conn = new_conn (new_plain \<lparr>incoming = es, written = [], write_faults = []\<rparr> 0), disk = d, counted = 0,
      shown = [], shown_done = False, was = None, ledger = [],
      uploads = \<lparr>up_files = [], up_folders = [], up_unsure = []\<rparr>\<rparr>"

lemma toy_worker_takes: "takes (conn (toy_worker d es)) []"
  by (simp add: takes_def toy_worker_def new_conn_def new_plain_def)

lemma toy_worker_feeds: "bs \<noteq> [] \<Longrightarrow> feeds A sync (conn (toy_worker d [Chunk bs])) bs"
  by (simp add: feeds_def toy_worker_def new_conn_def new_plain_def quiet_wire_def wire_bytes_def)


definition toy_params :: Params where
  "toy_params = \<lparr>px_path = Some [97], file_budget = 0, data_pos = 0, rsrc_pos = 0, opt_preview = False,
     opt_folder = False, opt_large = False, preview = False, preview_limit = None, data_size = 3, rsrc_size = 2\<rparr>"

definition toy_sent :: "nat St" where
  "toy_sent = snd (hxnet_xfer_file_send_one toy_aead toy_ext toy_params (toy_worker toy_disk []))"

definition toy_wire :: bytes where
  "toy_wire = written (inner (chan (conn toy_sent)))"

lemma toy_disk_forks:
  "file_content toy_disk [97] = [1, 2, 3]" "resource_get toy_ext toy_disk [97] = [9, 8]" "deny toy_disk = (\<lambda>_. None)"
  "resource_len toy_ext toy_disk [97] = 2" "comment_len toy_ext toy_disk [97] = 0" "disk (toy_worker d es) = d"
  by (simp_all add: toy_disk_def file_content_def toy_ext_def toy_resource_def toy_info_def toy_worker_def)

lemma length_toy_wire: "length toy_wire = 154"
proof -
  obtain s' where "file_send toy_aead toy_ext toy_params (toy_worker toy_disk []) = (Inr (), s')"
      "takes (conn s') ([] @ filp_bytes toy_ext toy_disk [97] False 0 0)"
    using file_send_takes [OF toy_worker_takes toy_ext_ok toy_ext_disk_ok, of toy_disk "[]" "[97]" toy_params toy_aead]
    by (auto simp: toy_disk_forks toy_params_def)
  then have "toy_wire = filp_bytes toy_ext toy_disk [97] False 0 0"
    by (simp add: toy_wire_def toy_sent_def hxnet_xfer_file_send_one_def takes_def)
  then show ?thesis
    using length_filp_bytes [OF toy_ext_ok toy_ext_disk_ok, of toy_disk "[97]" False 0 0]
    by (simp add: toy_disk_forks FILP_HEADER_LEN_def FORK_HEADER_LEN_def)
qed


definition toy_folder :: FolderParams where
  "toy_folder = \<lparr>fp_base = Some [98], fp_progress = True, fp_preview = False, fp_folder = True, fp_large = False\<rparr>"


end
