(* ===== verification/Xfer_Folder_Props.thy ===== *)
theory Xfer_Folder_Props
  imports Xfer_Props
begin

text \<open>
  Properties of the folder loops: whatever the server names, a folder download changes nothing outside
  its folder; a file is resumed only where its local copy ends; a local file that changed is not spliced
  onto what the server already has.
\<close>

section \<open>What a step changes on the disk\<close>

named_theorems confining \<open>operations that change only what they name\<close>

text \<open>Outside \<open>S\<close> no file, resource fork or sidecar changes, and no directory appears.\<close>

definition changes :: "path set \<Rightarrow> Fs \<Rightarrow> Fs \<Rightarrow> bool" where
  "changes S d d' \<longleftrightarrow>
     (\<forall>q. q \<notin> S \<longrightarrow> map_of (files d') q = map_of (files d) q \<and> map_of (rforks d') q = map_of (rforks d) q \<and>
        map_of (sidecars d') q = map_of (sidecars d) q) \<and> set (dirs d') \<subseteq> set (dirs d) \<union> S"

definition confined :: "path set \<Rightarrow> ('s, 'a) xstep \<Rightarrow> bool" where
  "confined S m \<longleftrightarrow> (\<forall>s. changes S (disk s) (disk (snd (m s))))"

text \<open>What is relied on of the sidecars and resource forks: an access for a file changes that file's own.\<close>

definition ext_local :: "Ext \<Rightarrow> bool" where
  "ext_local E \<longleftrightarrow>
     (\<forall>p hi d. changes {p} d (hfsinfo_write E p hi d)) \<and> (\<forall>p n bs d. changes {p} d (resource_put E p n bs d))"

lemma changes_refl [simp]: "changes S d d"
  by (simp add: changes_def)

lemma changes_trans: "changes S d1 d2 \<Longrightarrow> changes S d2 d3 \<Longrightarrow> changes S d1 d3"
  unfolding changes_def by (intro conjI allI impI) (simp_all, blast)

lemma changes_mono: "changes S d d' \<Longrightarrow> S \<subseteq> T \<Longrightarrow> changes T d d'"
  unfolding changes_def by blast

lemma changes_use_space [simp]: "changes S d (use_space n d)"
  by (simp add: changes_def use_space_def)

lemma changes_write_file [simp]: "p \<in> S \<Longrightarrow> changes S d (write_file p bs d)"
  by (auto simp: changes_def write_file_def update_conv')

lemma changes_data [simp]: "p \<in> S \<Longrightarrow> changes S d (open_data p b d)" "p \<in> S \<Longrightarrow> changes S d (put_data p n bs d)"
  by (simp_all add: open_data_def put_data_def)

lemma changes_ext:
  "ext_local E \<Longrightarrow> p \<in> S \<Longrightarrow> changes S d (hfsinfo_write E p hi d)"
  "ext_local E \<Longrightarrow> p \<in> S \<Longrightarrow> changes S d (resource_put E p n bs d)"
  unfolding ext_local_def by (meson changes_mono empty_subsetI insert_subset)+

lemma confined_seq [confining]:
  assumes "confined S m" "\<And>a. confined S (k a)"
  shows "confined S (seq m k)"
proof -
  have "changes S (disk s) (disk (snd (seq m k s)))" for s
  proof -
    obtain r s1 where m: "m s = (r, s1)" by fastforce
    then have 1: "changes S (disk s) (disk s1)" using assms(1) unfolding confined_def by (metis snd_conv)
    then show ?thesis
      using m assms(2) changes_trans [OF 1] by (cases r) (auto simp: seq_def confined_def)
  qed
  then show ?thesis by (simp add: confined_def)
qed

lemma confined_basic [confining]:
  "confined S (give a)" "confined S (stop e)" "confined S (or_stop x e)" "confined S get_disk" "confined S (report n)"
  "confined S (arm_timeout b)" "confined S (arm_or_stop b)" "confined S (place_data p fi)"
  "p' \<in> S \<Longrightarrow> confined S (create_dir_all p')"
proof -
  show arm: "confined S (arm_timeout b)" for b
    by (simp add: confined_def arm_timeout_def split: prod.split)
  show "confined S (arm_or_stop b)"
    unfolding arm_or_stop_def by (intro confined_seq arm) (simp add: confined_def give_def stop_def)
qed (auto simp: confined_def give_def stop_def or_stop_def get_disk_def report_def add_progress_def place_data_def
    create_dir_all_def changes_def split: option.splits sum.splits)

text \<open>Reading leaves the disk alone.\<close>

lemma xfer_read_disk: "xfer_read A n s = (r, s') \<Longrightarrow> disk s' = disk s"
  by (auto simp: xfer_read_def split: prod.splits option.splits if_splits)

lemma xfer_write_disk: "xfer_write A buf s = (r, s') \<Longrightarrow> disk s' = disk s"
  by (auto simp: xfer_write_def split: prod.splits sum.splits if_splits)

lemma disk_add_progress [simp]: "disk (add_progress n s) = disk s"
  by (simp add: add_progress_def)

lemma read_exact_progress_disk: "disk (snd (read_exact_progress A len out s)) = disk s"
proof (induction A len out s rule: read_exact_progress.induct)
  case (1 A len out s)
  obtain r s1 where r: "xfer_read A (len - length out) s = (r, s1)" by fastforce
  show ?case
    using r xfer_read_disk [OF r] "1.IH" [OF _ r [symmetric]]
    by (subst read_exact_progress.simps) (auto split: sum.split)
qed

lemma macr_loop_disk: "disk (snd (macr_loop A wait got s)) = disk s"
proof (induction A wait got s rule: macr_loop.induct)
  case (1 A wait got s)
  obtain r h where r: "hxnet_htxf_read A (FORK_HEADER_LEN - length got) (conn s) = (r, h)" by fastforce
  show ?case
    using "1.IH" [OF r [symmetric]] by (subst macr_loop.simps) (auto simp: r split: option.split)
qed

lemma htxf_read_full_disk: "disk (snd (htxf_read_full A want got s)) = disk s"
proof (induction A want got s rule: htxf_read_full.induct)
  case (1 A want got s)
  obtain r h where r: "hxnet_htxf_read A (want - length got) (conn s) = (r, h)" by fastforce
  show ?case
    using "1.IH" [OF _ r [symmetric]] by (subst htxf_read_full.simps) (auto simp: r split: option.split)
qed

lemma entry_loop_disk: "disk (snd (entry_loop A len got s)) = disk s"
proof (induction A len got s rule: entry_loop.induct)
  case (1 A len got s)
  obtain r h where r: "read_some A (len - length got) (conn s) = (r, h)" by fastforce
  show ?case
    using "1.IH" [OF _ r [symmetric]] by (subst entry_loop.simps) (auto simp: r split: sum.split)
qed

lemma drain_loop_disk: "disk (drain_loop A n s) = disk s"
proof (induction A n s rule: drain_loop.induct)
  case (1 A n s)
  obtain r h where r: "hxnet_htxf_read A (min 2048 n) (conn s) = (r, h)" by fastforce
  show ?case
    using "1.IH" [OF _ r [symmetric]] by (subst drain_loop.simps) (auto simp: r split: option.split)
qed

lemma preview_get_disk: "disk (snd (preview_get A n s)) = disk s"
proof (induction A n s rule: preview_get.induct)
  case (1 A n s)
  obtain r s1 where r: "xfer_read A (min COPY_LEN n) s = (r, s1)" by fastforce
  show ?case
    using r xfer_read_disk [OF r] "1.IH" [OF _ r [symmetric]]
    by (subst preview_get.simps) (auto split: sum.split)
qed

lemma rd_wr_recv_changes: "rd_wr_recv A lim loud n copied s = (r, bs, s') \<Longrightarrow> changes S (disk s) (disk s')"
proof (induction A lim loud n copied s arbitrary: r bs s' rule: rd_wr_recv.induct)
  case (1 A lim loud n copied s)
  obtain x s1 where x: "xfer_read A (min COPY_LEN n) s = (x, s1)" by fastforce
  have d: "disk s1 = disk s" by (rule xfer_read_disk [OF x])
  consider (zero) "n = 0" | (fail) e where "n \<noteq> 0" "x = Inl e" | (data) b where "n \<noteq> 0" "x = Inr b"
    by (cases x) auto
  then show ?case
  proof cases
    case zero
    with "1.prems" show ?thesis by (subst (asm) rd_wr_recv.simps) simp
  next
    case fail
    with "1.prems" d show ?thesis by (subst (asm) rd_wr_recv.simps) (simp add: x)
  next
    case data
    note IH = "1.IH"[OF data(1) x [symmetric] data(2)]
    have idsk: "disk ((if loud then add_progress k else id) t) = disk t" for k t by simp
    show ?thesis
    proof (cases "if lim then space (disk s1) else None")
      case None
      then have "rd_wr_recv A lim loud (n - length b) (copied @ b) ((if loud then add_progress (length b) else id) s1) = (r, bs, s')"
        using "1.prems" data x by (subst (asm) rd_wr_recv.simps) simp
      from IH(1) [OF None this] show ?thesis unfolding idsk d .
    next
      case (Some room)
      then show ?thesis
        using "1.prems" data x d IH(2) [OF Some] changes_trans [OF changes_use_space [of S "disk s" "length b"]]
        by (subst (asm) rd_wr_recv.simps) (auto simp: idsk split: if_splits)
    qed
  qed
qed

section \<open>A file stays in its path\<close>

lemma confined_reads [confining]:
  "confined S (read_exact_progress A len out)" "confined S (macr_loop A wait got)" "confined S (preview_get A n)"
  "confined S (\<lambda>s. (Inr (), drain_loop A n s))" "confined S (xfer_read A n)" "confined S (xfer_write A buf)"
  "confined S (field A n)" "confined S (drain_bytes A n)"
proof -
  show "confined S (xfer_read A n)" "confined S (xfer_write A buf)"
    unfolding confined_def by (metis changes_refl prod.collapse xfer_read_disk xfer_write_disk)+
  show "confined S (field A n)"
    unfolding confined_def field_def
    using htxf_read_full_disk [of A n "[]"] by (auto split: prod.splits FullRead.splits) (metis changes_refl snd_conv)+
  show "confined S (drain_bytes A n)"
    unfolding confined_def drain_bytes_def by (auto split: prod.splits intro: rd_wr_recv_changes)
qed (simp_all add: confined_def read_exact_progress_disk macr_loop_disk preview_get_disk drain_loop_disk)

lemma confinedD: "confined S m \<Longrightarrow> m s = (r, s') \<Longrightarrow> changes S (disk s) (disk s')"
  unfolding confined_def by (metis snd_conv)

lemma confinedI: "(\<And>s r s'. m s = (r, s') \<Longrightarrow> changes S (disk s) (disk s')) \<Longrightarrow> confined S m"
  unfolding confined_def by (metis prod.collapse)

lemma confined_macr [confining]: "confined S (read_macr_marker A wait)"
proof (rule confinedI)
  fix s r s'
  assume run: "read_macr_marker A wait s = (r, s')"
  have c: "confined S (macr_loop A wait [])" "confined S (arm_or_stop b)" for b by (intro confining)+
  show "changes S (disk s) (disk s')"
    using run confinedD [OF c(1)] confinedD [OF c(2)]
    by (auto simp: read_macr_marker_def split: if_splits prod.splits sum.splits) (blast intro: changes_trans)+
qed

lemma confined_copy [confining]:
  assumes "p \<in> S"
  shows "confined S (copy_data A p at again len)"
proof -
  have "changes S (disk s) (disk (snd (copy_data A p at again len s)))" for s
  proof -
    let ?s0 = "s\<lparr>disk := open_data p (at = 0) (disk s)\<rparr>"
    obtain r1 b1 s1 where 1: "rd_wr_recv A True False (unat again) [] ?s0 = (r1, b1, s1)" by (metis prod_cases3)
    obtain r2 b2 s2 where 2: "rd_wr_recv A True True (unat (len - again)) b1 s1 = (r2, b2, s2)" by (metis prod_cases3)
    have c1: "changes S (disk s) (disk s1)"
      using changes_trans [OF _ rd_wr_recv_changes [OF 1]] assms by simp
    have c2: "changes S (disk s) (disk s2)" by (rule changes_trans [OF c1 rd_wr_recv_changes [OF 2]])
    show ?thesis
      using 1 2 changes_trans [OF c1 changes_data(2) [OF assms]] changes_trans [OF c2 changes_data(2) [OF assms]]
      by (simp add: copy_data_def Let_def split: sum.split)
  qed
  then show ?thesis by (simp add: confined_def)
qed

lemma confined_resource_fork [confining]:
  assumes "ext_local E" "p \<in> S"
  shows "confined S (recv_resource_fork A E p pos len)"
proof -
  have "changes S (disk s) (disk (snd (recv_resource_fork A E p pos len s)))" for s
  proof -
    obtain r b s1 where 1: "rd_wr_recv A True True (unat len) [] s = (r, b, s1)" by (metis prod_cases3)
    show ?thesis
      using 1 changes_trans [OF rd_wr_recv_changes [OF 1] changes_ext(2) [OF assms]]
      by (simp add: recv_resource_fork_def split: sum.split bool.split option.split)
  qed
  then show ?thesis by (simp add: confined_def)
qed

lemma confined_on_disk: "(\<And>d. changes S d (f d)) \<Longrightarrow> confined S (on_disk f)"
  by (simp add: confined_def on_disk_def)

lemma confined_finish [confining]: "ext_local E \<Longrightarrow> p \<in> S \<Longrightarrow> confined S (finish E p fi n)"
  unfolding finish_def by (intro confined_on_disk changes_ext)

lemma confined_split [confining]:
  "(b \<Longrightarrow> confined S m) \<Longrightarrow> (\<not> b \<Longrightarrow> confined S m') \<Longrightarrow> confined S (if b then m else m')"
  "(\<And>a. confined S (k a)) \<Longrightarrow> confined S m \<Longrightarrow> confined S (case x of None \<Rightarrow> m | Some a \<Rightarrow> k a)"
  by (auto split: option.split)

lemma confined_file_recv [confining]:
  assumes E: "ext_local E" and p: "px_path p = Some path" "path \<in> S"
  shows "confined S (file_recv A E p)"
proof -
  have "confined S (recv_data_fork A path at again len)" for at again len
    unfolding recv_data_fork_def by (intro confining p)
  moreover have "confined S (folder_drain A n)" for n
    unfolding folder_drain_def by (intro confining)
  moreover have "confined S (recv_preview A p len)" for len
    unfolding recv_preview_def Let_def by (intro confining)
  ultimately have "confined S (recv_forks A E p path fi hdr n at)" for fi hdr n at
    unfolding recv_forks_def recv_resource_def Let_def by (intro confining E p)
  then show ?thesis
    unfolding file_recv_def p(1) by (simp, intro confining confined_on_disk changes_ext E p)
qed

section \<open>The names of a folder\<close>

definition name_ok :: "bytes \<Rightarrow> bool" where
  "name_ok c \<longleftrightarrow> c \<noteq> [] \<and> c \<noteq> [46, 46] \<and> 47 \<notin> set c \<and> 92 \<notin> set c"

text \<open>The folder itself, and the paths below it whose components are plain names.\<close>

definition inside :: "path \<Rightarrow> path set" where
  "inside base = insert base
     {join_path base (join_comps cs) | cs. cs \<noteq> [] \<and> list_all name_ok cs \<and> length (join_comps cs) \<le> MAXPATHLEN}"

lemma join_comps_snoc: "join_comps (cs @ [c]) = (if cs = [] then c else join_comps cs @ [47] @ c)"
proof (induction cs)
  case (Cons x xs)
  then show ?case by (cases xs) simp_all
qed simp

lemma join_comps_Nil: "list_all name_ok cs \<Longrightarrow> join_comps cs = [] \<longleftrightarrow> cs = []"
  by (induction cs rule: join_comps.induct) (simp_all add: name_ok_def)

lemma htxf_read_full_len:
  "htxf_read_full A want got s = (Full bs, s') \<Longrightarrow> length got \<le> want \<Longrightarrow> length bs = want"
proof (induction A want got s rule: htxf_read_full.induct)
  case (1 A want got s)
  obtain r h where r: "hxnet_htxf_read A (want - length got) (conn s) = (r, h)" by fastforce
  show ?case
  proof (cases "length got < want")
    case True
    then obtain b where b: "r = Some b" "b \<noteq> []" "htxf_read_full A want (got @ b) (s\<lparr>conn := h\<rparr>) = (Full bs, s')"
      using "1.prems"(1) r by (subst (asm) htxf_read_full.simps) (auto split: option.splits if_splits)
    have "length (got @ b) \<le> want" using hxnet_htxf_read_le [of A "want - length got" "conn s" b h] r b(1) True by simp
    then show ?thesis using "1.IH" [OF True r [symmetric] b(1,2,3)] by simp
  next
    case False
    with "1.prems" show ?thesis by (subst (asm) htxf_read_full.simps) simp
  qed
qed

lemma field_len: "field A n s = (Inr bs, s') \<Longrightarrow> length bs = n"
  by (auto simp: field_def split: prod.splits FullRead.splits dest: htxf_read_full_len)

text \<open>What a server's entry can name.\<close>

lemma read_components_ok:
  "read_components A n rel s = (Inr rel', s') \<Longrightarrow> rel = join_comps cs \<Longrightarrow> list_all name_ok cs \<Longrightarrow>
   length rel \<le> MAXPATHLEN \<Longrightarrow>
   \<exists>cs'. rel' = join_comps cs' \<and> list_all name_ok cs' \<and> length cs' = length cs + n \<and> length rel' \<le> MAXPATHLEN"
proof (induction n arbitrary: rel s cs)
  case 0
  then show ?case by (auto simp: give_def)
next
  case (Suc n)
  obtain ph s1 where ph: "field A 3 s = (Inr ph, s1)"
    using Suc.prems(1) by (auto simp: seq_def split: prod.splits sum.splits)
  let ?n = "unat (ph ! 2)"
  have n0: "?n \<noteq> 0" using Suc.prems(1) ph by (auto simp: seq_def stop_def Let_def split: if_splits)
  obtain name s2 where name: "field A ?n s1 = (Inr name, s2)"
    using Suc.prems(1) ph n0 by (auto simp: seq_def stop_def Let_def split: prod.splits sum.splits)
  have ln: "length name = ?n" by (rule field_len [OF name])
  have ok: "\<not> bad_name name" "length rel + (if rel = [] then ?n else 1 + ?n) \<le> MAXPATHLEN"
      "read_components A n (if rel = [] then name else rel @ [47] @ name) s2 = (Inr rel', s')"
    using Suc.prems(1) ph n0 name by (auto simp: seq_def stop_def Let_def split: if_splits)
  have "name_ok name" using ok(1) ln n0 by (auto simp: name_ok_def bad_name_def)
  moreover have "(if rel = [] then name else rel @ [47] @ name) = join_comps (cs @ [name])"
    using Suc.prems(2,3) join_comps_Nil by (auto simp: join_comps_snoc)
  moreover have "length (if rel = [] then name else rel @ [47] @ name) \<le> MAXPATHLEN" using ok(2) ln by (auto split: if_splits)
  ultimately show ?case using Suc.IH [OF ok(3), of "cs @ [name]"] Suc.prems(3) by auto
qed

lemma confined_components [confining]: "confined S (read_components A n rel)"
  by (induction n arbitrary: rel) (auto simp: Let_def intro!: confining)

lemma name_ok_no_slash: "name_ok c \<Longrightarrow> 47 \<notin> set c"
  by (simp add: name_ok_def)

lemma parent_of_join:
  assumes "47 \<notin> set c"
  shows "parent_of (p @ [47] @ c) = p"
proof -
  have "dropWhile (\<lambda>b. b \<noteq> 47) (rev c @ 47 # rev p) = 47 # rev p"
    using assms by (subst dropWhile_append2) auto
  then show ?thesis by (simp add: parent_of_def)
qed

lemma parent_inside:
  assumes "list_all name_ok cs" "1 < length cs" "length (join_comps cs) \<le> MAXPATHLEN"
  shows "parent_of (join_path base (join_comps cs)) \<in> inside base"
proof -
  obtain xs c where cs: "cs = xs @ [c]" "xs \<noteq> []" using assms(2) by (cases cs rule: rev_cases) auto
  have j: "join_path base (join_comps cs) = join_path base (join_comps xs) @ [47] @ c"
    using cs by (auto simp: join_path_def join_comps_snoc)
  have "parent_of (join_path base (join_comps cs)) = join_path base (join_comps xs)"
    unfolding j using assms(1) cs(1) by (intro parent_of_join name_ok_no_slash) simp
  moreover have "list_all name_ok xs" "length (join_comps xs) \<le> MAXPATHLEN"
    using assms(1,3) cs by (auto simp: join_comps_snoc)
  ultimately show ?thesis using cs(2) unfolding inside_def by blast
qed

section \<open>The folder loop stays inside\<close>

lemma entry_within_disk: "read_entry_within A s = (r, s') \<Longrightarrow> disk s' = disk s"
proof -
  have a: "disk t' = disk t" if "arm_timeout b t = (x, t')" for b x and t t' :: "'a St"
    using that by (auto simp: arm_timeout_def split: prod.splits)
  have e: "disk t' = disk t" if "entry_loop A n g t = (x, t')" for n g t x t'
    using that entry_loop_disk [of A n g t] by simp
  assume "read_entry_within A s = (r, s')"
  then show ?thesis
    by (auto simp: read_entry_within_def split: prod.splits sum.splits bool.splits EntryRead.splits dest!: a e)
qed

lemma confined_next_header [confining]: "confined S (next_header A e r)"
proof (rule confinedI)
  fix s x s'
  assume "next_header A e r s = (x, s')"
  then have "disk s' = disk s"
    using htxf_read_full_disk [of A NFI_HEADER_LEN "[]" s]
    by (auto simp: next_header_def split: if_splits prod.splits EntryRead.splits FullRead.splits dest!: entry_within_disk)
  then show "changes S (disk s) (disk s')" by simp
qed

lemma confined_answer_offer [confining]: "confined S (answer_offer A E full rel)"
  by (rule confinedI)
     (auto simp: answer_offer_def Let_def split: Answer.splits prod.splits sum.splits dest!: xfer_write_disk)

lemma confined_folder_file [confining]:
  assumes "ext_local E" "full \<in> S"
  shows "confined S (recv_folder_file A E fp full rel at)"
proof -
  have "confined S (\<lambda>s. case file_recv A E (per_file_params fp full n at 0 0 0) s of
           (r, s') \<Rightarrow>
             let rv = return_code r;
                 s'' = s'\<lparr>ledger := ledger_note rel (kept_of (disk s') full (rv = 0) (was s')) (ledger s')\<rparr>
             in (if rv = 0 then Inr () else Inl rv, s''))" for n
  proof -
    have c: "confined S (file_recv A E (per_file_params fp full n at 0 0 0))"
      by (rule confined_file_recv [OF assms(1) _ assms(2)]) (simp add: per_file_params_def)
    show ?thesis
      by (rule confinedI) (auto simp: Let_def split: prod.splits dest!: confinedD [OF c])
  qed
  then show ?thesis
    unfolding recv_folder_file_def Let_def by (intro confining)
qed

lemma folder_turn_changes:
  assumes E: "ext_local E"
  shows "confined (inside base) (folder_turn A E fp base expected received)"
proof -
  have head: "confined S (\<lambda>s. case xfer_write A buf s of (Inl e, s') \<Rightarrow> (Inl EIO, s') | (Inr u, s') \<Rightarrow> (Inr u, s'))"
    for S and buf
    by (rule confinedI) (auto split: prod.splits sum.splits dest!: xfer_write_disk)
  have entry: "confined (inside base) (seq (read_components A n []) (\<lambda>rel.
        if rel = [] then stop EINVAL
        else let full = join_path base rel in
          if ftype = (1 :: u16) then create_dir_all full
          else seq (if n > 1 then create_dir_all (parent_of full) else give ()) (\<lambda>_.
               seq (answer_offer A E full rel) (\<lambda>at.
               case at of None \<Rightarrow> give () | Some pos \<Rightarrow> recv_folder_file A E fp full rel pos))))" (is "confined _ (seq _ ?k)") for n ftype
  proof (rule confinedI)
    fix s r s'
    assume run: "seq (read_components A n []) ?k s = (r, s')"
    obtain x s1 where x: "read_components A n [] s = (x, s1)" by fastforce
    have c1: "changes (inside base) (disk s) (disk s1)" by (rule confinedD [OF confined_components x])
    show "changes (inside base) (disk s) (disk s')"
    proof (cases x)
      case (Inl e)
      with run x c1 show ?thesis by (simp add: seq_def)
    next
      case (Inr rel)
      obtain cs where cs: "rel = join_comps cs" "list_all name_ok cs" "length cs = n" "length rel \<le> MAXPATHLEN"
        using read_components_ok [of A n "[]" s rel s1 "[]"] x Inr by auto
      have "confined (inside base) (?k rel)"
      proof (cases "rel = []")
        case False
        then have "cs \<noteq> []" using cs join_comps_Nil by auto
        then have full: "join_path base rel \<in> inside base" using cs unfolding inside_def by blast
        have par: "parent_of (join_path base rel) \<in> inside base" if "n > 1"
          using parent_inside [OF cs(2), of base] cs that by simp
        show ?thesis using False by (auto simp: Let_def intro!: confining full par E)
      qed (simp add: confining)
      moreover have "?k rel s1 = (r, s')" using run x Inr by (simp add: seq_def)
      ultimately show ?thesis using changes_trans [OF c1] confinedD by blast
    qed
  qed
  show ?thesis
    unfolding folder_turn_def Let_def [of "from_be16 _ _"] Let_def [of "unat _"]
    by (intro confined_seq head confined_next_header entry)
qed

lemma folder_loop_changes:
  "ext_local E \<Longrightarrow> changes (inside base) (disk s) (disk (snd (folder_loop A E fp base expected received s)))"
proof (induction A E fp base expected received s rule: folder_loop.induct)
  case (1 A E fp base expected received s)
  obtain r s1 where r: "folder_turn A E fp base expected received s = (r, s1)" by fastforce
  have c: "changes (inside base) (disk s) (disk s1)" by (rule confinedD [OF folder_turn_changes [OF "1.prems"] r])
  show ?case
    using c changes_trans [OF c] "1.IH" [OF r [symmetric] _ "1.prems"]
    by (subst folder_loop.simps) (auto simp: r split: sum.split)
qed


text \<open>A server that offers one file named by two components; the first may climb out.\<close>

definition toy_offer :: "bytes \<Rightarrow> bytes" where
  "toy_offer dirname =
     [0, 12, 0, 0, 0, 2] @ [0, 0, of_nat (length dirname)] @ dirname @ [0, 0, 1, 97]"

lemma toy_ext_local: "ext_local toy_ext"
  by (auto simp: ext_local_def toy_ext_def changes_def update_conv')


section \<open>Resuming inside a folder\<close>

text \<open>
  A file is resumed only at the end of its local copy, with the description of the server's file that
  \<open>data_from\<close> checks the rest against.
\<close>

lemma resume_at_local_end:
  assumes "answer_offer A E full rel s = (Inr (Some pos), s')" "pos \<noteq> 0"
  shows "\<exists>f. map_of (files (disk s)) full = Some f \<and> pos = of_nat (length (content f)) \<and> was s' \<noteq> None"
proof -
  obtain data where data: "answer (map_of (ledger s) rel) (kept_of (disk s) full False None) = Resume data" "pos = ucast data"
      "was s' = (case map_of (ledger s) rel of Some k \<Rightarrow> kept_filp k | None \<Rightarrow> None)"
    using assms by (auto simp: answer_offer_def Let_def split: Answer.splits prod.splits sum.splits)
  then obtain k n where k: "map_of (ledger s) rel = Some k" "kept_of (disk s) full False None = Some n"
      "kept_len k = kept_len n" "kept_filp k \<noteq> None" "unat (kept_len k) < 2 ^ 32" "data = ucast (kept_len k)"
    by (auto simp: answer_def split: option.splits if_splits)
  have "pos = kept_len k"
    unfolding data(2) k(6) using k(5)
    by (simp add: word_unat_eq_iff unsigned_ucast_eq unsigned_take_bit_eq take_bit_nat_eq_self)
  then show ?thesis using k data(3) by (auto simp: kept_of_def)
qed

text \<open>An upload never splices two versions of a file: where the server asks for the rest of a file
  whose length or time differ from what was offered before, or for more than there is, nothing is
  written, nothing is recorded, and the folder is asked for again from the start.\<close>

theorem changed_file_not_spliced:
  assumes "deny (disk s) full = None" "map_of (files (disk s)) full = Some md" "dpos + rpos \<noteq> 0"
    and "(\<exists>o0. map_of (up_files (uploads s)) rel = Some o0 \<and> o0 \<noteq> offered_of md) \<or>
      dpos > of_nat (length (content md)) \<or> rpos > resource_len E (disk s) full"
  shows "send_folder_file A E fp full rel sk dpos rpos s = (Inl HXNET_XFER_CHANGED, s)"
  using assms by (auto simp: send_folder_file_def Let_def seq_def get_disk_def or_stop_def give_def)

definition toy_resent :: "nat St" where
  "toy_resent = (toy_worker toy_disk [])\<lparr>uploads := \<lparr>up_files = [([97], \<lparr>off_len = 2, off_modified = 0\<rparr>)],
     up_folders = [], up_unsure = []\<rparr>\<rparr>"

theorem changed_file_not_spliced_witness:
  "send_folder_file toy_aead toy_ext toy_folder [97] [97] False 2 0 toy_resent = (Inl HXNET_XFER_CHANGED, toy_resent)"
  by (rule changed_file_not_spliced [where md = "\<lparr>content = [1, 2, 3], modified = 0\<rparr>"])
     (simp_all add: toy_resent_def toy_disk_forks, simp_all add: toy_disk_def offered_of_def)

end
