(* ===== verification/Xfer_Queue.thy ===== *)
theory Xfer_Queue
  imports Xfer_Folder
begin

text \<open>
  The registry of file transfers (crate \<open>hxhandlers\<close>, \<open>xfer.rs\<close>, \<open>recv/xfer.rs\<close>, and the transfer replies of
  \<open>recv/files.rs\<close>; crate \<open>hxnet\<close>, \<open>xfer_handle.rs\<close>): the list of transfers, their queue, pauses, retries and
  reference counts, and the workers of \<open>Xfer\<close> and \<open>Xfer_Folder\<close> that they run.

  A transfer handle is a number; the statics of the source are the fields of one record, lists of pairs
  where the source has them.  The sources waiting on the main loop are lists of handles: posted progress
  updates, workers that returned, queue retries and retry timers.  Replies in flight are keyed by
  connection and transaction, as the source keys them.  A worker runs in one step, when it returns: the
  main thread changes nothing it reads meanwhile, and a cancellation reaches it through its connection.
\<close>

type_synonym hid = nat

section \<open>State\<close>

record Disk =
  d_len :: int
  d_modified :: "nat option"

definition FOLDER_KEPT :: Disk where
  "FOLDER_KEPT = \<lparr>d_len = 0, d_modified = None\<rparr>"

datatype Pause =
    Winding | Paused Disk | PAsked Disk | Restarted Disk | PChanged Disk | PFailed Disk int

datatype Stop = StopChanged | StopAgain | StopReoffer

record FolderRun =
  fr_ledger :: FolderLedger
  fr_sent :: UploadLedger
  fr_finished :: bool
  fr_resumed :: bool
  fr_stop :: "Stop option"
  fr_again :: nat
  fr_reoffered :: bool

definition no_uploads :: UploadLedger where
  "no_uploads = \<lparr>up_files = [], up_folders = [], up_unsure = []\<rparr>"

definition default_run :: FolderRun where
  "default_run = \<lparr>fr_ledger = [], fr_sent = no_uploads, fr_finished = False, fr_resumed = False,
     fr_stop = None, fr_again = 0, fr_reoffered = False\<rparr>"

record Handle =
  h_htlc :: nat
  h_get :: bool
  opt_is_folder :: bool
  opt_is_preview :: bool
  opt_is_large :: bool
  opt_retry :: bool
  h_path :: path
  h_ref :: u32
  h_gone :: bool
  h_queue :: u32
  total_size :: u64
  total_pos :: u64
  h_data_pos :: u64
  h_rsrc_pos :: u64
  h_data_size :: u64
  h_rsrc_size :: u64
  srv_data_size :: u64
  refcount :: int
  canceled :: bool
  abort_fired :: bool
  h_freed :: bool

text \<open>The zeroed handle.\<close>

definition hx_htxf_new :: Handle where
  "hx_htxf_new = \<lparr>h_htlc = 0, h_get = True, opt_is_folder = False, opt_is_preview = False,
     opt_is_large = False, opt_retry = False, h_path = [], h_ref = 0, h_gone = False, h_queue = 0,
     total_size = 0, total_pos = 0, h_data_pos = 0, h_rsrc_pos = 0, h_data_size = 0, h_rsrc_size = 0,
     srv_data_size = 0, refcount = 0, canceled = False, abort_fired = False, h_freed = False\<rparr>"

text \<open>A request in flight and the transfer its reply goes to, and whether that is a folder's.\<close>

datatype Asked = Download hid bool | Upload hid bool

fun asked_hid :: "Asked \<Rightarrow> hid" where
  "asked_hid (Download i f) = i"
| "asked_hid (Upload i f) = i"

datatype Req =
    FileGet hid "(u32 \<times> u32) option" | FilePut hid u32 "u64 option" bool | GetFolder hid | PutFolder hid u64 u32 bool

datatype Out =
    FileUpdate hid | XferDestroyed hid | XferQueue hid | Sent Req | TasksFailed hid int int | Chime | TaskDeleted hid

record Registry =
  handles :: "hid \<Rightarrow> Handle"
  next_hid :: hid
  xfers :: "hid list"
  pauses :: "(hid \<times> Pause) list"
  working :: "hid list"
  queued_tries :: "(hid \<times> nat) list"
  held_bytes :: "(hid \<times> u64) list"
  failures :: "(hid \<times> Failure) list"
  item_counts :: "(hid \<times> (u32 \<times> u64)) list"
  folder_runs :: "(hid \<times> FolderRun) list"
  in_flight :: "((nat \<times> nat) \<times> Asked) list"
  next_trans :: nat
  posted :: "hid list"
  returned :: "hid list"
  retries :: "hid list"
  go_timers :: "hid list"
  qdisk :: Fs
  outs :: "Out list"

text \<open>
  What surrounds the registry: the preference to queue downloads, the large-file capability of a
  connection, the request builders (whether they give a request for a transfer), the renaming of
  a taken local name, the local tree under a path, how much a preview wants, and the parameters of the
  workers.
\<close>

record 's Env =
  prefs_queuedl :: bool
  cap_large :: "nat \<Rightarrow> bool"
  builds :: "Handle \<Rightarrow> bool"
  uniquify :: "Fs \<Rightarrow> path \<Rightarrow> path"
  local_tree :: "Fs \<Rightarrow> path \<Rightarrow> (bytes \<times> LocalTree) list"
  preview_wants :: "u64 \<Rightarrow> u64"
  env_aead :: "'s Aead"
  env_ext :: Ext

section \<open>Small operations\<close>

definition set_assoc :: "'k \<Rightarrow> 'v option \<Rightarrow> ('k \<times> 'v) list \<Rightarrow> ('k \<times> 'v) list" where
  "set_assoc k v xs = filter (\<lambda>e. fst e \<noteq> k) xs @ (case v of Some x \<Rightarrow> [(k, x)] | None \<Rightarrow> [])"

text \<open>\<open>swap_remove\<close> of the first entry, up to the order of the rest.\<close>

fun remove_first :: "'k \<Rightarrow> ('k \<times> 'v) list \<Rightarrow> ('k \<times> 'v) list" where
  "remove_first k [] = []"
| "remove_first k (e # es) = (if fst e = k then es else e # remove_first k es)"

fun update_first :: "'k \<Rightarrow> ('v \<Rightarrow> 'v) \<Rightarrow> ('k \<times> 'v) list \<Rightarrow> ('k \<times> 'v) list" where
  "update_first k f [] = []"
| "update_first k f (e # es) = (if fst e = k then (k, f (snd e)) # es else e # update_first k f es)"

definition on_handle :: "hid \<Rightarrow> (Handle \<Rightarrow> Handle) \<Rightarrow> Registry \<Rightarrow> Registry" where
  "on_handle i f q = q\<lparr>handles := (handles q)(i := f (handles q i))\<rparr>"

definition emit :: "Out \<Rightarrow> Registry \<Rightarrow> Registry" where
  "emit x q = q\<lparr>outs := outs q @ [x]\<rparr>"

definition pause_of :: "Registry \<Rightarrow> hid \<Rightarrow> Pause option" where
  "pause_of q i = map_of (pauses q) i"

definition set_pause :: "hid \<Rightarrow> Pause option \<Rightarrow> Registry \<Rightarrow> Registry" where
  "set_pause i p q = q\<lparr>pauses := set_assoc i p (pauses q)\<rparr>"

definition tries_of :: "Registry \<Rightarrow> hid \<Rightarrow> nat option" where
  "tries_of q i = map_of (queued_tries q) i"

definition set_tries :: "hid \<Rightarrow> nat option \<Rightarrow> Registry \<Rightarrow> Registry" where
  "set_tries i n q = q\<lparr>queued_tries := set_assoc i n (queued_tries q)\<rparr>"

definition set_held :: "hid \<Rightarrow> u64 option \<Rightarrow> Registry \<Rightarrow> Registry" where
  "set_held i n q = q\<lparr>held_bytes := set_assoc i n (held_bytes q)\<rparr>"

definition folder_held :: "Registry \<Rightarrow> hid \<Rightarrow> u64" where
  "folder_held q i = (case map_of (held_bytes q) i of Some n \<Rightarrow> n | None \<Rightarrow> 0)"

fun pause_shown :: "Pause option \<Rightarrow> bool" where
  "pause_shown (Some Winding) = True"
| "pause_shown (Some (Paused k)) = True"
| "pause_shown (Some (PChanged k)) = True"
| "pause_shown (Some (PFailed k w)) = True"
| "pause_shown p = False"

definition paused :: "Registry \<Rightarrow> hid \<Rightarrow> bool" where
  "paused q i = pause_shown (pause_of q i)"

definition hx_file_size :: "Fs \<Rightarrow> path \<Rightarrow> int" where
  "hx_file_size d p = (case map_of (files d) p of Some f \<Rightarrow> int (length (content f)) | None \<Rightarrow> - 1)"

definition disk_of :: "Fs \<Rightarrow> path \<Rightarrow> Disk" where
  "disk_of d p = \<lparr>d_len = hx_file_size d p, d_modified = map_option modified (map_of (files d) p)\<rparr>"

definition with_folder_run :: "hid \<Rightarrow> (FolderRun \<Rightarrow> FolderRun) \<Rightarrow> Registry \<Rightarrow> Registry" where
  "with_folder_run i f q = q\<lparr>folder_runs := update_first i f (folder_runs q)\<rparr>"

definition take_folder_run :: "hid \<Rightarrow> Registry \<Rightarrow> FolderRun \<times> Registry" where
  "take_folder_run i q =
     (case map_of (folder_runs q) i of
        Some r \<Rightarrow> (r, q\<lparr>folder_runs := remove_first i (folder_runs q)\<rparr>)
      | None \<Rightarrow> (default_run, q))"

definition put_folder_run :: "hid \<Rightarrow> FolderRun \<Rightarrow> Registry \<Rightarrow> Registry" where
  "put_folder_run i r q = q\<lparr>folder_runs := folder_runs q @ [(i, r)]\<rparr>"

definition folder_finished :: "Registry \<Rightarrow> hid \<Rightarrow> bool" where
  "folder_finished q i = (case map_of (folder_runs q) i of Some r \<Rightarrow> fr_finished r | None \<Rightarrow> False)"

definition take_folder_stop :: "hid \<Rightarrow> Registry \<Rightarrow> Stop option \<times> Registry" where
  "take_folder_stop i q =
     ((case map_of (folder_runs q) i of Some r \<Rightarrow> fr_stop r | None \<Rightarrow> None),
      with_folder_run i (\<lambda>r. r\<lparr>fr_stop := None\<rparr>) q)"

definition remember_folder_items :: "hid \<Rightarrow> u32 \<Rightarrow> u64 \<Rightarrow> Registry \<Rightarrow> Registry" where
  "remember_folder_items i n bytes q = q\<lparr>item_counts := set_assoc i (Some (n, bytes)) (item_counts q)\<rparr>"

definition take_folder_items :: "hid \<Rightarrow> Registry \<Rightarrow> (u32 \<times> u64) \<times> Registry" where
  "take_folder_items i q =
     (case map_of (item_counts q) i of
        Some x \<Rightarrow> (x, q\<lparr>item_counts := remove_first i (item_counts q)\<rparr>)
      | None \<Rightarrow> ((0, 0), q))"

definition note_failure :: "hid \<Rightarrow> Failure option \<Rightarrow> Registry \<Rightarrow> Registry" where
  "note_failure i f q = (case f of Some why \<Rightarrow> q\<lparr>failures := failures q @ [(i, why)]\<rparr> | None \<Rightarrow> q)"

definition take_failure :: "hid \<Rightarrow> Registry \<Rightarrow> Failure option \<times> Registry" where
  "take_failure i q =
     (case map_of (failures q) i of
        Some why \<Rightarrow> (Some why, q\<lparr>failures := remove_first i (failures q)\<rparr>)
      | None \<Rightarrow> (None, q))"

section \<open>References\<close>

definition hx_htxf_ref :: "hid \<Rightarrow> Registry \<Rightarrow> Registry" where
  "hx_htxf_ref i = on_handle i (\<lambda>h. h\<lparr>refcount := refcount h + 1\<rparr>)"

text \<open>The last reference runs the destructor, which forgets the transfer's side tables, and frees it.\<close>

definition htxf_destructor :: "hid \<Rightarrow> Registry \<Rightarrow> Registry" where
  "htxf_destructor i q = snd (take_folder_run i (snd (take_folder_items i q)))"

definition hx_htxf_unref :: "hid \<Rightarrow> Registry \<Rightarrow> Registry" where
  "hx_htxf_unref i q =
     (let q1 = on_handle i (\<lambda>h. h\<lparr>refcount := refcount h - 1\<rparr>) q in
      if refcount (handles q i) \<noteq> 1 then q1
      else on_handle i (\<lambda>h. h\<lparr>h_freed := True\<rparr>) (htxf_destructor i q1))"

definition post_file_update :: "hid \<Rightarrow> Registry \<Rightarrow> Registry" where
  "post_file_update i q = (hx_htxf_ref i q)\<lparr>posted := posted q @ [i]\<rparr>"

definition fu_dispatch :: "hid \<Rightarrow> Registry \<Rightarrow> Registry" where
  "fu_dispatch i q =
     hx_htxf_unref i (if canceled (handles q i) then q else emit (FileUpdate i) q)"

section \<open>The list\<close>

definition xfer_num :: "Registry \<Rightarrow> hid \<Rightarrow> nat option" where
  "xfer_num q i = (if i \<in> set (xfers q) then Some (length (takeWhile (\<lambda>e. e \<noteq> i) (xfers q))) else None)"

definition swap_at :: "nat \<Rightarrow> 'a list \<Rightarrow> 'a list" where
  "swap_at n xs = xs[n := xs ! (n + 1), n + 1 := xs ! n]"

definition xfer_up :: "nat \<Rightarrow> Registry \<Rightarrow> Registry" where
  "xfer_up n q = (if 1 \<le> n \<and> n < length (xfers q) then q\<lparr>xfers := swap_at (n - 1) (xfers q)\<rparr> else q)"

definition xfer_down :: "nat \<Rightarrow> Registry \<Rightarrow> bool \<times> Registry" where
  "xfer_down n q =
     (if n + 1 \<ge> length (xfers q) then (True, q) else (False, q\<lparr>xfers := swap_at n (xfers q)\<rparr>))"

definition htxf_with_ref :: "Registry \<Rightarrow> nat \<Rightarrow> u32 \<Rightarrow> hid option" where
  "htxf_with_ref q htlc r = find (\<lambda>e. h_htlc (handles q e) = htlc \<and> h_ref (handles q e) = r) (xfers q)"

section \<open>Pausing\<close>

definition resumable :: "Registry \<Rightarrow> hid \<Rightarrow> bool" where
  "resumable q i =
     (let h = handles q i in
      if h_get h then \<not> opt_is_preview h
      else opt_is_folder h \<or> unat (total_size h) < 2 ^ 32)"

definition xfer_can_pause :: "Registry \<Rightarrow> hid \<Rightarrow> bool" where
  "xfer_can_pause q i \<longleftrightarrow> resumable q i \<and> i \<in> set (working q) \<and> pause_of q i = None"

definition xfer_can_start :: "Registry \<Rightarrow> hid \<Rightarrow> bool" where
  "xfer_can_start q i \<longleftrightarrow>
     \<not> h_gone (handles q i) \<and> pause_of q i = None \<and> \<not> opt_is_folder (handles q i) \<or>
     (case pause_of q i of Some (Paused k) \<Rightarrow> True | Some (PFailed k w) \<Rightarrow> True | _ \<Rightarrow> False)"

definition xfer_paused :: "Registry \<Rightarrow> hid \<Rightarrow> int" where
  "xfer_paused q i =
     (case pause_of q i of
        Some (PChanged k) \<Rightarrow> 2 + (if opt_is_folder (handles q i) then 1 else 0)
      | Some (PFailed k why) \<Rightarrow> 5 + why
      | Some (Paused k) \<Rightarrow>
          if (case map_of (folder_runs q) i of Some r \<Rightarrow> fr_reoffered r | None \<Rightarrow> False) then 4 else 1
      | p \<Rightarrow> if pause_shown p then 1 else 0)"

definition xfer_resumed_bytes :: "Registry \<Rightarrow> hid \<Rightarrow> u64" where
  "xfer_resumed_bytes q i =
     (let h = handles q i in
      if \<not> opt_is_folder h then h_data_pos h + h_rsrc_pos h
      else if h_get h then folder_held q i else 0)"

definition xfer_pause :: "hid \<Rightarrow> Registry \<Rightarrow> Registry" where
  "xfer_pause i q =
     (if xfer_can_pause q i
      then emit (FileUpdate i) (on_handle i (\<lambda>h. h\<lparr>abort_fired := True\<rparr>) (set_pause i (Some Winding) q))
      else q)"

section \<open>Requests\<close>

definition expect_transfer :: "nat \<Rightarrow> Asked \<Rightarrow> Registry \<Rightarrow> Registry" where
  "expect_transfer htlc w q =
     (hx_htxf_ref (asked_hid w) q)\<lparr>in_flight := ((htlc, next_trans q), w) # in_flight q, next_trans := next_trans q + 1\<rparr>"

definition send_request :: "'s Env \<Rightarrow> Asked \<Rightarrow> Req \<Rightarrow> Registry \<Rightarrow> Registry" where
  "send_request V w r q =
     (let h = handles q (asked_hid w) in
      if builds V h then emit (Sent r) (expect_transfer (h_htlc h) w q) else q)"

text \<open>Resume, rename or start afresh; whether it resumes.\<close>

definition local_target :: "'s Env \<Rightarrow> hid \<Rightarrow> Disk option \<Rightarrow> Registry \<Rightarrow> bool \<times> Registry" where
  "local_target V i kept q =
     (let h = handles q i; d = qdisk q; sz = hx_file_size d (h_path h) in
      if opt_is_preview h \<or> sz < 0 then (False, q)
      else let local_data = of_int sz :: u32;
               ours = (kept = Some (disk_of d (h_path h)) \<and> sz < 2 ^ 32)
        in if ours \<and> sz = 0 then (False, q)
           else if ours \<or> srv_data_size h > 0 \<and> ucast local_data < srv_data_size h
           then (True, on_handle i (\<lambda>h. h\<lparr>h_data_pos := ucast local_data,
                   h_rsrc_pos := resource_len (env_ext V) d (h_path h)\<rparr>) q)
           else (False, on_handle i (\<lambda>h. h\<lparr>h_path := uniquify V d (h_path h)\<rparr>) q))"

definition xfer_go_get :: "'s Env \<Rightarrow> hid \<Rightarrow> Disk option \<Rightarrow> Registry \<Rightarrow> Registry" where
  "xfer_go_get V i kept q =
     (case local_target V i kept q of
        (resuming, q1) \<Rightarrow>
          let h = handles q1 i;
              rflt = (if resuming then Some (ucast (h_data_pos h), ucast (h_rsrc_pos h)) else None)
          in send_request V (Download i False) (FileGet i rflt) q1)"

definition xfer_go_put :: "'s Env \<Rightarrow> hid \<Rightarrow> u64 option \<Rightarrow> Registry \<Rightarrow> Registry" where
  "xfer_go_put V i resume q =
     (let h = handles q i;
          bytes = (case resume of Some n \<Rightarrow> n | None \<Rightarrow> total_size h);
          size64 = (if cap_large V (h_htlc h) then Some bytes else None)
      in send_request V (Upload i False)
           (FilePut i (ucast (min bytes 0xFFFFFFFF)) size64 (resume \<noteq> None)) q)"

definition ask_folder :: "'s Env \<Rightarrow> hid \<Rightarrow> Registry \<Rightarrow> Registry" where
  "ask_folder V i = send_request V (Download i True) (GetFolder i)"

definition ask_put_folder :: "'s Env \<Rightarrow> hid \<Rightarrow> UploadLedger option \<Rightarrow> Registry \<Rightarrow> bool \<times> Registry" where
  "ask_put_folder V i sent q =
     (let h = handles q i; d = qdisk q in
      case put_totals d (h_path h) (local_tree V d (h_path h)) sent of
        (bytes, n) \<Rightarrow>
          if sent \<noteq> None \<and> n = 0 then (False, q)
          else (True, send_request V (Upload i True) (PutFolder i bytes n (sent \<noteq> None))
                  (on_handle i (\<lambda>h. h\<lparr>total_size := max 1 (min bytes 0xFFFFFFFF)\<rparr>) q)))"

definition folder_held_on_disk :: "Registry \<Rightarrow> hid \<Rightarrow> u64" where
  "folder_held_on_disk q i =
     (case map_of (folder_runs q) i of
        Some r \<Rightarrow> of_nat (ledger_held (qdisk q) (h_path (handles q i)) (fr_ledger r)) | None \<Rightarrow> 0)"

fun settled_kept :: "Pause option \<Rightarrow> Disk option" where
  "settled_kept (Some (Paused k)) = Some k"
| "settled_kept (Some (PFailed k w)) = Some k"
| "settled_kept p = None"

text \<open>
  \<open>resume_folder\<close> up to its last step: False where every folder is made and no file is left, and the
  transfer is to be unlinked.
\<close>

definition resume_upload :: "'s Env \<Rightarrow> hid \<Rightarrow> Disk \<Rightarrow> Registry \<Rightarrow> bool \<times> Registry" where
  "resume_upload V i kept q =
     (let run = map_of (folder_runs q) i in
      if (case run of Some r \<Rightarrow> upload_changed (qdisk q) (h_path (handles q i)) (fr_sent r) | None \<Rightarrow> False)
      then (True, emit (FileUpdate i) (set_pause i (Some (PChanged kept)) q))
      else let q1 = on_handle i (\<lambda>h. h\<lparr>total_pos := 0\<rparr>) (set_pause i (Some (PAsked kept)) q) in
        case (case run of
                Some r \<Rightarrow> ask_put_folder V i (Some (fr_sent r))
                  (with_folder_run i (\<lambda>r. r\<lparr>fr_resumed := True, fr_reoffered := False\<rparr>) q1)
              | None \<Rightarrow> ask_put_folder V i (Some no_uploads) q1) of
          (True, q2) \<Rightarrow> (True, emit (FileUpdate i) q2)
        | (False, q2) \<Rightarrow> (False, set_pause i None q2))"

definition resume_download :: "'s Env \<Rightarrow> hid \<Rightarrow> Disk \<Rightarrow> Registry \<Rightarrow> Registry" where
  "resume_download V i kept q =
     (let q1 = set_pause i (Some (PAsked kept)) q;
          q2 = on_handle i (\<lambda>h. h\<lparr>total_pos := 0\<rparr>) (set_held i (Some (folder_held_on_disk q1 i)) q1)
      in emit (FileUpdate i) (ask_folder V i q2))"

definition resume_ask :: "'s Env \<Rightarrow> hid \<Rightarrow> Registry \<Rightarrow> bool \<times> Registry" where
  "resume_ask V i q =
     (case settled_kept (pause_of q i) of
        None \<Rightarrow> (True, q)
      | Some kept \<Rightarrow>
          if h_get (handles q i) then (True, resume_download V i kept q) else resume_upload V i kept q)"

text \<open>\<open>xfer_go\<close> of a single file.\<close>

definition go_request :: "'s Env \<Rightarrow> hid \<Rightarrow> Disk option \<Rightarrow> u64 option \<Rightarrow> Registry \<Rightarrow> Registry" where
  "go_request V i kept full q =
     (if h_gone (handles q i) then q
      else let q1 = on_handle i (\<lambda>h. h\<lparr>h_gone := True\<rparr>) q in
        if h_get (handles q1 i)
        then let q2 = xfer_go_get V i kept q1 in
          (case full of
             None \<Rightarrow> q2
           | Some n \<Rightarrow>
               let got = xfer_resumed_bytes q2 i; left = (if got \<le> n then n - got else 0) in
               emit (FileUpdate i) (on_handle i (\<lambda>h. h\<lparr>total_size := max 1 left\<rparr>) q2))
        else let q2 = xfer_go_put V i full q1 in
          (case full of
             None \<Rightarrow> q2
           | Some n \<Rightarrow> emit (FileUpdate i) (on_handle i (\<lambda>h. h\<lparr>total_size := max n 1\<rparr>) q2)))"

definition xfer_go_file :: "'s Env \<Rightarrow> hid \<Rightarrow> Registry \<Rightarrow> Registry" where
  "xfer_go_file V i q =
     (case pause_of q i of
        None \<Rightarrow> go_request V i None None q
      | Some p \<Rightarrow>
          (case settled_kept (Some p) of
             None \<Rightarrow> q
           | Some kept \<Rightarrow>
               if \<not> h_get (handles q i) \<and> kept \<noteq> disk_of (qdisk q) (h_path (handles q i))
               then emit (FileUpdate i) (set_pause i (Some (PChanged kept)) q)
               else let full = total_size (handles q i) + xfer_resumed_bytes q i;
                        q1 = on_handle i (\<lambda>h. h\<lparr>h_gone := False, h_data_pos := 0, h_rsrc_pos := 0, total_pos := 0\<rparr>)
                          (set_pause i (Some (PAsked kept)) q)
                 in go_request V i (Some kept) (Some full) q1))"

text \<open>\<open>xfer_remove_from_list\<close> up to the next transfer's turn.\<close>

definition unlink :: "hid \<Rightarrow> Registry \<Rightarrow> Registry" where
  "unlink i q =
     hx_htxf_unref i (set_held i None (set_tries i None (set_pause i None
       (emit (XferDestroyed i) (q\<lparr>xfers := remove1 i (xfers q)\<rparr>)))))"

lemmas registry_ops = on_handle_def emit_def set_pause_def set_tries_def set_held_def with_folder_run_def
  hx_htxf_ref_def hx_htxf_unref_def htxf_destructor_def take_folder_run_def take_folder_items_def
  expect_transfer_def send_request_def

lemma xfers_unlink [simp]: "xfers (unlink i q) = remove1 i (xfers q)"
  by (simp add: unlink_def registry_ops Let_def split: option.split)

lemma xfers_resume_ask [simp]: "xfers (snd (resume_ask V i q)) = xfers q"
  by (simp add: resume_ask_def resume_download_def resume_upload_def ask_folder_def ask_put_folder_def registry_ops
      Let_def split: option.split prod.split bool.split)

lemma unlink_less: "i \<in> set (xfers q) \<Longrightarrow> length (xfers (unlink i q)) < length (xfers q)"
  by (simp add: length_remove1) (metis length_pos_if_in_set One_nat_def diff_less zero_less_one)

section \<open>The queue moving on\<close>

function start_next :: "'s Env \<Rightarrow> Registry \<Rightarrow> Registry"
  and xfer_go :: "'s Env \<Rightarrow> hid \<Rightarrow> Registry \<Rightarrow> Registry"
  and resume_folder :: "'s Env \<Rightarrow> hid \<Rightarrow> Registry \<Rightarrow> Registry"
  and xfer_remove_from_list :: "'s Env \<Rightarrow> hid \<Rightarrow> Registry \<Rightarrow> Registry" where
  "start_next V q =
     (case find (\<lambda>e. \<not> paused q e) (xfers q) of
        None \<Rightarrow> q
      | Some i \<Rightarrow>
          let q1 = xfer_go V i q in
          if \<not> h_gone (handles q i) \<and> h_gone (handles q1 i) \<and> tries_of q1 i = None
          then set_tries i (Some 0) q1 else q1)"
| "xfer_go V i q = (if opt_is_folder (handles q i) then resume_folder V i q else xfer_go_file V i q)"
| "resume_folder V i q =
     (case resume_ask V i q of
        (True, q1) \<Rightarrow> q1
      | (False, q1) \<Rightarrow> xfer_remove_from_list V i q1)"
| "xfer_remove_from_list V i q =
     (if i \<in> set (xfers q) then start_next V (unlink i q) else q)"
  by pat_completeness auto
termination
  by (relation "measure (\<lambda>x. case x of
        Inl (Inl (V, q)) \<Rightarrow> 4 * length (xfers q) + 3
      | Inl (Inr (V, i, q)) \<Rightarrow> 4 * length (xfers q) + 2
      | Inr (Inl (V, i, q)) \<Rightarrow> 4 * length (xfers q) + 1
      | Inr (Inr (V, i, q)) \<Rightarrow> 4 * length (xfers q))")
    (auto dest: unlink_less arg_cong [of _ _ snd] simp del: xfers_unlink)

declare start_next.simps [simp del] xfer_go.simps [simp del] resume_folder.simps [simp del]
  xfer_remove_from_list.simps [simp del]

section \<open>Ending, pausing and failing\<close>

definition xfer_delete :: "'s Env \<Rightarrow> hid \<Rightarrow> Registry \<Rightarrow> Registry" where
  "xfer_delete V i q =
     xfer_remove_from_list V i (on_handle i (\<lambda>h. h\<lparr>canceled := True, abort_fired := True\<rparr>) q)"

definition xfers_delete_on_conn :: "'s Env \<Rightarrow> nat \<Rightarrow> Registry \<Rightarrow> Registry" where
  "xfers_delete_on_conn V htlc q =
     fold (xfer_delete V) (filter (\<lambda>e. h_htlc (handles q e) = htlc) (xfers q)) q"

definition cancel_and_unref :: "hid \<Rightarrow> Registry \<Rightarrow> Registry" where
  "cancel_and_unref i q =
     hx_htxf_unref i (on_handle i (\<lambda>h. h\<lparr>canceled := True, abort_fired := True\<rparr>) q)"

definition xfers_delete_all :: "Registry \<Rightarrow> Registry" where
  "xfers_delete_all q =
     fold cancel_and_unref (xfers q) (q\<lparr>xfers := [], pauses := [], queued_tries := [], held_bytes := []\<rparr>)"

definition hold :: "'s Env \<Rightarrow> hid \<Rightarrow> (Disk \<Rightarrow> Pause) \<Rightarrow> Registry \<Rightarrow> Registry" where
  "hold V i f q =
     (let h = handles q i;
          kept = (if opt_is_folder h then FOLDER_KEPT else disk_of (qdisk q) (h_path h))
      in start_next V (emit (FileUpdate i) (set_pause i (Some (f kept))
           (on_handle i (\<lambda>h. h\<lparr>abort_fired := False\<rparr>) q))))"

definition AGAIN_TRIES :: nat where "AGAIN_TRIES = 8"

text \<open>A folder upload that stopped by itself: asked for again, or kept as paused or changed.\<close>

definition settle_stop :: "'s Env \<Rightarrow> hid \<Rightarrow> Stop \<Rightarrow> Registry \<Rightarrow> Registry" where
  "settle_stop V i stp q =
     (let has_run = (map_of (folder_runs q) i \<noteq> None);
          q1 = (if stp = StopAgain then with_folder_run i (\<lambda>r. r\<lparr>fr_again := fr_again r + 1\<rparr>) q else q);
          again = (stp = StopAgain \<and> has_run \<and>
            (case map_of (folder_runs q1) i of Some r \<Rightarrow> fr_again r \<le> AGAIN_TRIES | None \<Rightarrow> False));
          q2 = set_pause i (Some (if stp = StopChanged then PChanged FOLDER_KEPT else Paused FOLDER_KEPT)) q1
      in if again then resume_folder V i q2
         else start_next V (emit (FileUpdate i)
           (with_folder_run i (\<lambda>r. r\<lparr>fr_again := 0, fr_reoffered := (stp = StopReoffer)\<rparr>) q2)))"

definition settle_pause :: "'s Env \<Rightarrow> hid \<Rightarrow> Registry \<Rightarrow> bool \<times> Registry" where
  "settle_pause V i q =
     (if pause_of q i \<noteq> Some Winding
      then (case take_folder_stop i q of
              (None, q1) \<Rightarrow> (False, q1)
            | (Some stp, q1) \<Rightarrow>
                if xfer_num q1 i = None \<or> canceled (handles q1 i) then (False, q1)
                else (True, settle_stop V i stp q1))
      else if (if opt_is_folder (handles q i) then folder_finished q i
               else total_size (handles q i) \<le> total_pos (handles q i))
      then (False, set_pause i None q)
      else (True, hold V i Paused q))"

definition failure_code :: "bool \<Rightarrow> Failure \<Rightarrow> int \<times> int" where
  "failure_code folder f =
     (case f of
        Unreachable \<Rightarrow> (0, 0) | Stalled \<Rightarrow> (1, 0) | Lost \<Rightarrow> (2, 0) | Local e \<Rightarrow> (3, e)
      | Larger \<Rightarrow> (4 + (if folder then 1 else 0), 0))"

definition tell_failed :: "hid \<Rightarrow> Failure \<Rightarrow> Registry \<Rightarrow> int \<times> Registry" where
  "tell_failed i f q =
     (case failure_code (opt_is_folder (handles q i)) f of
        (why, err) \<Rightarrow> (why, emit (TasksFailed i why err) q))"

definition settle_failed :: "'s Env \<Rightarrow> hid \<Rightarrow> Failure option \<Rightarrow> Registry \<Rightarrow> Registry" where
  "settle_failed V i failed q =
     (case (if canceled (handles q i) then None else failed) of
        None \<Rightarrow> xfer_remove_from_list V i q
      | Some f \<Rightarrow>
          (case tell_failed i f q of
             (why, q1) \<Rightarrow>
               if may_retry f \<and> resumable q i \<and> xfer_num q i \<noteq> None
               then hold V i (\<lambda>kept. PFailed kept why) q1
               else xfer_remove_from_list V i q1))"

definition xfer_cleanup_dispatch :: "'s Env \<Rightarrow> hid \<Rightarrow> Registry \<Rightarrow> Registry" where
  "xfer_cleanup_dispatch V i q =
     (case take_failure i (q\<lparr>working := filter (\<lambda>e. e \<noteq> i) (working q)\<rparr>) of
        (failed, q1) \<Rightarrow>
          (case settle_pause V i q1 of
             (True, q2) \<Rightarrow> hx_htxf_unref i q2
           | (False, q2) \<Rightarrow> hx_htxf_unref i (settle_failed V i failed q2)))"

section \<open>Replies\<close>

definition answered :: "hid \<Rightarrow> Registry \<Rightarrow> Registry" where
  "answered i q =
     (let q1 = (case pause_of q i of
                  Some (PAsked k) \<Rightarrow> set_pause i None q
                | Some (Restarted k) \<Rightarrow> snd (take_folder_run i (set_pause i None q))
                | _ \<Rightarrow> q)
      in set_tries i None q1)"

text \<open>True where the refusal is dealt with.\<close>

definition resume_refused :: "'s Env \<Rightarrow> hid \<Rightarrow> Registry \<Rightarrow> bool \<times> Registry" where
  "resume_refused V i q =
     (case pause_of q i of
        Some (PAsked k) \<Rightarrow> (True, start_next V (emit (FileUpdate i) (set_pause i (Some (Paused k)) q)))
      | _ \<Rightarrow> (False, q))"

definition upload_resume_refused :: "'s Env \<Rightarrow> hid \<Rightarrow> Registry \<Rightarrow> bool option \<times> Registry" where
  "upload_resume_refused V i q =
     (case pause_of q i of
        Some (PAsked k) \<Rightarrow>
          let q1 = set_pause i (Some (Restarted k)) q in
          (Some True, if opt_is_folder (handles q i) then snd (ask_put_folder V i None q1)
                      else xfer_go_put V i None q1)
      | Some (Restarted k) \<Rightarrow>
          (Some False, start_next V (emit (FileUpdate i) (set_pause i (Some (Paused k)) q)))
      | _ \<Rightarrow> (None, q))"

definition upload_file_changed :: "'s Env \<Rightarrow> hid \<Rightarrow> Registry \<Rightarrow> bool \<times> Registry" where
  "upload_file_changed V i q =
     (case pause_of q i of
        Some (PAsked k) \<Rightarrow> (True, start_next V (emit (FileUpdate i) (set_pause i (Some (PChanged k)) q)))
      | Some (Restarted k) \<Rightarrow> (True, start_next V (emit (FileUpdate i) (set_pause i (Some (PChanged k)) q)))
      | _ \<Rightarrow> (False, q))"

definition QUEUE_TRIES :: nat where "QUEUE_TRIES = 5"

definition queued_refused :: "hid \<Rightarrow> Registry \<Rightarrow> bool \<times> Registry" where
  "queued_refused i q =
     (case tries_of q i of
        Some n \<Rightarrow>
          if n < QUEUE_TRIES
          then (True, (hx_htxf_ref i (on_handle i (\<lambda>h. h\<lparr>h_gone := False\<rparr>) (set_tries i (Some (n + 1)) q)))
                  \<lparr>retries := retries q @ [i]\<rparr>)
          else (False, set_tries i None q)
      | None \<Rightarrow> (False, set_tries i None q))"

definition queue_retry :: "'s Env \<Rightarrow> hid \<Rightarrow> Registry \<Rightarrow> Registry" where
  "queue_retry V i q = hx_htxf_unref i (if xfer_num q i \<noteq> None then start_next V q else q)"

text \<open>\<open>Transfer\<close>, what the session read of a transfer's reply.\<close>

record Reply =
  t_reference :: u32
  t_size :: u64
  t_queue :: u32
  t_items :: u32
  t_data_from :: u32
  t_rsrc_from :: u32

definition xfer_ready_write :: "hid \<Rightarrow> Registry \<Rightarrow> Registry" where
  "xfer_ready_write i q =
     (if pause_of q i \<noteq> None \<or> i \<in> set (working q) then q
      else emit (FileUpdate i) ((hx_htxf_ref i q)\<lparr>working := working q @ [i]\<rparr>))"

definition hx_xfer_announce :: "hid \<Rightarrow> u32 \<Rightarrow> Registry \<Rightarrow> Registry" where
  "hx_xfer_announce i pos q =
     (let q1 = emit (XferQueue i) q in
      if pos = 0 then xfer_ready_write i q1 else emit (FileUpdate i) q1)"

definition download_ready :: "hid \<Rightarrow> bool \<Rightarrow> Reply \<Rightarrow> Registry \<Rightarrow> Registry" where
  "download_ready i folder t q =
     (if xfer_num q i = None \<or> t_reference t = 0 \<or> \<not> folder \<and> t_size t = 0 then q
      else let q1 = answered i q;
               left = (if folder then (if folder_held q1 i \<le> t_size t then t_size t - folder_held q1 i else 0)
                       else t_size t);
               q2 = on_handle i (\<lambda>h. h\<lparr>h_ref := t_reference t, total_size := max left 1, h_queue := t_queue t\<rparr>) q1;
               q3 = (if folder then remember_folder_items i (t_items t) (t_size t) q2 else q2)
        in hx_xfer_announce i (t_queue t) q3)"

definition download_refused :: "'s Env \<Rightarrow> hid \<Rightarrow> Registry \<Rightarrow> Registry" where
  "download_refused V i q =
     (if xfer_num q i = None then q
      else case resume_refused V i q of
        (True, q1) \<Rightarrow> q1
      | (False, q1) \<Rightarrow>
          (case queued_refused i q1 of
             (True, q2) \<Rightarrow> q2
           | (False, q2) \<Rightarrow>
               if opt_retry (handles q2 i)
               then (on_handle i (\<lambda>h. h\<lparr>h_gone := False\<rparr>) q2)\<lparr>go_timers := go_timers q2 @ [i]\<rparr>
               else xfer_delete V i (emit (TaskDeleted i) q2)))"

definition upload_refused :: "'s Env \<Rightarrow> hid \<Rightarrow> Registry \<Rightarrow> bool \<times> Registry" where
  "upload_refused V i q =
     (if xfer_num q i = None then (False, q)
      else case upload_resume_refused V i q of
        (Some quiet, q1) \<Rightarrow> (quiet, q1)
      | (None, q1) \<Rightarrow> (False, xfer_delete V i (emit (TaskDeleted i) q1)))"

text \<open>The sizes of a file's upload from where the server says it resumes, and whether it holds too much.\<close>

definition size_upload :: "'s Env \<Rightarrow> hid \<Rightarrow> Reply \<Rightarrow> Registry \<Rightarrow> bool \<times> Registry" where
  "size_upload V i t q =
     (let h = handles q i; d = qdisk q; sz = hx_file_size d (h_path h);
          dsize = (if sz \<ge> 0 then of_int sz else h_data_size h);
          rsize = resource_len (env_ext V) d (h_path h);
          dpos = ucast (t_data_from t); rpos = ucast (t_rsrc_from t);
          q1 = on_handle i (\<lambda>h. h\<lparr>h_data_pos := dpos, h_rsrc_pos := rpos, h_data_size := dsize, h_rsrc_size := rsize\<rparr>) q
      in if dpos > dsize \<or> rpos > rsize then (True, q1)
         else (False, on_handle i (\<lambda>h. h\<lparr>total_size :=
           133 + (if rsize - rpos \<noteq> 0 then 16 else 0) + of_nat (comment_len (env_ext V) d (h_path h)) +
           (dsize - dpos) + (rsize - rpos)\<rparr>) q1))"

definition upload_ready :: "'s Env \<Rightarrow> hid \<Rightarrow> bool \<Rightarrow> Reply \<Rightarrow> Registry \<Rightarrow> Registry" where
  "upload_ready V i folder t q =
     (if xfer_num q i = None \<or> t_reference t = 0 then q
      else let q1 = on_handle i (\<lambda>h. h\<lparr>h_queue := t_queue t\<rparr>) q in
        case (if folder then (False, q1) else size_upload V i t q1) of
          (True, q2) \<Rightarrow>
            (case upload_file_changed V i q2 of
               (True, q3) \<Rightarrow> q3
             | (False, q3) \<Rightarrow> snd (upload_refused V i (emit (TasksFailed i 4 0) q3)))
        | (False, q2) \<Rightarrow>
            hx_xfer_announce i (t_queue t) (on_handle i (\<lambda>h. h\<lparr>h_ref := t_reference t\<rparr>) (answered i q2)))"

definition queue_moved :: "nat \<Rightarrow> u32 \<Rightarrow> u32 \<Rightarrow> Registry \<Rightarrow> Registry" where
  "queue_moved htlc r pos q =
     (case htxf_with_ref q htlc r of
        None \<Rightarrow> q
      | Some i \<Rightarrow> hx_xfer_announce i pos (on_handle i (\<lambda>h. h\<lparr>h_queue := pos\<rparr>) q))"

text \<open>The request a reply belongs to is taken out, and its reference dropped after the reply is dealt with.\<close>

definition transfer_reply :: "'s Env \<Rightarrow> nat \<times> nat \<Rightarrow> Reply \<Rightarrow> Registry \<Rightarrow> Registry" where
  "transfer_reply V k t q =
     (case map_of (in_flight q) k of
        None \<Rightarrow> q
      | Some w \<Rightarrow>
          let q1 = q\<lparr>in_flight := remove_first k (in_flight q)\<rparr> in
          hx_htxf_unref (asked_hid w)
            (case w of Download i folder \<Rightarrow> download_ready i folder t q1
                     | Upload i folder \<Rightarrow> upload_ready V i folder t q1))"

definition transfer_failed :: "'s Env \<Rightarrow> nat \<times> nat \<Rightarrow> Registry \<Rightarrow> Registry" where
  "transfer_failed V k q =
     (case map_of (in_flight q) k of
        None \<Rightarrow> q
      | Some w \<Rightarrow>
          let q1 = q\<lparr>in_flight := remove_first k (in_flight q)\<rparr> in
          hx_htxf_unref (asked_hid w)
            (case w of Download i folder \<Rightarrow> download_refused V i q1
                     | Upload i folder \<Rightarrow> snd (upload_refused V i q1)))"

definition forget_conn :: "nat \<Rightarrow> Registry \<Rightarrow> Registry" where
  "forget_conn htlc q =
     fold hx_htxf_unref (map (asked_hid \<circ> snd) (filter (\<lambda>e. fst (fst e) = htlc) (in_flight q)))
       (q\<lparr>in_flight := filter (\<lambda>e. fst (fst e) \<noteq> htlc) (in_flight q)\<rparr>)"

end
