(* ===== verification/Xfer_Machine.thy ===== *)
theory Xfer_Machine
  imports Xfer_Queue
begin

text \<open>
  The rest of the transfer registry (crate \<open>hxhandlers\<close>, \<open>xfer.rs\<close>): making transfers, the four worker
  bodies, which run the receivers and senders of \<open>Xfer\<close> and \<open>Xfer_Folder\<close> on the registry's disk, and
  everything that can happen to the registry as one step relation, \<open>xfer_handle\<close> under the guard
  \<open>xfer_can\<close>.

  A worker connects or not (\<open>htxf_connect\<close>, in C): its argument is the connection it gets, and whether that
  has the 64-bit handshake.  Its progress reports post an update each at any moment before it returns; the
  bytes they count are added when it returns.
\<close>

section \<open>New transfers\<close>

definition xfer_init :: "nat \<Rightarrow> path \<Rightarrow> bool \<Rightarrow> u64 \<Rightarrow> Registry \<Rightarrow> hid \<times> Registry" where
  "xfer_init htlc p get sz q =
     (let i = next_hid q;
          q1 = hx_htxf_ref i (on_handle i (\<lambda>h. hx_htxf_new\<lparr>h_path := p, h_get := get\<rparr>)
            (q\<lparr>next_hid := i + 1\<rparr>));
          q2 = q1\<lparr>xfers := xfers q1 @ [i]\<rparr>;
          q3 = on_handle i (\<lambda>h. h\<lparr>h_htlc := htlc, total_size := max sz 1\<rparr>) q2
      in (i, emit (FileUpdate i) q3))"

definition xfer_new :: "'s Env \<Rightarrow> nat \<Rightarrow> path \<Rightarrow> bool \<Rightarrow> bool \<Rightarrow> u32 \<Rightarrow> Registry \<Rightarrow> Registry" where
  "xfer_new V htlc p get prev srv q =
     (case xfer_init htlc p get (if get then ucast srv else 0) q of
        (i, q1) \<Rightarrow>
          let q2 = on_handle i (\<lambda>h. h\<lparr>opt_is_preview := prev, srv_data_size := ucast srv\<rparr>) q1;
              alone = (\<forall>e\<in>set (xfers q2). e = i \<or> paused q2 e)
          in if alone \<or> \<not> prefs_queuedl V then xfer_go V i q2 else q2)"

definition xfer_new_folder :: "nat \<Rightarrow> path \<Rightarrow> bool \<Rightarrow> Registry \<Rightarrow> hid \<times> Registry" where
  "xfer_new_folder htlc p get q =
     (case xfer_init htlc p get 0 q of (i, q1) \<Rightarrow> (i, on_handle i (\<lambda>h. h\<lparr>opt_is_folder := True\<rparr>) q1))"

definition hx_get_folder :: "'s Env \<Rightarrow> nat \<Rightarrow> path \<Rightarrow> Registry \<Rightarrow> Registry" where
  "hx_get_folder V htlc p q = (case xfer_new_folder htlc p True q of (i, q1) \<Rightarrow> ask_folder V i q1)"

definition hx_put_folder :: "'s Env \<Rightarrow> nat \<Rightarrow> path \<Rightarrow> Registry \<Rightarrow> Registry" where
  "hx_put_folder V htlc p q =
     (case xfer_new_folder htlc p False q of (i, q1) \<Rightarrow> snd (ask_put_folder V i None q1))"

definition xfer_tasks_update :: "nat \<Rightarrow> Registry \<Rightarrow> Registry" where
  "xfer_tasks_update htlc q =
     fold (\<lambda>i. emit (FileUpdate i)) (filter (\<lambda>e. h_htlc (handles q e) = htlc) (xfers q)) q"

section \<open>Workers\<close>

definition xfer_recv_params :: "'s Env \<Rightarrow> Handle \<Rightarrow> Params" where
  "xfer_recv_params V h =
     \<lparr>px_path = Some (h_path h), file_budget = total_size h, data_pos = h_data_pos h, rsrc_pos = h_rsrc_pos h,
      opt_preview = opt_is_preview h, opt_folder = opt_is_folder h, opt_large = opt_is_large h,
      preview = opt_is_preview h, preview_limit = Some (preview_wants V), data_size = 0, rsrc_size = 0\<rparr>"

definition xfer_send_params :: "Handle \<Rightarrow> Params" where
  "xfer_send_params h =
     \<lparr>px_path = Some (h_path h), file_budget = 0, data_pos = h_data_pos h, rsrc_pos = h_rsrc_pos h,
      opt_preview = False, opt_folder = opt_is_folder h, opt_large = opt_is_large h,
      preview = False, preview_limit = None, data_size = h_data_size h, rsrc_size = h_rsrc_size h\<rparr>"

definition xfer_folder_params :: "Handle \<Rightarrow> FolderParams" where
  "xfer_folder_params h =
     \<lparr>fp_base = Some (h_path h), fp_progress = True, fp_preview = opt_is_preview h,
      fp_folder = opt_is_folder h, fp_large = opt_is_large h\<rparr>"

text \<open>What a worker starts from, and what its run leaves: the disk, and the bytes its reports counted.\<close>

definition worker_start :: "Registry \<Rightarrow> FolderRun \<Rightarrow> 's HtxfConn \<Rightarrow> 's St" where
  "worker_start q r c =
     \<lparr>conn = c, disk = qdisk q, counted = 0, shown = [], shown_done = False, was = None,
      ledger = fr_ledger r, uploads = fr_sent r\<rparr>"

definition worker_left :: "hid \<Rightarrow> 's St \<Rightarrow> Registry \<Rightarrow> Registry" where
  "worker_left i s q =
     on_handle i (\<lambda>h. h\<lparr>total_pos := total_pos h + of_nat (counted s)\<rparr>) (q\<lparr>qdisk := disk s\<rparr>)"

definition all_moved :: "hid \<Rightarrow> Registry \<Rightarrow> Registry" where
  "all_moved i = on_handle i (\<lambda>h. h\<lparr>total_pos := total_size h\<rparr>)"

text \<open>\<open>htxf_connect\<close> records whether the connection has the 64-bit handshake.\<close>

definition connected :: "hid \<Rightarrow> bool \<Rightarrow> Registry \<Rightarrow> Registry" where
  "connected i large = on_handle i (\<lambda>h. h\<lparr>opt_is_large := large\<rparr>)"

definition get_thread :: "'s Env \<Rightarrow> hid \<Rightarrow> ('s HtxfConn \<times> bool) option \<Rightarrow> Registry \<Rightarrow> Registry" where
  "get_thread V i c q =
     (case c of
        None \<Rightarrow> note_failure i (Some Unreachable) (post_file_update i q)
      | Some (h, large) \<Rightarrow>
          let q1 = connected i large q in
          case hxnet_xfer_file_recv_one (env_aead V) (env_ext V) (xfer_recv_params V (handles q1 i))
                 (worker_start q1 default_run h) of
            (rv, s) \<Rightarrow>
              let q2 = worker_left i s q1 in
              if rv = 0 then post_file_update i (all_moved i (emit Chime q2))
              else if rv = HXNET_XFER_STOPPED then post_file_update i q2
              else note_failure i (Some (failure (Some (conn s)) rv)) (post_file_update i q2))"

definition folder_get_thread :: "'s Env \<Rightarrow> hid \<Rightarrow> ('s HtxfConn \<times> bool) option \<Rightarrow> Registry \<Rightarrow> Registry" where
  "folder_get_thread V i c q0 =
     (case take_folder_items i q0 of
        ((items, bytes), q1) \<Rightarrow>
          (case take_folder_run i q1 of
             (run, q2) \<Rightarrow>
               (case c of
                  None \<Rightarrow> note_failure i (Some Unreachable) (post_file_update i
                    (put_folder_run i (run\<lparr>fr_finished := False\<rparr>) q2))
                | Some (h, large) \<Rightarrow>
                    let q3 = connected i large q2 in
                    case folder_recv (env_aead V) (env_ext V) (xfer_folder_params (handles q3 i))
                           (worker_start q3 run (set_folder_items items bytes h)) of
                      (rv, s) \<Rightarrow>
                        let q4 = put_folder_run i (run\<lparr>fr_ledger := ledger s, fr_finished := (rv = 0)\<rparr>)
                                   (worker_left i s q3)
                        in if rv = 0 then post_file_update i (all_moved i (emit Chime q4))
                           else note_failure i (Some (failure (Some (conn s)) rv)) (post_file_update i q4))))"

text \<open>The wait for the server to close leaves only a line in the log.\<close>

definition finish_upload :: "hid \<Rightarrow> Registry \<Rightarrow> Registry" where
  "finish_upload i q = (if canceled (handles q i) then q else emit Chime q)"

definition put_thread :: "'s Env \<Rightarrow> hid \<Rightarrow> ('s HtxfConn \<times> bool) option \<Rightarrow> Registry \<Rightarrow> Registry" where
  "put_thread V i c q =
     (case c of
        None \<Rightarrow> note_failure i (Some Unreachable) (post_file_update i q)
      | Some (h, large) \<Rightarrow>
          let q1 = connected i large q in
          case hxnet_xfer_file_send_one (env_aead V) (env_ext V) (xfer_send_params (handles q1 i))
                 (worker_start q1 default_run h) of
            (rv, s) \<Rightarrow>
              let q2 = post_file_update i (worker_left i s q1) in
              if rv = 0 then finish_upload i q2
              else note_failure i (Some (failure (Some (conn s)) rv)) q2)"

definition stop_of :: "int \<Rightarrow> bool \<Rightarrow> Stop option" where
  "stop_of rv was_resumed =
     (if rv = HXNET_XFER_CHANGED \<and> was_resumed then Some StopChanged
      else if rv = HXNET_XFER_AGAIN then Some StopAgain
      else if rv = HXNET_XFER_REOFFER then Some StopReoffer else None)"

definition put_failure :: "'s HtxfConn \<Rightarrow> int \<Rightarrow> bool \<Rightarrow> Failure option" where
  "put_failure h rv was_resumed =
     (if rv = HXNET_XFER_CHANGED \<and> \<not> was_resumed then Some Larger
      else if rv \<in> {0, HXNET_XFER_CHANGED, HXNET_XFER_AGAIN, HXNET_XFER_REOFFER} then None
      else Some (failure (Some h) rv))"

definition folder_put_thread :: "'s Env \<Rightarrow> hid \<Rightarrow> ('s HtxfConn \<times> bool) option \<Rightarrow> Registry \<Rightarrow> Registry" where
  "folder_put_thread V i c q0 =
     (case take_folder_run i q0 of
        (run, q1) \<Rightarrow>
          (case c of
             None \<Rightarrow> note_failure i (Some Unreachable) (post_file_update i
               (put_folder_run i (run\<lparr>fr_finished := False, fr_stop := None\<rparr>) q1))
           | Some (h, large) \<Rightarrow>
               let q2 = connected i large q1; p = h_path (handles q2 i) in
               case folder_send (env_aead V) (env_ext V) (xfer_folder_params (handles q2 i))
                      (local_tree V (qdisk q2) p) (worker_start q2 run h) of
                 (rv, s) \<Rightarrow>
                   let q3 = put_folder_run i (run\<lparr>fr_sent := uploads s, fr_finished := (rv = 0),
                              fr_stop := stop_of rv (fr_resumed run)\<rparr>) (worker_left i s q2);
                       q4 = post_file_update i (if rv = 0 then all_moved i q3 else q3)
                   in note_failure i (put_failure (conn s) rv (fr_resumed run))
                        (if rv = 0 then finish_upload i q4 else q4)))"

definition xfer_worker_entry :: "'s Env \<Rightarrow> hid \<Rightarrow> ('s HtxfConn \<times> bool) option \<Rightarrow> Registry \<Rightarrow> Registry" where
  "xfer_worker_entry V i c q =
     (case (opt_is_folder (handles q i), h_get (handles q i)) of
        (True, True) \<Rightarrow> folder_get_thread V i c q
      | (True, False) \<Rightarrow> folder_put_thread V i c q
      | (False, True) \<Rightarrow> get_thread V i c q
      | (False, False) \<Rightarrow> put_thread V i c q)"

text \<open>The worker's return posts its cleanup.\<close>

definition xfer_completion_entry :: "hid \<Rightarrow> Registry \<Rightarrow> Registry" where
  "xfer_completion_entry i q = q\<lparr>returned := returned q @ [i]\<rparr>"

definition xfer_go_timer :: "'s Env \<Rightarrow> hid \<Rightarrow> Registry \<Rightarrow> Registry" where
  "xfer_go_timer = xfer_go"

section \<open>Everything that happens to the registry\<close>

datatype 's XferEvent =
    NewFile nat path bool bool u32
  | NewFolder nat path bool
  | MoveUp nat
  | MoveDown nat
  | Cancel hid
  | Disconnect nat
  | Shutdown
  | PauseIt hid
  | StartIt hid
  | TasksShown nat
  | Replied "nat \<times> nat" Reply
  | Refused "nat \<times> nat"
  | QueueMoved nat u32 u32
  | ConnForgotten nat
  | Progressed hid
  | UpdateRuns hid
  | WorkerReturns hid "('s HtxfConn \<times> bool) option"
  | CleanupRuns hid
  | RetryRuns hid
  | GoTimerRuns hid
  | DiskBecomes Fs

text \<open>
  The user's actions name a transfer in the list, but for a cancellation, which the window of a preview also
  asks for as long as the transfer lives; what runs on the main loop was posted there; a worker reports
  and returns while it works.
\<close>

fun xfer_can :: "Registry \<Rightarrow> 's XferEvent \<Rightarrow> bool" where
  "xfer_can q (Cancel i) = (i < next_hid q \<and> \<not> h_freed (handles q i))"
| "xfer_can q (PauseIt i) = (i \<in> set (xfers q))"
| "xfer_can q (StartIt i) = (i \<in> set (xfers q))"
| "xfer_can q (Progressed i) = (i \<in> set (working q) \<and> i \<notin> set (returned q))"
| "xfer_can q (UpdateRuns i) = (i \<in> set (posted q))"
| "xfer_can q (WorkerReturns i c) = (i \<in> set (working q) \<and> i \<notin> set (returned q))"
| "xfer_can q (CleanupRuns i) = (i \<in> set (returned q))"
| "xfer_can q (RetryRuns i) = (i \<in> set (retries q))"
| "xfer_can q (GoTimerRuns i) = (i \<in> set (go_timers q))"
| "xfer_can q e = True"

fun xfer_handle :: "'s Env \<Rightarrow> 's XferEvent \<Rightarrow> Registry \<Rightarrow> Registry" where
  "xfer_handle V (NewFile htlc p get prev srv) q = xfer_new V htlc p get prev srv q"
| "xfer_handle V (NewFolder htlc p get) q = (if get then hx_get_folder V htlc p q else hx_put_folder V htlc p q)"
| "xfer_handle V (MoveUp n) q = xfer_up n q"
| "xfer_handle V (MoveDown n) q = snd (xfer_down n q)"
| "xfer_handle V (Cancel i) q = xfer_delete V i q"
| "xfer_handle V (Disconnect htlc) q = xfers_delete_on_conn V htlc q"
| "xfer_handle V Shutdown q = xfers_delete_all q"
| "xfer_handle V (PauseIt i) q = xfer_pause i q"
| "xfer_handle V (StartIt i) q = xfer_go V i q"
| "xfer_handle V (TasksShown htlc) q = xfer_tasks_update htlc q"
| "xfer_handle V (Replied k t) q = transfer_reply V k t q"
| "xfer_handle V (Refused k) q = transfer_failed V k q"
| "xfer_handle V (QueueMoved htlc r pos) q = queue_moved htlc r pos q"
| "xfer_handle V (ConnForgotten htlc) q = forget_conn htlc q"
| "xfer_handle V (Progressed i) q = post_file_update i q"
| "xfer_handle V (UpdateRuns i) q = fu_dispatch i (q\<lparr>posted := remove1 i (posted q)\<rparr>)"
| "xfer_handle V (WorkerReturns i c) q = xfer_completion_entry i (xfer_worker_entry V i c q)"
| "xfer_handle V (CleanupRuns i) q = xfer_cleanup_dispatch V i (q\<lparr>returned := remove1 i (returned q)\<rparr>)"
| "xfer_handle V (RetryRuns i) q = queue_retry V i (q\<lparr>retries := remove1 i (retries q)\<rparr>)"
| "xfer_handle V (GoTimerRuns i) q = xfer_go_timer V i (q\<lparr>go_timers := remove1 i (go_timers q)\<rparr>)"
| "xfer_handle V (DiskBecomes d) q = q\<lparr>qdisk := d\<rparr>"

definition xfer_start :: "Fs \<Rightarrow> Registry" where
  "xfer_start d =
     \<lparr>handles = (\<lambda>_. hx_htxf_new), next_hid = 0, xfers = [], pauses = [], working = [], queued_tries = [],
      held_bytes = [], failures = [], item_counts = [], folder_runs = [], in_flight = [], next_trans = 0,
      posted = [], returned = [], retries = [], go_timers = [], qdisk = d, outs = []\<rparr>"

inductive xfer_reachable :: "'s Env \<Rightarrow> Registry \<Rightarrow> bool" for V :: "'s Env" where
  start: "xfer_reachable V (xfer_start d)"
| step: "xfer_reachable V q \<Longrightarrow> xfer_can q e \<Longrightarrow> xfer_reachable V (xfer_handle V e q)"

end
