(* ===== verification/Xfer_Refs.thy ===== *)
theory Xfer_Refs
  imports Xfer_Machine "HOL-Library.Multiset"
begin

text \<open>
  The reference counts of the transfer registry.  A handle is held by the list, by its worker, by each
  posted update, by each retry timer and by each request in flight; \<open>holders\<close> lists them, with the ones an
  operation has in hand.  Every operation keeps each count equal to the number of holders, and frees a
  handle exactly when its last holder lets go.
\<close>

section \<open>The queue's next turn\<close>

text \<open>The queue starts only transfers that are not paused, so its turn never ends one.\<close>

lemma unpaused_not_settled: "\<not> paused q i \<Longrightarrow> settled_kept (pause_of q i) = None"
  by (cases "pause_of q i" rule: pause_shown.cases) (simp_all add: paused_def)

definition start_file :: "'s Env \<Rightarrow> hid \<Rightarrow> Registry \<Rightarrow> Registry" where
  "start_file V i q = (if pause_of q i = None then go_request V i None None q else q)"

definition queue_starts :: "'s Env \<Rightarrow> hid \<Rightarrow> Registry \<Rightarrow> Registry" where
  "queue_starts V i q =
     (let q1 = start_file V i q in
      if \<not> h_gone (handles q i) \<and> h_gone (handles q1 i) \<and> tries_of q1 i = None then set_tries i (Some 0) q1 else q1)"

lemma xfer_go_file_unpaused: "\<not> paused q i \<Longrightarrow> xfer_go_file V i q = start_file V i q"
  by (cases "pause_of q i" rule: pause_shown.cases) (simp_all add: xfer_go_file_def start_file_def paused_def)

lemma start_next_eq:
  "start_next V q =
     (case find (\<lambda>e. \<not> paused q e) (xfers q) of
        None \<Rightarrow> q
      | Some i \<Rightarrow> if opt_is_folder (handles q i) then q else queue_starts V i q)"
proof (cases "find (\<lambda>e. \<not> paused q e) (xfers q)")
  case (Some i)
  then have "\<not> paused q i" by (auto simp: find_Some_iff)
  then have "xfer_go V i q = (if opt_is_folder (handles q i) then q else start_file V i q)"
    by (simp add: xfer_go.simps resume_folder.simps resume_ask_def unpaused_not_settled xfer_go_file_unpaused)
  then show ?thesis
    using Some by (auto simp: start_next.simps queue_starts_def Let_def)
qed (simp add: start_next.simps)

section \<open>Holders\<close>

definition holders :: "hid list \<Rightarrow> Registry \<Rightarrow> hid list" where
  "holders ex q = ex @ xfers q @ working q @ posted q @ retries q @ map (asked_hid \<circ> snd) (in_flight q)"

definition refs_ok :: "hid list \<Rightarrow> Registry \<Rightarrow> bool" where
  "refs_ok ex q \<longleftrightarrow>
     (\<forall>i. refcount (handles q i) = int (count_list (holders ex q) i)) \<and>
     (\<forall>i. h_freed (handles q i) \<longleftrightarrow> i < next_hid q \<and> i \<notin> set (holders ex q)) \<and>
     (\<forall>i\<in>set (holders ex q). i < next_hid q)"

text \<open>What a reference count is compared with: the same in states that differ elsewhere.\<close>

definition same_refs :: "Registry \<Rightarrow> Registry \<Rightarrow> bool" where
  "same_refs q q' \<longleftrightarrow>
     (\<forall>i. refcount (handles q' i) = refcount (handles q i) \<and> h_freed (handles q' i) = h_freed (handles q i)) \<and>
     next_hid q' = next_hid q"

named_theorems refs_intros \<open>operations that keep the reference counts\<close>

lemma refs_ok_move:
  assumes "refs_ok ex q" and "same_refs q q'" and "mset (holders ex' q') = mset (holders ex q)"
  shows "refs_ok ex' q'"
proof -
  have "count_list (holders ex' q') i = count_list (holders ex q) i" for i
    using assms(3) by (metis count_mset)
  moreover have "set (holders ex' q') = set (holders ex q)"
    using assms(3) by (rule mset_eq_setD)
  ultimately show ?thesis
    using assms(1,2) by (simp add: refs_ok_def same_refs_def)
qed

text \<open>Fields that no holder is kept in.\<close>

definition same_holders :: "Registry \<Rightarrow> Registry \<Rightarrow> bool" where
  "same_holders q q' \<longleftrightarrow>
     same_refs q q' \<and> xfers q' = xfers q \<and> working q' = working q \<and> posted q' = posted q \<and>
     retries q' = retries q \<and> in_flight q' = in_flight q"

lemma refs_ok_same: "refs_ok ex q \<Longrightarrow> same_holders q q' \<Longrightarrow> refs_ok ex q'"
  by (rule refs_ok_move) (simp_all add: same_holders_def holders_def)

lemma same_holders_trans: "same_holders q q' \<Longrightarrow> same_holders q' q'' \<Longrightarrow> same_holders q q''"
  by (simp add: same_holders_def same_refs_def)

lemma same_holders_refl [simp]: "same_holders q q"
  by (simp add: same_holders_def same_refs_def)

lemma same_on_handle:
  "(\<And>h. refcount (f h) = refcount h) \<Longrightarrow> (\<And>h. h_freed (f h) = h_freed h) \<Longrightarrow>
   same_holders q (on_handle i f q)"
  by (simp add: same_holders_def same_refs_def on_handle_def)

lemma same_small:
  "same_holders q (emit x q)" "same_holders q (set_pause i p q)" "same_holders q (set_tries i n q)"
  "same_holders q (set_held i b q)" "same_holders q (with_folder_run i f q)"
  "same_holders q (put_folder_run i r q)" "same_holders q (remember_folder_items i m c q)"
  "same_holders q (snd (take_folder_run i q))" "same_holders q (snd (take_folder_items i q))"
  "same_holders q (note_failure i w q)" "same_holders q (snd (take_failure i q))"
  "same_holders q (htxf_destructor i q)" "same_holders q (snd (take_folder_stop i q))"
  by (simp_all add: same_holders_def same_refs_def emit_def set_pause_def set_tries_def set_held_def
      with_folder_run_def put_folder_run_def remember_folder_items_def take_folder_run_def take_folder_items_def
      note_failure_def take_failure_def htxf_destructor_def take_folder_stop_def split: option.split)

lemma refs_small [refs_intros]:
  assumes "refs_ok ex q"
  shows "refs_ok ex (emit x q)" "refs_ok ex (set_pause i p q)" "refs_ok ex (set_tries i n q)"
    "refs_ok ex (set_held i b q)" "refs_ok ex (with_folder_run i f q)" "refs_ok ex (put_folder_run i r q)"
    "refs_ok ex (remember_folder_items i m c q)" "refs_ok ex (snd (take_folder_run i q))"
    "refs_ok ex (snd (take_folder_items i q))" "refs_ok ex (note_failure i w q)"
    "refs_ok ex (snd (take_failure i q))" "refs_ok ex (htxf_destructor i q)"
    "refs_ok ex (snd (take_folder_stop i q))"
  by (rule refs_ok_same [OF assms], rule same_small)+

lemma refs_on_handle [refs_intros]:
  "refs_ok ex q \<Longrightarrow> (\<And>h. refcount (f h) = refcount h) \<Longrightarrow> (\<And>h. h_freed (f h) = h_freed h) \<Longrightarrow>
   refs_ok ex (on_handle i f q)"
  by (erule refs_ok_same) (rule same_on_handle)

section \<open>Taking and dropping a reference\<close>

lemma refs_ref: "refs_ok ex q \<Longrightarrow> i \<in> set (holders ex q) \<Longrightarrow> refs_ok (i # ex) (hx_htxf_ref i q)"
  by (auto simp: refs_ok_def holders_def hx_htxf_ref_def on_handle_def)

lemma holders_destructor [simp]: "holders ex (htxf_destructor i q) = holders ex q"
  using same_small(12) [of q i] by (simp add: same_holders_def holders_def)

lemma handles_destructor [simp]:
  "handles (htxf_destructor i q) = handles q" "next_hid (htxf_destructor i q) = next_hid q"
  by (simp_all add: htxf_destructor_def take_folder_run_def take_folder_items_def split: option.split)

lemma holders_on_handle [simp]: "holders ex (on_handle i f q) = holders ex q"
  by (simp add: holders_def on_handle_def)

lemma next_on_handle [simp]: "next_hid (on_handle i f q) = next_hid q"
  by (simp add: on_handle_def)

lemma handles_on_handle: "handles (on_handle i f q) j = (if j = i then f (handles q i) else handles q j)"
  by (simp add: on_handle_def)

lemma refs_unref: 
  assumes ok: "refs_ok (i # ex) q"
  shows "refs_ok ex (hx_htxf_unref i q)"
proof -
  have rc: "refcount (handles q j) = int (count_list (holders (i # ex) q) j)" for j
    using ok by (simp add: refs_ok_def)
  have hs: "holders (i # ex) q = i # holders ex q" by (simp add: holders_def)
  have "refcount (handles q i) = 1 \<longleftrightarrow> i \<notin> set (holders ex q)"
    using rc [of i] by (simp add: hs count_list_0_iff)
  then show ?thesis
    using ok by (auto simp: refs_ok_def hx_htxf_unref_def Let_def handles_on_handle hs)
qed

lemma refs_unref_move:
  assumes "refs_ok ex q" and "same_refs q q'" and "mset (holders (i # ex') q') = mset (holders ex q)"
  shows "refs_ok ex' (hx_htxf_unref i q')"
  using refs_ok_move [OF assms] by (rule refs_unref)

lemma holders_simps [simp]:
  "holders ex (emit x q) = holders ex q" "holders ex (set_pause i p q) = holders ex q"
  "holders ex (set_tries i n q) = holders ex q" "holders ex (set_held i b q) = holders ex q"
  by (simp_all add: holders_def emit_def set_pause_def set_tries_def set_held_def)

lemma same_refs_simps [simp]: "same_refs q q"
  by (simp add: same_refs_def)

lemma refs_ref_move [refs_intros]:
  assumes "refs_ok ex q" and "i \<in> set (holders ex q)"
    and "same_refs (hx_htxf_ref i q) q'" and "mset (holders ex q') = mset (i # holders ex q)"
  shows "refs_ok ex q'"
proof (rule refs_ok_move [OF refs_ref [OF assms(1,2)] assms(3)])
  have "holders (i # ex) (hx_htxf_ref i q) = i # holders ex q"
    by (simp add: hx_htxf_ref_def holders_def on_handle_def)
  then show "mset (holders ex q') = mset (holders (i # ex) (hx_htxf_ref i q))"
    using assms(4) by simp
qed

lemma refs_post_file_update [refs_intros]:
  "refs_ok ex q \<Longrightarrow> i \<in> set (holders ex q) \<Longrightarrow> refs_ok ex (post_file_update i q)"
  by (erule (1) refs_ref_move)
     (simp_all add: post_file_update_def same_refs_def holders_def hx_htxf_ref_def on_handle_def)

lemma refs_fu_dispatch: "refs_ok (i # ex) q \<Longrightarrow> refs_ok ex (fu_dispatch i q)"
  by (simp add: fu_dispatch_def refs_unref refs_small(1))

lemma refs_send_request [refs_intros]:
  assumes "refs_ok ex q" and "asked_hid w \<in> set (holders ex q)"
  shows "refs_ok ex (send_request V w r q)"
proof -
  have "refs_ok ex (expect_transfer htlc w q)" for htlc
    using assms by (rule refs_ref_move)
      (simp_all add: expect_transfer_def same_refs_def holders_def hx_htxf_ref_def on_handle_def)
  then show ?thesis
    using assms(1) by (simp add: send_request_def Let_def refs_small(1))
qed

lemma refs_unlink:
  assumes "refs_ok ex q" and "i \<in> set (xfers q)"
  shows "refs_ok ex (unlink i q)"
  unfolding unlink_def
proof (rule refs_unref_move [OF assms(1)])
  let ?q' = "set_held i None (set_tries i None (set_pause i None (emit (XferDestroyed i) (q\<lparr>xfers := remove1 i (xfers q)\<rparr>))))"
  show "same_refs q ?q'"
    by (simp add: same_refs_def emit_def set_pause_def set_tries_def set_held_def)
  show "mset (holders (i # ex) ?q') = mset (holders ex q)"
    using assms(2) by (simp add: holders_def emit_def set_pause_def set_tries_def set_held_def)
qed


section \<open>Every operation\<close>

lemma holders_with_folder_run [simp]: "holders ex (with_folder_run i f q) = holders ex q"
  by (simp add: holders_def with_folder_run_def)

lemma in_holders: "i \<in> set (xfers q) \<Longrightarrow> i \<in> set (holders ex q)"
  by (simp add: holders_def)

lemma xfer_num_listed [simp]: "xfer_num q i = None \<longleftrightarrow> i \<notin> set (xfers q)"
  by (simp add: xfer_num_def)

lemma holders_local_target [simp]: "holders ex (snd (local_target V i kept q)) = holders ex q"
  by (simp add: local_target_def Let_def)

lemma refs_local_target [refs_intros]: "refs_ok ex q \<Longrightarrow> refs_ok ex (snd (local_target V i kept q))"
  by (simp add: local_target_def Let_def refs_on_handle)

lemma refs_go_get [refs_intros]:
  "refs_ok ex q \<Longrightarrow> i \<in> set (holders ex q) \<Longrightarrow> refs_ok ex (xfer_go_get V i kept q)"
  by (simp add: xfer_go_get_def case_prod_beta Let_def refs_intros)

lemma refs_go_put [refs_intros]:
  "refs_ok ex q \<Longrightarrow> i \<in> set (holders ex q) \<Longrightarrow> refs_ok ex (xfer_go_put V i resume q)"
  by (simp add: xfer_go_put_def Let_def refs_intros)

lemma refs_go_request [refs_intros]:
  "refs_ok ex q \<Longrightarrow> i \<in> set (holders ex q) \<Longrightarrow> refs_ok ex (go_request V i kept full q)"
  by (simp add: go_request_def Let_def refs_intros split: option.split)

lemma refs_xfer_go_file:
  "refs_ok ex q \<Longrightarrow> i \<in> set (holders ex q) \<Longrightarrow> refs_ok ex (xfer_go_file V i q)"
  by (simp add: xfer_go_file_def Let_def refs_intros split: option.split)

lemma refs_ask_put_folder [refs_intros]:
  "refs_ok ex q \<Longrightarrow> i \<in> set (holders ex q) \<Longrightarrow> refs_ok ex (snd (ask_put_folder V i sent q))"
  by (simp add: ask_put_folder_def Let_def case_prod_beta refs_intros)

lemma refs_ask_folder [refs_intros]:
  "refs_ok ex q \<Longrightarrow> i \<in> set (holders ex q) \<Longrightarrow> refs_ok ex (ask_folder V i q)"
  by (simp add: ask_folder_def refs_intros)

lemma refs_resume_ask:
  assumes "refs_ok ex q" and "i \<in> set (holders ex q)"
  shows "refs_ok ex (snd (resume_ask V i q))"
proof -
  have up: "refs_ok ex (snd (resume_upload V i kept q))" for kept
  proof -
    let ?q1 = "on_handle i (\<lambda>h. h\<lparr>total_pos := 0\<rparr>) (set_pause i (Some (PAsked kept)) q)"
    have "refs_ok ex ?q1" using assms by (simp add: refs_intros)
    then have "refs_ok ex (snd (ask_put_folder V i s (with_folder_run i f ?q1)))"
      and "refs_ok ex (snd (ask_put_folder V i s ?q1))" for s f
      using assms(2) by (simp_all add: refs_intros)
    then show ?thesis
      using assms by (auto simp: resume_upload_def Let_def case_prod_beta refs_intros split: option.split bool.split)
  qed
  show ?thesis
    using assms up by (simp add: resume_ask_def resume_download_def Let_def refs_intros split: option.split)
qed

lemma refs_start_next [refs_intros]: "refs_ok ex q \<Longrightarrow> refs_ok ex (start_next V q)"
proof -
  assume ok: "refs_ok ex q"
  have "refs_ok ex (queue_starts V i q)" if "i \<in> set (xfers q)" for i
    using ok in_holders [OF that] by (simp add: queue_starts_def start_file_def Let_def refs_intros)
  then show ?thesis
    using ok by (auto simp: start_next_eq find_Some_iff split: option.split)
qed

lemma refs_remove [refs_intros]: "refs_ok ex q \<Longrightarrow> refs_ok ex (xfer_remove_from_list V i q)"
  by (simp add: xfer_remove_from_list.simps refs_unlink refs_start_next)

lemma refs_resume_folder [refs_intros]:
  "refs_ok ex q \<Longrightarrow> i \<in> set (holders ex q) \<Longrightarrow> refs_ok ex (resume_folder V i q)"
  using refs_resume_ask [of ex q i V]
  by (auto simp: resume_folder.simps refs_remove split: prod.split bool.split)

lemma refs_xfer_go [refs_intros]:
  "refs_ok ex q \<Longrightarrow> i \<in> set (holders ex q) \<Longrightarrow> refs_ok ex (xfer_go V i q)"
  by (simp add: xfer_go.simps refs_resume_folder refs_xfer_go_file)

lemma refs_xfer_delete [refs_intros]: "refs_ok ex q \<Longrightarrow> refs_ok ex (xfer_delete V i q)"
  by (simp add: xfer_delete_def refs_intros)

lemma refs_delete_on_conn: "refs_ok ex q \<Longrightarrow> refs_ok ex (xfers_delete_on_conn V htlc q)"
proof -
  have "refs_ok ex q \<Longrightarrow> refs_ok ex (fold (xfer_delete V) is q)" for "is"
    by (induction "is" arbitrary: q) (simp_all add: refs_xfer_delete)
  then show "refs_ok ex q \<Longrightarrow> refs_ok ex (xfers_delete_on_conn V htlc q)"
    by (simp add: xfers_delete_on_conn_def)
qed

lemma refs_fold_unref:
  assumes "\<And>i q ex. refs_ok (i # ex) q \<Longrightarrow> refs_ok ex (f i q)"
  shows "refs_ok (is @ ex) q \<Longrightarrow> refs_ok ex (fold f is q)"
  by (induction "is" arbitrary: q) (simp_all add: assms)

lemma refs_delete_all: "refs_ok ex q \<Longrightarrow> refs_ok ex (xfers_delete_all q)"
  unfolding xfers_delete_all_def
proof (rule refs_fold_unref)
  show "refs_ok (i # ex) q \<Longrightarrow> refs_ok ex (cancel_and_unref i q)" for i q ex
    by (simp add: cancel_and_unref_def refs_unref refs_on_handle)
  assume "refs_ok ex q"
  then show "refs_ok (xfers q @ ex) (q\<lparr>xfers := [], pauses := [], queued_tries := [], held_bytes := []\<rparr>)"
    by (rule refs_ok_move) (simp_all add: same_refs_def holders_def)
qed

lemma refs_forget_conn: "refs_ok ex q \<Longrightarrow> refs_ok ex (forget_conn htlc q)"
  unfolding forget_conn_def
proof (rule refs_fold_unref)
  let ?p = "\<lambda>e. fst (fst e) = htlc"
  assume "refs_ok ex q"
  then show "refs_ok (map (asked_hid \<circ> snd) (filter ?p (in_flight q)) @ ex)
      (q\<lparr>in_flight := filter (\<lambda>e. \<not> ?p e) (in_flight q)\<rparr>)"
  proof (rule refs_ok_move)
    have "mset (in_flight q) = filter_mset ?p (mset (in_flight q)) + filter_mset (\<lambda>e. \<not> ?p e) (mset (in_flight q))"
      by (rule multiset_partition)
    then have "image_mset (asked_hid \<circ> snd) (mset (in_flight q)) =
        image_mset (asked_hid \<circ> snd) (filter_mset ?p (mset (in_flight q))) +
        image_mset (asked_hid \<circ> snd) (filter_mset (\<lambda>e. \<not> ?p e) (mset (in_flight q)))"
      by (metis image_mset_union)
    then show "mset (holders (map (asked_hid \<circ> snd) (filter ?p (in_flight q)) @ ex)
        (q\<lparr>in_flight := filter (\<lambda>e. \<not> ?p e) (in_flight q)\<rparr>)) = mset (holders ex q)"
      by (simp add: holders_def ac_simps)
  qed (simp add: same_refs_def)
qed (rule refs_unref)


lemma refs_hold [refs_intros]: "refs_ok ex q \<Longrightarrow> refs_ok ex (hold V i f q)"
  by (simp add: hold_def Let_def refs_intros)

lemma refs_settle_stop:
  "refs_ok ex q \<Longrightarrow> i \<in> set (holders ex q) \<Longrightarrow> refs_ok ex (settle_stop V i stp q)"
  by (auto simp: settle_stop_def Let_def refs_intros)

lemma refs_settle_pause:
  assumes "refs_ok ex q" and "i \<in> set (holders ex q)"
  shows "refs_ok ex (snd (settle_pause V i q))"
proof -
  have "holders ex (snd (take_folder_stop i q)) = holders ex q"
    by (simp add: take_folder_stop_def)
  then have "refs_ok ex (settle_stop V i stp (snd (take_folder_stop i q)))" for stp
    using assms by (simp add: refs_settle_stop refs_intros)
  moreover have "refs_ok ex (snd (take_folder_stop i q))"
    using assms(1) by (rule refs_small)
  ultimately show ?thesis
    using assms by (auto simp: settle_pause_def refs_hold refs_small(2) split: prod.split option.split)
qed

lemma refs_settle_failed: "refs_ok ex q \<Longrightarrow> refs_ok ex (settle_failed V i failed q)"
  by (auto simp: settle_failed_def tell_failed_def case_prod_beta refs_intros split: option.split)

lemma refs_cleanup:
  assumes ok: "refs_ok ex q" and i: "i \<in> set (working q)" "distinct (working q)"
  shows "refs_ok ex (xfer_cleanup_dispatch V i q)"
proof -
  let ?q0 = "q\<lparr>working := filter (\<lambda>e. e \<noteq> i) (working q)\<rparr>"
  have "mset (working q) = add_mset i (mset (filter (\<lambda>e. e \<noteq> i) (working q)))"
  proof -
    have "filter (\<lambda>e. e \<noteq> i) (working q) = remove1 i (working q)"
      using i by (auto simp: distinct_remove1_removeAll removeAll_filter_not_eq intro!: filter_cong)
    then show ?thesis using i by simp
  qed
  then have "refs_ok (i # ex) ?q0"
    by (intro refs_ok_move [OF ok]) (simp_all add: same_refs_def holders_def)
  then have q1: "refs_ok (i # ex) (snd (take_failure i ?q0))" (is "refs_ok _ ?q1")
    by (rule refs_small)
  have h1: "i \<in> set (holders (i # ex) ?q1)"
    by (simp add: holders_def)
  have q2: "refs_ok (i # ex) (snd (settle_pause V i ?q1))"
    using q1 h1 by (rule refs_settle_pause)
  show ?thesis
    using q2 by (auto simp: xfer_cleanup_dispatch_def case_prod_beta split: bool.split prod.split
        intro!: refs_unref refs_settle_failed)
qed

section \<open>Replies\<close>

lemma refs_ready_write [refs_intros]:
  "refs_ok ex q \<Longrightarrow> i \<in> set (holders ex q) \<Longrightarrow> refs_ok ex (xfer_ready_write i q)"
proof -
  assume ok: "refs_ok ex q" and i: "i \<in> set (holders ex q)"
  from ok i have "refs_ok ex ((hx_htxf_ref i q)\<lparr>working := working q @ [i]\<rparr>)"
    by (rule refs_ref_move) (simp_all add: same_refs_def holders_def hx_htxf_ref_def on_handle_def)
  then show ?thesis
    using ok by (simp add: xfer_ready_write_def refs_intros)
qed

lemma refs_announce [refs_intros]:
  "refs_ok ex q \<Longrightarrow> i \<in> set (holders ex q) \<Longrightarrow> refs_ok ex (hx_xfer_announce i pos q)"
  by (simp add: hx_xfer_announce_def Let_def refs_intros)

lemma holders_take_run [simp]: "holders ex (snd (take_folder_run i q)) = holders ex q"
  by (simp add: take_folder_run_def holders_def split: option.split)

lemma holders_remember [simp]: "holders ex (remember_folder_items i n b q) = holders ex q"
  by (simp add: remember_folder_items_def holders_def)

lemma holders_answered [simp]: "holders ex (answered i q) = holders ex q"
  by (simp add: answered_def Let_def split: option.split Pause.split)

lemma refs_answered [refs_intros]: "refs_ok ex q \<Longrightarrow> refs_ok ex (answered i q)"
  by (simp add: answered_def Let_def refs_intros split: option.split Pause.split)

lemma refs_download_ready:
  "refs_ok ex q \<Longrightarrow> refs_ok ex (download_ready i folder t q)"
  by (simp add: download_ready_def Let_def refs_intros in_holders)

lemma refs_queued_refused:
  "refs_ok ex q \<Longrightarrow> i \<in> set (holders ex q) \<Longrightarrow> refs_ok ex (snd (queued_refused i q))"
proof -
  assume ok: "refs_ok ex q" and i: "i \<in> set (holders ex q)"
  let ?q1 = "\<lambda>n. on_handle i (\<lambda>h. h\<lparr>h_gone := False\<rparr>) (set_tries i (Some n) q)"
  have r: "retries (?q1 n) = retries q" for n
    by (simp add: on_handle_def set_tries_def)
  have "refs_ok ex ((hx_htxf_ref i (?q1 n))\<lparr>retries := retries q @ [i]\<rparr>)" for n
  proof (rule refs_ref_move)
    show "refs_ok ex (?q1 n)" using ok by (simp add: refs_intros)
    show "i \<in> set (holders ex (?q1 n))" using i by simp
  qed (use r in \<open>simp_all add: same_refs_def holders_def hx_htxf_ref_def on_handle_def\<close>)
  then show ?thesis
    using ok by (simp add: queued_refused_def refs_intros split: option.split)
qed

lemma refs_resume_refused: "refs_ok ex q \<Longrightarrow> refs_ok ex (snd (resume_refused V i q))"
  by (simp add: resume_refused_def refs_intros split: option.split Pause.split)

lemma refs_download_refused: "refs_ok ex q \<Longrightarrow> refs_ok ex (download_refused V i q)"
proof -
  assume ok: "refs_ok ex q"
  show ?thesis
  proof (cases "i \<in> set (xfers q)")
    case True
    have same: "snd (resume_refused V i q) = q" if "\<not> fst (resume_refused V i q)"
      using that by (auto simp: resume_refused_def split: option.splits Pause.splits)
    have timer: "refs_ok ex (q'\<lparr>go_timers := ts\<rparr>)" if "refs_ok ex q'" for q' ts
      using that by (rule refs_ok_same) (auto simp: same_holders_def same_refs_def)
    have "refs_ok ex (snd (queued_refused i q))"
      using ok in_holders [OF True] by (rule refs_queued_refused)
    with ok timer same refs_resume_refused [OF ok, of V i] show ?thesis
      by (auto simp: download_refused_def case_prod_beta refs_intros split: bool.split prod.split)
  qed (simp add: download_refused_def ok)
qed

lemma refs_upload_refused: "refs_ok ex q \<Longrightarrow> refs_ok ex (snd (upload_refused V i q))"
  by (auto simp: upload_refused_def upload_resume_refused_def Let_def case_prod_beta refs_intros in_holders
      split: option.split prod.split Pause.split)

lemma refs_upload_ready: "refs_ok ex q \<Longrightarrow> refs_ok ex (upload_ready V i folder t q)"
proof -
  assume ok: "refs_ok ex q"
  let ?q1 = "on_handle i (\<lambda>h. h\<lparr>h_queue := t_queue t\<rparr>) q"
  have q1: "refs_ok ex ?q1" using ok by (simp add: refs_intros)
  then have q2: "refs_ok ex (snd (size_upload V i t ?q1))"
    by (simp add: size_upload_def Let_def refs_intros)
  have h2: "holders ex (snd (size_upload V i t ?q1)) = holders ex q"
    by (simp add: size_upload_def Let_def)
  have changed: "refs_ok ex (snd (upload_file_changed V i q'))" if "refs_ok ex q'" for q'
    using that by (simp add: upload_file_changed_def refs_intros split: option.split Pause.split)
  have "refs_ok ex (hx_xfer_announce i (t_queue t) (on_handle i (\<lambda>h. h\<lparr>h_ref := t_reference t\<rparr>) (answered i q')))"
    if "refs_ok ex q'" "holders ex q' = holders ex q" "i \<in> set (xfers q)" for q'
    using that in_holders [of i q ex] by (simp add: refs_intros)
  with q1 q2 h2 show ?thesis
    by (auto simp: upload_ready_def Let_def case_prod_beta ok intro!: refs_upload_refused changed refs_small(1)
        split: bool.split prod.split)
qed

lemma refs_queue_moved: "refs_ok ex q \<Longrightarrow> refs_ok ex (queue_moved htlc r pos q)"
  by (auto simp: queue_moved_def htxf_with_ref_def find_Some_iff refs_intros in_holders split: option.split)

lemma mset_remove_first:
  "map_of kvs k = Some v \<Longrightarrow> mset kvs = add_mset (k, v) (mset (remove_first k kvs))"
  by (induction kvs) auto

lemma refs_taken:
  assumes "refs_ok ex q" and "map_of (in_flight q) k = Some w"
  shows "refs_ok (asked_hid w # ex) (q\<lparr>in_flight := remove_first k (in_flight q)\<rparr>)"
  using mset_remove_first [OF assms(2)]
  by (intro refs_ok_move [OF assms(1)]) (simp_all add: same_refs_def holders_def)

lemma refs_transfer_reply: "refs_ok ex q \<Longrightarrow> refs_ok ex (transfer_reply V k t q)"
  by (auto simp: transfer_reply_def Let_def split: option.split Asked.split
      intro!: refs_unref refs_download_ready refs_upload_ready dest: refs_taken)

lemma refs_transfer_failed: "refs_ok ex q \<Longrightarrow> refs_ok ex (transfer_failed V k q)"
  by (auto simp: transfer_failed_def Let_def split: option.split Asked.split
      intro!: refs_unref refs_download_refused refs_upload_refused dest: refs_taken)


section \<open>New transfers and workers\<close>

lemma refs_init:
  assumes "refs_ok [] q"
  shows "refs_ok [] (snd (xfer_init htlc p get sz q))"
proof -
  have new: "next_hid q \<notin> set (holders [] q)" and "refcount (handles q (next_hid q)) = 0"
    using assms by (auto simp: refs_ok_def)
  define q2 where "q2 = q\<lparr>next_hid := next_hid q + 1, xfers := xfers q @ [next_hid q],
      handles := (handles q)(next_hid q := hx_htxf_new\<lparr>h_path := p, h_get := get, refcount := 1\<rparr>)\<rparr>"
  have "count_list (holders [] q2) i = count_list (holders [] q) i + (if i = next_hid q then 1 else 0)"
    and "set (holders [] q2) = insert (next_hid q) (set (holders [] q))" for i
    by (auto simp: holders_def q2_def)
  then have "refs_ok [] q2"
    using assms new by (auto simp: refs_ok_def q2_def hx_htxf_new_def less_Suc_eq count_list_0_iff)
  moreover have "snd (xfer_init htlc p get sz q) =
      emit (FileUpdate (next_hid q)) (on_handle (next_hid q) (\<lambda>h. h\<lparr>h_htlc := htlc, total_size := max sz 1\<rparr>) q2)"
    by (simp add: xfer_init_def Let_def hx_htxf_ref_def on_handle_def q2_def emit_def hx_htxf_new_def)
  ultimately show ?thesis by (simp add: refs_intros)
qed

lemma init_listed: "fst (xfer_init htlc p get sz q) \<in> set (xfers (snd (xfer_init htlc p get sz q)))"
  by (simp add: xfer_init_def Let_def on_handle_def emit_def)

lemma xfers_on_handle [simp]: "xfers (on_handle i f q) = xfers q"
  by (simp add: on_handle_def)

lemma refs_new: "refs_ok [] q \<Longrightarrow> refs_ok [] (xfer_new V htlc p get prev srv q)"
  using refs_init [of q] init_listed
  by (auto simp: xfer_new_def Let_def case_prod_beta refs_intros in_holders)

lemma refs_new_folder:
  "refs_ok [] q \<Longrightarrow> refs_ok [] (hx_get_folder V htlc p q)"
  "refs_ok [] q \<Longrightarrow> refs_ok [] (hx_put_folder V htlc p q)"
  using refs_init [of q] init_listed
  by (auto simp: hx_get_folder_def hx_put_folder_def xfer_new_folder_def case_prod_beta refs_intros in_holders)

lemma same_disk: "same_holders q (q\<lparr>qdisk := d\<rparr>)"
  by (simp add: same_holders_def same_refs_def)

lemma refs_worker_parts [refs_intros]:
  "refs_ok ex q \<Longrightarrow> refs_ok ex (connected i large q)" "refs_ok ex q \<Longrightarrow> refs_ok ex (worker_left i s q)"
  "refs_ok ex q \<Longrightarrow> refs_ok ex (all_moved i q)" "refs_ok ex q \<Longrightarrow> refs_ok ex (finish_upload i q)"
  by (simp_all add: connected_def worker_left_def all_moved_def finish_upload_def refs_intros
      refs_ok_same [OF _ same_disk])

lemma holders_worker_parts [simp]:
  "holders ex (connected i large q) = holders ex q" "holders ex (worker_left i s q) = holders ex q"
  "holders ex (all_moved i q) = holders ex q" "holders ex (put_folder_run i r q) = holders ex q"
  "holders ex (snd (take_folder_items i q)) = holders ex q"
  by (simp_all add: connected_def worker_left_def all_moved_def put_folder_run_def holders_def
      take_folder_items_def on_handle_def split: option.split)

lemma refs_worker:
  assumes "refs_ok ex q" and "i \<in> set (holders ex q)"
  shows "refs_ok ex (xfer_worker_entry V i c q)"
proof -
  have "refs_ok ex (get_thread V i c q)" "refs_ok ex (put_thread V i c q)"
    using assms by (simp_all add: get_thread_def put_thread_def Let_def case_prod_beta refs_intros split: option.split)
  moreover have "refs_ok ex (folder_get_thread V i c q)"
    using assms by (simp add: folder_get_thread_def Let_def case_prod_beta refs_intros split: option.split)
  moreover have "refs_ok ex (folder_put_thread V i c q)"
    using assms by (simp add: folder_put_thread_def Let_def case_prod_beta refs_intros split: option.split)
  ultimately show ?thesis
    by (simp add: xfer_worker_entry_def split: bool.split)
qed

lemma refs_tasks_update: "refs_ok ex q \<Longrightarrow> refs_ok ex (xfer_tasks_update htlc q)"
proof -
  have "refs_ok ex q \<Longrightarrow> refs_ok ex (fold (\<lambda>i. emit (FileUpdate i)) is q)" for "is"
    by (induction "is" arbitrary: q) (simp_all add: refs_intros)
  then show "refs_ok ex q \<Longrightarrow> refs_ok ex (xfer_tasks_update htlc q)"
    by (simp add: xfer_tasks_update_def)
qed

lemma mset_swap_at: "n + 1 < length xs \<Longrightarrow> mset (swap_at n xs) = mset xs"
  unfolding swap_at_def by (rule mset_swap) simp_all

lemma refs_move: "refs_ok ex q \<Longrightarrow> refs_ok ex (xfer_up n q)" "refs_ok ex q \<Longrightarrow> refs_ok ex (snd (xfer_down n q))"
  by (auto simp: xfer_up_def xfer_down_def elim!: refs_ok_move)
     (simp_all add: same_refs_def holders_def mset_swap_at)

end
