(* ===== verification/Xfer_Queue_Inv.thy ===== *)
theory Xfer_Queue_Inv
  imports Xfer_Refs
begin

text \<open>
  The tables of the transfer registry and the queue's progress.  \<open>tables_ok\<close> says what the tables hold in
  every state the registry is in between two events: one row and one worker a transfer, entries for
  listed transfers only, a worker's transfer neither settled nor asked for again, the requests in flight
  of the kind of their transfer, and folder runs for folders only.  \<open>W\<close> is the transfer whose pause is being settled and \<open>X\<close> the one being
  asked for again, where an operation is in the middle of that.
\<close>

section \<open>Invariant\<close>

fun asked_fits :: "Registry \<Rightarrow> Asked \<Rightarrow> bool" where
  "asked_fits q (Download i f) \<longleftrightarrow> h_get (handles q i) \<and> f = opt_is_folder (handles q i)"
| "asked_fits q (Upload i f) \<longleftrightarrow> \<not> h_get (handles q i) \<and> f = opt_is_folder (handles q i)"

fun waits_reply :: "Pause option \<Rightarrow> bool" where
  "waits_reply (Some (PAsked k)) = True"
| "waits_reply (Some (Restarted k)) = True"
| "waits_reply p = False"

fun is_restarted :: "Pause option \<Rightarrow> bool" where
  "is_restarted (Some (Restarted k)) = True"
| "is_restarted p = False"

definition rows_ok :: "Registry \<Rightarrow> bool" where
  "rows_ok q \<longleftrightarrow>
     distinct (xfers q) \<and> distinct (working q) \<and> distinct (returned q) \<and> set (returned q) \<subseteq> set (working q) \<and>
     fst ` set (pauses q) \<subseteq> set (xfers q) \<and> fst ` set (queued_tries q) \<subseteq> set (xfers q) \<and>
     fst ` set (held_bytes q) \<subseteq> set (xfers q) \<and> snd ` set (queued_tries q) \<subseteq> {..QUEUE_TRIES} \<and>
     go_timers q = [] \<and> (\<forall>i. \<not> opt_retry (handles q i))"

definition pauses_ok :: "hid set \<Rightarrow> hid set \<Rightarrow> Registry \<Rightarrow> bool" where
  "pauses_ok W X q \<longleftrightarrow>
     (\<forall>i\<in>set (working q). pause_of q i \<in> {None, Some Winding}) \<and>
     (\<forall>i. pause_of q i = Some Winding \<longrightarrow> i \<in> set (working q) \<union> W) \<and>
     (\<forall>i. waits_reply (pause_of q i) \<longrightarrow> opt_is_folder (handles q i) \<or> h_gone (handles q i) \<or> i \<in> X) \<and>
     (\<forall>i. is_restarted (pause_of q i) \<longrightarrow> \<not> h_get (handles q i))"

definition run_keys :: "Registry \<Rightarrow> hid set" where
  "run_keys q = fst ` set (folder_runs q)"

lemma run_keys_in_flight [simp]: "run_keys (q\<lparr>in_flight := fl\<rparr>) = run_keys q"
  by (simp add: run_keys_def)

definition requests_ok :: "Registry \<Rightarrow> bool" where
  "requests_ok q \<longleftrightarrow>
     (\<forall>w\<in>snd ` set (in_flight q). asked_fits q w) \<and> (\<forall>i\<in>run_keys q. i < next_hid q \<and> opt_is_folder (handles q i))"

definition tables_ok :: "hid set \<Rightarrow> hid set \<Rightarrow> Registry \<Rightarrow> bool" where
  "tables_ok W X q \<longleftrightarrow> rows_ok q \<and> pauses_ok W X q \<and> requests_ok q"

lemmas tables_defs = tables_ok_def rows_ok_def pauses_ok_def requests_ok_def

section \<open>States that agree on the tables\<close>

definition same_view :: "Registry \<Rightarrow> Registry \<Rightarrow> bool" where
  "same_view q q' \<longleftrightarrow>
     xfers q' = xfers q \<and> working q' = working q \<and> returned q' = returned q \<and> pauses q' = pauses q \<and>
     queued_tries q' = queued_tries q \<and> held_bytes q' = held_bytes q \<and> go_timers q' = go_timers q \<and>
     retries q' = retries q \<and> in_flight q' = in_flight q \<and>
     run_keys q' \<subseteq> run_keys q \<and> next_hid q' = next_hid q \<and>
     (\<forall>i. h_get (handles q' i) = h_get (handles q i) \<and> opt_is_folder (handles q' i) = opt_is_folder (handles q i) \<and>
        opt_retry (handles q' i) = opt_retry (handles q i) \<and> h_gone (handles q' i) = h_gone (handles q i))"

named_theorems views \<open>operations that leave the tables as they are\<close>

lemma same_view_refl [simp]: "same_view q q"
  by (simp add: same_view_def)

lemma same_view_trans: "same_view q q' \<Longrightarrow> same_view q' q'' \<Longrightarrow> same_view q q''"
  unfolding same_view_def by (auto 0 3)

lemma asked_fits_view: "same_view q q' \<Longrightarrow> asked_fits q' w \<longleftrightarrow> asked_fits q w"
  by (cases w) (simp_all add: same_view_def)

lemma tables_view: "tables_ok W X q \<Longrightarrow> same_view q q' \<Longrightarrow> tables_ok W X q'"
  by (simp add: tables_defs asked_fits_view) (auto simp: same_view_def pause_of_def)

lemma view_on_handle [views]:
  "(\<And>h. h_get (f h) = h_get h \<and> opt_is_folder (f h) = opt_is_folder h \<and> opt_retry (f h) = opt_retry h \<and>
     h_gone (f h) = h_gone h) \<Longrightarrow> same_view q (on_handle i f q)"
  by (simp add: same_view_def on_handle_def run_keys_def)

lemma fst_update_first [simp]: "fst ` set (update_first k f xs) = fst ` set xs"
  by (induction xs) auto

lemma fst_remove_first: "fst ` set (remove_first k xs) \<subseteq> fst ` set xs"
  by (induction xs) auto

lemma view_small [views]:
  "same_view q (emit x q)" "same_view q (with_folder_run i f q)"
  "same_view q (remember_folder_items i m c q)" "same_view q (snd (take_folder_run i q))"
  "same_view q (snd (take_folder_items i q))" "same_view q (note_failure i w q)"
  "same_view q (snd (take_failure i q))" "same_view q (htxf_destructor i q)"
  "same_view q (snd (take_folder_stop i q))" "same_view q (q\<lparr>qdisk := d\<rparr>)" "same_view q (q\<lparr>posted := ps\<rparr>)"
  by (simp_all add: same_view_def run_keys_def emit_def with_folder_run_def remember_folder_items_def fst_remove_first
      take_folder_run_def take_folder_items_def note_failure_def take_failure_def htxf_destructor_def
      take_folder_stop_def split: option.split)

lemma view_ref [views]: "same_view q (hx_htxf_ref i q)"
  by (simp add: hx_htxf_ref_def views)

lemma view_unref [views]: "same_view q (hx_htxf_unref i q)"
  unfolding hx_htxf_unref_def Let_def
  by (auto intro!: same_view_trans [OF _ view_on_handle] same_view_trans [OF _ view_small(8)] view_on_handle)

lemma view_post [views]: "same_view q (post_file_update i q)"
  unfolding post_file_update_def by (rule same_view_trans [OF view_ref view_small(11)])

section \<open>Setting an entry\<close>

lemma map_of_set_assoc: "map_of (set_assoc k v xs) = (map_of xs)(k := v)"
proof -
  have "map_of (filter (\<lambda>e. fst e \<noteq> k) xs) = (map_of xs)(k := None)"
    by (induction xs) auto
  then show ?thesis
    by (auto simp: set_assoc_def map_add_def split: option.split)
qed

lemma set_set_assoc:
  "fst ` set (set_assoc k v xs) \<subseteq> S \<longleftrightarrow> fst ` {e \<in> set xs. fst e \<noteq> k} \<subseteq> S \<and> (v \<noteq> None \<longrightarrow> k \<in> S)"
  "snd ` set (set_assoc k v xs) \<subseteq> T \<longleftrightarrow> snd ` {e \<in> set xs. fst e \<noteq> k} \<subseteq> T \<and> (\<forall>x. v = Some x \<longrightarrow> x \<in> T)"
  by (auto simp: set_assoc_def split: option.splits)

lemma pause_of_set_pause: "pause_of (set_pause i p q) j = (if j = i then p else pause_of q j)"
  by (simp add: pause_of_def set_pause_def map_of_set_assoc)

lemma set_pause_frame [simp]:
  "xfers (set_pause i p q) = xfers q" "working (set_pause i p q) = working q" "returned (set_pause i p q) = returned q"
  "queued_tries (set_pause i p q) = queued_tries q" "held_bytes (set_pause i p q) = held_bytes q"
  "go_timers (set_pause i p q) = go_timers q" "retries (set_pause i p q) = retries q"
  "in_flight (set_pause i p q) = in_flight q" "run_keys (set_pause i p q) = run_keys q" "next_hid (set_pause i p q) = next_hid q" "handles (set_pause i p q) = handles q"
  by (simp_all add: set_pause_def run_keys_def)

lemma set_tries_frame [simp]:
  "xfers (set_tries i n q) = xfers q" "working (set_tries i n q) = working q" "returned (set_tries i n q) = returned q"
  "pauses (set_tries i n q) = pauses q" "held_bytes (set_tries i n q) = held_bytes q"
  "go_timers (set_tries i n q) = go_timers q" "retries (set_tries i n q) = retries q"
  "in_flight (set_tries i n q) = in_flight q" "run_keys (set_tries i n q) = run_keys q" "next_hid (set_tries i n q) = next_hid q" "handles (set_tries i n q) = handles q"
  by (simp_all add: set_tries_def run_keys_def)

lemma set_held_frame [simp]:
  "xfers (set_held i n q) = xfers q" "working (set_held i n q) = working q" "returned (set_held i n q) = returned q"
  "pauses (set_held i n q) = pauses q" "queued_tries (set_held i n q) = queued_tries q"
  "go_timers (set_held i n q) = go_timers q" "retries (set_held i n q) = retries q"
  "in_flight (set_held i n q) = in_flight q" "run_keys (set_held i n q) = run_keys q" "next_hid (set_held i n q) = next_hid q" "handles (set_held i n q) = handles q"
  by (simp_all add: set_held_def run_keys_def)

lemma asked_fits_handles: "handles q' = handles q \<Longrightarrow> asked_fits q' w = asked_fits q w"
  by (cases w) simp_all

text \<open>The pauses a transfer whose worker does not run may be given, and the one it may have while it runs.\<close>

lemma tables_set_pause:
  assumes ok: "tables_ok W X q"
    and listed: "p \<noteq> None \<Longrightarrow> i \<in> set (xfers q)"
    and work: "p \<noteq> None \<Longrightarrow> p \<noteq> Some Winding \<Longrightarrow> i \<notin> set (working q)"
    and winding: "p = Some Winding \<Longrightarrow> i \<in> set (working q)"
    and asked: "waits_reply p \<Longrightarrow> opt_is_folder (handles q i) \<or> h_gone (handles q i) \<or> i \<in> X"
    and restarted: "is_restarted p \<Longrightarrow> \<not> h_get (handles q i)"
  shows "tables_ok W X (set_pause i p q)"
proof -
  have "rows_ok (set_pause i p q)"
  proof -
    have "fst ` set (pauses (set_pause i p q)) \<subseteq> set (xfers q)"
      using ok listed by (auto simp: tables_defs set_pause_def set_set_assoc)
    then show ?thesis using ok by (simp add: tables_ok_def rows_ok_def)
  qed
  moreover have "p \<in> {None, Some Winding}" if "i \<in> set (working q)"
    using work that by blast
  then have "pauses_ok W X (set_pause i p q)"
    using ok winding asked restarted by (auto simp: tables_ok_def pauses_ok_def pause_of_set_pause)
  moreover have "requests_ok (set_pause i p q)"
    using ok asked_fits_handles [of "set_pause i p q" q] by (simp add: tables_ok_def requests_ok_def)
  ultimately show ?thesis by (simp add: tables_ok_def)
qed

lemma tables_settled:
  assumes ok: "tables_ok (insert i W) X q"
    and listed: "p \<noteq> None \<Longrightarrow> i \<in> set (xfers q) \<and> i \<notin> set (working q)"
    and p: "p \<noteq> Some Winding" "\<not> waits_reply p"
  shows "tables_ok W X (set_pause i p q)"
proof -
  have "\<not> is_restarted p" using p(2) by (cases p rule: waits_reply.cases) simp_all
  then have "tables_ok (insert i W) X (set_pause i p q)"
    using ok listed p by (intro tables_set_pause) auto
  moreover have "pause_of (set_pause i p q) j = Some Winding \<Longrightarrow> j \<noteq> i" for j
    using p by (auto simp: pause_of_set_pause)
  ultimately show ?thesis
    unfolding tables_ok_def pauses_ok_def by blast
qed

lemma tables_set_tries:
  assumes "tables_ok W X q" and "\<And>m. n = Some m \<Longrightarrow> i \<in> set (xfers q) \<and> m \<le> QUEUE_TRIES"
  shows "tables_ok W X (set_tries i n q)"
proof -
  have "fst ` set (queued_tries (set_tries i n q)) \<subseteq> set (xfers q)"
    and "snd ` set (queued_tries (set_tries i n q)) \<subseteq> {..QUEUE_TRIES}"
    using assms by (auto simp: tables_defs set_tries_def set_set_assoc)
  moreover have "asked_fits (set_tries i n q) w = asked_fits q w" "pause_of (set_tries i n q) = pause_of q" for w
    by (simp_all add: asked_fits_handles [of "set_tries i n q" q] fun_eq_iff pause_of_def)
  ultimately show ?thesis
    using assms(1) by (simp add: tables_defs)
qed

lemma tables_set_held:
  assumes "tables_ok W X q" and "n \<noteq> None \<Longrightarrow> i \<in> set (xfers q)"
  shows "tables_ok W X (set_held i n q)"
proof -
  have "fst ` set (held_bytes (set_held i n q)) \<subseteq> set (xfers q)"
    using assms by (auto simp: tables_defs set_held_def set_set_assoc)
  moreover have "asked_fits (set_held i n q) w = asked_fits q w" "pause_of (set_held i n q) = pause_of q" for w
    by (simp_all add: asked_fits_handles [of "set_held i n q" q] fun_eq_iff pause_of_def)
  ultimately show ?thesis
    using assms(1) by (simp add: tables_defs)
qed

text \<open>Whether a request has gone.\<close>

lemma tables_handle:
  assumes "tables_ok W X q"
    and "\<And>h. h_get (f h) = h_get h \<and> opt_is_folder (f h) = opt_is_folder h \<and> opt_retry (f h) = opt_retry h"
    and "waits_reply (pause_of q i) \<Longrightarrow> opt_is_folder (handles q i) \<or> h_gone (f (handles q i)) \<or> i \<in> Y"
    and "X - {i} \<subseteq> Y"
  shows "tables_ok W Y (on_handle i f q)"
proof -
  have "asked_fits (on_handle i f q) w = asked_fits q w" for w
    using assms(2) by (cases w) (simp_all add: on_handle_def)
  moreover have "pause_of (on_handle i f q) = pause_of q"
    by (simp add: fun_eq_iff pause_of_def on_handle_def)
  ultimately show ?thesis
    using assms by (simp add: tables_defs) (auto simp: on_handle_def run_keys_def)
qed


lemma tables_mono: "tables_ok W X q \<Longrightarrow> X \<subseteq> Y \<Longrightarrow> tables_ok W Y q"
  by (auto simp: tables_ok_def pauses_ok_def)

section \<open>Requests\<close>

text \<open>States that differ only in the requests in flight, and in what the tables do not hold.\<close>

definition same_rows :: "Registry \<Rightarrow> Registry \<Rightarrow> bool" where
  "same_rows q q' \<longleftrightarrow> same_view q (q'\<lparr>in_flight := in_flight q\<rparr>)"

lemma rows_view: "same_view q q' \<Longrightarrow> same_rows q q'"
  by (simp add: same_rows_def same_view_def)

lemma same_rows_trans: "same_rows q q' \<Longrightarrow> same_rows q' q'' \<Longrightarrow> same_rows q q''"
  unfolding same_rows_def same_view_def by (auto 0 3)

lemma same_rowsD:
  assumes "same_rows q q'"
  shows "xfers q' = xfers q" "working q' = working q" "retries q' = retries q" "pause_of q' = pause_of q"
    "paused q' = paused q" "tries_of q' = tries_of q" "returned q' = returned q"
    "h_get (handles q' i) = h_get (handles q i)" "opt_is_folder (handles q' i) = opt_is_folder (handles q i)"
    "h_gone (handles q' i) = h_gone (handles q i)"
  using assms by (simp_all add: same_rows_def same_view_def pause_of_def tries_of_def paused_def fun_eq_iff)

lemma rows_send [intro!]: "same_rows q (send_request V w r q)"
  by (simp add: send_request_def expect_transfer_def Let_def same_rows_def same_view_def run_keys_def emit_def hx_htxf_ref_def
      on_handle_def)

lemma tables_send:
  assumes ok: "tables_ok W X q" and w: "asked_fits q w"
  shows "tables_ok W X (send_request V w r q)"
proof -
  let ?q1 = "expect_transfer (h_htlc (handles q (asked_hid w))) w q"
  have same: "same_view q (?q1\<lparr>in_flight := in_flight q\<rparr>)"
    by (simp add: expect_transfer_def same_view_def run_keys_def hx_htxf_ref_def on_handle_def)
  have "asked_fits ?q1 v = asked_fits (?q1\<lparr>in_flight := in_flight q\<rparr>) v" for v
    by (rule asked_fits_handles) simp
  then have fits: "asked_fits ?q1 v = asked_fits q v" for v
    using asked_fits_view [OF same] by simp
  have "tables_ok W X (?q1\<lparr>in_flight := in_flight q\<rparr>)"
    using ok same by (rule tables_view)
  then have "rows_ok ?q1" "pauses_ok W X ?q1" and runs: "\<forall>i\<in>run_keys ?q1. i < next_hid ?q1 \<and> opt_is_folder (handles ?q1 i)"
    by (simp_all add: tables_ok_def rows_ok_def pauses_ok_def pause_of_def requests_ok_def)
  moreover have "in_flight ?q1 = ((h_htlc (handles q (asked_hid w)), next_trans q), w) # in_flight q"
    by (simp add: expect_transfer_def)
  then have "requests_ok ?q1"
    using ok w fits runs by (simp add: tables_ok_def requests_ok_def)
  ultimately have "tables_ok W X ?q1" by (simp add: tables_ok_def)
  then show ?thesis
    using ok tables_view [OF _ view_small(1)] by (simp add: send_request_def Let_def)
qed

lemma view_local_target: "same_view q (snd (local_target V i kept q))"
  by (simp add: local_target_def Let_def view_on_handle)

lemma tables_go_get:
  assumes "tables_ok W X q" and "h_get (handles q i)" and "\<not> opt_is_folder (handles q i)"
  shows "tables_ok W X (xfer_go_get V i kept q)"
proof -
  have view: "same_view q (snd (local_target V i kept q))" by (rule view_local_target)
  then show ?thesis
    using assms tables_view [OF assms(1) view] asked_fits_view [OF view, of "Download i False"]
    by (auto simp: xfer_go_get_def Let_def case_prod_beta intro!: tables_send)
qed

lemma rows_go_get: "same_rows q (xfer_go_get V i kept q)"
  unfolding xfer_go_get_def Let_def case_prod_beta
  by (rule same_rows_trans [OF rows_view [OF view_local_target] rows_send])

lemma tables_go_put:
  "tables_ok W X q \<Longrightarrow> \<not> h_get (handles q i) \<Longrightarrow> \<not> opt_is_folder (handles q i) \<Longrightarrow>
   tables_ok W X (xfer_go_put V i resume q)"
  by (simp add: xfer_go_put_def Let_def tables_send)

lemma rows_go_put: "same_rows q (xfer_go_put V i resume q)"
  by (simp add: xfer_go_put_def Let_def rows_send)

lemma go_request_gone:
  "\<not> h_gone (handles q i) \<Longrightarrow> same_rows (on_handle i (\<lambda>h. h\<lparr>h_gone := True\<rparr>) q) (go_request V i kept full q)"
  using rows_go_get [of "on_handle i (\<lambda>h. h\<lparr>h_gone := True\<rparr>) q" V i kept]
    rows_go_put [of "on_handle i (\<lambda>h. h\<lparr>h_gone := True\<rparr>) q" V i full]
  by (auto simp: go_request_def Let_def split: option.split
      intro!: same_rows_trans [OF _ rows_view [OF view_small(1)]] same_rows_trans [OF _ rows_view [OF view_on_handle]])

lemma tables_go_request:
  assumes ok: "tables_ok W (insert i X) q" and solo: "\<not> opt_is_folder (handles q i)"
  shows "tables_ok W X (go_request V i kept full q)"
proof (cases "h_gone (handles q i)")
  case True
  then have "tables_ok W X q" using ok by (auto simp: tables_ok_def pauses_ok_def)
  with True show ?thesis by (simp add: go_request_def)
next
  case False
  let ?q1 = "on_handle i (\<lambda>h. h\<lparr>h_gone := True\<rparr>) q"
  have q1: "tables_ok W X ?q1"
    using ok by (rule tables_handle) auto
  have h1: "h_get (handles ?q1 i) = h_get (handles q i)" "\<not> opt_is_folder (handles ?q1 i)"
    using solo by (simp_all add: on_handle_def)
  show ?thesis
  proof (cases "h_get (handles q i)")
    case True
    then have "tables_ok W X (xfer_go_get V i kept ?q1)" using q1 h1 by (simp add: tables_go_get)
    then show ?thesis
      using False True h1 by (auto simp: go_request_def Let_def split: option.split
          intro!: tables_view [OF _ view_small(1)] tables_view [OF _ view_on_handle])
  next
    case put: False
    then have "tables_ok W X (xfer_go_put V i full ?q1)" using q1 h1 by (simp add: tables_go_put)
    then show ?thesis
      using False put h1 by (auto simp: go_request_def Let_def split: option.split
          intro!: tables_view [OF _ view_small(1)] tables_view [OF _ view_on_handle])
  qed
qed

lemma settled_keptD:
  "settled_kept p = Some k \<Longrightarrow> p = Some (Paused k) \<or> (\<exists>w. p = Some (PFailed k w))"
  by (cases p rule: settled_kept.cases) auto

lemma pause_listed: 
  assumes "tables_ok W X q" and "pause_of q i = Some p"
  shows "i \<in> set (xfers q)"
proof -
  have "i \<in> fst ` set (pauses q)"
    using assms(2) by (force simp: pause_of_def dest: map_of_SomeD)
  then show ?thesis
    using assms(1) by (auto simp: tables_ok_def rows_ok_def)
qed

lemma settled_idle:
  "tables_ok W X q \<Longrightarrow> settled_kept (pause_of q i) = Some kept \<Longrightarrow> i \<in> set (xfers q) \<and> i \<notin> set (working q)"
proof -
  assume ok: "tables_ok W X q" and k: "settled_kept (pause_of q i) = Some kept"
  from k obtain p where p: "pause_of q i = Some p" "p \<noteq> Winding" by (auto dest: settled_keptD)
  then have "i \<in> set (xfers q)"
    using pause_listed [OF ok] by blast
  moreover have "i \<notin> set (working q)"
    using ok p by (auto simp: tables_ok_def pauses_ok_def)
  ultimately show ?thesis by simp
qed

lemma tables_file_go:
  assumes ok: "tables_ok W X q" and i: "i \<in> set (xfers q)" and solo: "\<not> opt_is_folder (handles q i)"
  shows "tables_ok W X (xfer_go_file V i q)"
proof (cases "settled_kept (pause_of q i)")
  case None
  then show ?thesis
    using tables_go_request [of W i X q V None None] ok solo
    by (auto simp: xfer_go_file_def tables_ok_def pauses_ok_def split: option.split)
next
  case (Some kept)
  then have p: "pause_of q i \<noteq> None" by (auto dest: settled_keptD)
  have idle: "i \<notin> set (working q)"
    using settled_idle [OF ok Some] by simp
  have changed: "tables_ok W X (set_pause i (Some (PChanged k)) q)" for k
    using ok i idle by (intro tables_set_pause) auto
  let ?f = "\<lambda>h. h\<lparr>h_gone := False, h_data_pos := 0, h_rsrc_pos := 0, total_pos := 0\<rparr>"
  have "tables_ok W (insert i X) q"
    using ok by (auto simp: tables_ok_def pauses_ok_def)
  then have asked: "tables_ok W (insert i X) (set_pause i (Some (PAsked kept)) q)"
    using i idle by (intro tables_set_pause) auto
  then have "tables_ok W (insert i X) (on_handle i ?f (set_pause i (Some (PAsked kept)) q))"
    by (rule tables_handle) auto
  then have "tables_ok W X (go_request V i (Some kept) full (on_handle i ?f (set_pause i (Some (PAsked kept)) q)))" for full
    using solo by (intro tables_go_request) (simp_all add: on_handle_def)
  then show ?thesis
    using Some p changed tables_view [OF _ view_small(1)]
    by (auto simp: xfer_go_file_def Let_def)
qed


section \<open>The queue\<close>

lemma tables_start_next:
  assumes "tables_ok W X q"
  shows "tables_ok W X (start_next V q)"
proof -
  have "tables_ok W X (queue_starts V i q)" if "i \<in> set (xfers q)" "\<not> opt_is_folder (handles q i)" for i
  proof -
    have same: "same_rows q (start_file V i q) \<or>
        same_rows (on_handle i (\<lambda>h. h\<lparr>h_gone := True\<rparr>) q) (start_file V i q)"
      using go_request_gone [of q i V None None] rows_view [OF same_view_refl]
      by (auto simp: start_file_def go_request_def)
    then have "i \<in> set (xfers (start_file V i q))"
      using that by (auto dest: same_rowsD(1))
    moreover have "tables_ok W (insert i X) q"
      using assms by (rule tables_mono) auto
    then have "tables_ok W X (start_file V i q)"
      using assms that by (simp add: start_file_def tables_go_request)
    ultimately show ?thesis
      by (auto simp: queue_starts_def Let_def intro!: tables_set_tries)
  qed
  then show ?thesis
    using assms by (auto simp: start_next_eq find_Some_iff split: option.split)
qed

lemma tables_unlink:
  assumes ok: "tables_ok W X q"
  shows "tables_ok W X (unlink i q)"
proof -
  let ?q1 = "set_held i None (set_tries i None (set_pause i None (emit (XferDestroyed i) (q\<lparr>xfers := remove1 i (xfers q)\<rparr>))))"
  have x: "xfers ?q1 = remove1 i (xfers q)" "set (remove1 i (xfers q)) = set (xfers q) - {i}"
    "pauses ?q1 = set_assoc i None (pauses q)" "queued_tries ?q1 = set_assoc i None (queued_tries q)"
    "held_bytes ?q1 = set_assoc i None (held_bytes q)"
    using ok by (simp_all add: emit_def tables_defs set_pause_def set_tries_def set_held_def)
  have rest: "handles ?q1 = handles q" "working ?q1 = working q" "returned ?q1 = returned q"
      "go_timers ?q1 = go_timers q" "in_flight ?q1 = in_flight q" "run_keys ?q1 = run_keys q" "next_hid ?q1 = next_hid q"
    by (simp_all add: emit_def run_keys_def) (simp_all add: set_pause_def set_tries_def set_held_def)
  have "pause_of ?q1 j = (if j = i then None else pause_of q j)" for j
    unfolding pause_of_def x(3) by (simp add: map_of_set_assoc)
  moreover have "rows_ok ?q1"
    using ok unfolding rows_ok_def x rest set_set_assoc by (auto simp: tables_defs)
  moreover have "asked_fits ?q1 w = asked_fits q w" for w
    by (rule asked_fits_handles) (rule rest)
  ultimately have "tables_ok W X ?q1"
    using ok unfolding tables_ok_def pauses_ok_def requests_ok_def rest by auto
  then show ?thesis
    unfolding unlink_def by (rule tables_view) (rule view_unref)
qed

lemma tables_remove: "tables_ok W X q \<Longrightarrow> tables_ok W X (xfer_remove_from_list V i q)"
  by (simp add: xfer_remove_from_list.simps tables_start_next tables_unlink)

lemma tables_ask_put:
  assumes "tables_ok W X q" and "\<not> h_get (handles q i)" and "opt_is_folder (handles q i)"
  shows "tables_ok W X (snd (ask_put_folder V i sent q))"
  using assms by (auto simp: ask_put_folder_def Let_def case_prod_beta
      intro!: tables_send tables_view [OF _ view_on_handle]) (simp_all add: on_handle_def)

lemma tables_ask_folder:
  "tables_ok W X q \<Longrightarrow> h_get (handles q i) \<Longrightarrow> opt_is_folder (handles q i) \<Longrightarrow> tables_ok W X (ask_folder V i q)"
  by (simp add: ask_folder_def tables_send)

lemma rows_ask_put: "same_rows q (snd (ask_put_folder V i sent q))"
  by (auto simp: ask_put_folder_def Let_def case_prod_beta rows_view
      intro!: same_rows_trans [OF rows_view [OF view_on_handle] rows_send])

lemma tables_resume_upload:
  assumes ok: "tables_ok W X q" and i: "i \<in> set (xfers q)" "i \<notin> set (working q)"
    and kind: "\<not> h_get (handles q i)" "opt_is_folder (handles q i)"
  shows "tables_ok W X (snd (resume_upload V i kept q))"
proof -
  let ?q1 = "on_handle i (\<lambda>h. h\<lparr>total_pos := 0\<rparr>) (set_pause i (Some (PAsked kept)) q)"
  have "tables_ok W X (set_pause i (Some (PAsked kept)) q)"
    using ok i kind by (intro tables_set_pause) auto
  then have q1: "tables_ok W X ?q1"
    by (rule tables_view) (simp add: views)
  have ask: "tables_ok W X (snd (ask_put_folder V i s q'))" if "tables_ok W X q'" "handles q' = handles ?q1" for s q'
    using that kind by (intro tables_ask_put) (simp_all add: on_handle_def)
  have run: "tables_ok W X (with_folder_run i f ?q1)" for f
    using q1 by (rule tables_view) (rule view_small)
  have "handles (with_folder_run i f ?q1) = handles ?q1" for f
    by (simp add: with_folder_run_def)
  note asked = ask [OF q1 refl] ask [OF run this]
  have "tables_ok W X (set_pause i (Some (PChanged kept)) q)"
    using ok i by (intro tables_set_pause) auto
  then show ?thesis
    using asked by (auto simp: resume_upload_def Let_def case_prod_beta
        intro!: tables_view [OF _ view_small(1)] tables_set_pause split: option.split bool.split)
qed

lemma tables_resume_ask:
  assumes ok: "tables_ok W X q" and folder: "opt_is_folder (handles q i)"
  shows "tables_ok W X (snd (resume_ask V i q))"
proof (cases "settled_kept (pause_of q i)")
  case (Some kept)
  have i: "i \<in> set (xfers q)" "i \<notin> set (working q)"
    using settled_idle [OF ok Some] by simp_all
  have "tables_ok W X (resume_download V i kept q)" if "h_get (handles q i)"
  proof -
    have "tables_ok W X (set_pause i (Some (PAsked kept)) q)"
      using ok i folder by (intro tables_set_pause) auto
    then have "tables_ok W X (on_handle i (\<lambda>h. h\<lparr>total_pos := 0\<rparr>)
        (set_held i (Some b) (set_pause i (Some (PAsked kept)) q)))" for b
      using i by (intro tables_view [OF tables_set_held view_on_handle]) simp_all
    then show ?thesis
      unfolding resume_download_def Let_def using that folder
      by (intro tables_view [OF tables_ask_folder view_small(1)]) (simp_all add: on_handle_def)
  qed
  then show ?thesis
    using Some tables_resume_upload [OF ok i _ folder, of V] by (simp add: resume_ask_def)
qed (simp add: resume_ask_def ok)

lemma tables_resume_folder:
  "tables_ok W X q \<Longrightarrow> opt_is_folder (handles q i) \<Longrightarrow> tables_ok W X (resume_folder V i q)"
  using tables_resume_ask [of W X q i V]
  by (auto simp: resume_folder.simps tables_remove split: prod.split bool.split)

lemma tables_xfer_go: "tables_ok W X q \<Longrightarrow> i \<in> set (xfers q) \<Longrightarrow> tables_ok W X (xfer_go V i q)"
  by (simp add: xfer_go.simps tables_resume_folder tables_file_go)

lemma tables_delete: "tables_ok W X q \<Longrightarrow> tables_ok W X (xfer_delete V i q)"
  unfolding xfer_delete_def by (intro tables_remove) (erule tables_view, simp add: view_on_handle)

lemma tables_delete_on_conn: "tables_ok W X q \<Longrightarrow> tables_ok W X (xfers_delete_on_conn V htlc q)"
proof -
  have "tables_ok W X q \<Longrightarrow> tables_ok W X (fold (xfer_delete V) is q)" for "is"
    by (induction "is" arbitrary: q) (simp_all add: tables_delete)
  then show "tables_ok W X q \<Longrightarrow> tables_ok W X (xfers_delete_on_conn V htlc q)"
    by (simp add: xfers_delete_on_conn_def)
qed


section \<open>Workers that end\<close>

lemma tables_not_winding:
  "tables_ok (insert i W) X q \<Longrightarrow> pause_of q i \<noteq> Some Winding \<Longrightarrow> tables_ok W X q"
  by (auto simp: tables_ok_def pauses_ok_def)

lemma tables_hold:
  assumes "tables_ok (insert i W) X q" and "i \<in> set (xfers q)" "i \<notin> set (working q)"
    and "\<And>k. f k \<noteq> Winding \<and> \<not> waits_reply (Some (f k))"
  shows "tables_ok W X (hold V i f q)"
proof -
  have "tables_ok (insert i W) X (on_handle i (\<lambda>h. h\<lparr>abort_fired := False\<rparr>) q)"
    using assms(1) by (rule tables_view) (simp add: view_on_handle)
  then have "tables_ok W X (set_pause i (Some (f k)) (on_handle i (\<lambda>h. h\<lparr>abort_fired := False\<rparr>) q))" for k
    using assms(2-4) by (rule_tac tables_settled) (simp_all add: on_handle_def)
  then show ?thesis
    unfolding hold_def Let_def by (intro tables_start_next tables_view [OF _ view_small(1)])
qed

lemma runs_folder: "tables_ok W X q \<Longrightarrow> map_of (folder_runs q) i = Some r \<Longrightarrow> opt_is_folder (handles q i)"
  by (force simp: tables_ok_def requests_ok_def run_keys_def dest: map_of_SomeD)

lemma handles_with_run [simp]: "handles (with_folder_run i f q) = handles q"
  by (simp add: with_folder_run_def)

lemma either_branch: "P a \<Longrightarrow> P b \<Longrightarrow> P (if c then a else b)"
  by simp

lemma tables_settle_stop:
  assumes ok: "tables_ok W X q" and i: "i \<in> set (xfers q)" "i \<notin> set (working q)"
    and folder: "opt_is_folder (handles q i)"
  shows "tables_ok W X (settle_stop V i stp q)"
proof -
  let ?q1 = "if stp = StopAgain then with_folder_run i (\<lambda>r. r\<lparr>fr_again := fr_again r + 1\<rparr>) q else q"
  let ?q2 = "set_pause i (Some (if stp = StopChanged then PChanged FOLDER_KEPT else Paused FOLDER_KEPT)) ?q1"
  have "tables_ok W X ?q1"
    using ok tables_view [OF ok view_small(2)] by simp
  then have q2: "tables_ok W X ?q2"
    using i by (intro tables_set_pause; cases stp) (auto simp: with_folder_run_def)
  moreover have "opt_is_folder (handles ?q2 i)"
    using folder by simp
  ultimately have "tables_ok W X (resume_folder V i ?q2)"
    by (rule tables_resume_folder)
  moreover have "tables_ok W X (start_next V (emit (FileUpdate i) (with_folder_run i f ?q2)))" for f
    using q2 by (intro tables_start_next tables_view [OF _ view_small(1)] tables_view [OF _ view_small(2)])
  ultimately show ?thesis
    unfolding settle_stop_def Let_def by (rule either_branch [where P = "tables_ok W X"])
qed

lemma tables_settle_pause:
  assumes ok: "tables_ok (insert i W) X q" and i: "i \<notin> set (working q)"
  shows "tables_ok W X (snd (settle_pause V i q))"
proof (cases "pause_of q i = Some Winding")
  case True
  then have "i \<in> set (xfers q)"
    by (rule pause_listed [OF ok])
  then have "tables_ok W X (hold V i Paused q)" using ok i by (intro tables_hold) simp_all
  moreover have "tables_ok W X (set_pause i None q)" using ok by (rule tables_settled) simp_all
  ultimately show ?thesis
    using True by (simp add: settle_pause_def)
next
  case False
  with ok have ok': "tables_ok W X q" by (rule tables_not_winding)
  let ?q1 = "snd (take_folder_stop i q)"
  have q1: "tables_ok W X ?q1" using ok' by (rule tables_view) (rule view_small)
  have same: "xfers ?q1 = xfers q" "working ?q1 = working q" "handles ?q1 = handles q"
    by (simp_all add: take_folder_stop_def with_folder_run_def)
  have "tables_ok W X (settle_stop V i stp ?q1)" if "fst (take_folder_stop i q) = Some stp" "i \<in> set (xfers q)" for stp
  proof (rule tables_settle_stop [OF q1])
    show "opt_is_folder (handles ?q1 i)"
      using that(1) runs_folder [OF ok'] same by (auto simp: take_folder_stop_def split: option.splits)
  qed (use that same i in simp_all)
  then show ?thesis
    using False q1 same by (auto simp: settle_pause_def case_prod_beta split: option.split)
qed

lemma settle_pause_False:
  "\<not> fst (settle_pause V i q) \<Longrightarrow>
   xfers (snd (settle_pause V i q)) = xfers q \<and> working (snd (settle_pause V i q)) = working q"
  by (auto simp: settle_pause_def take_folder_stop_def with_folder_run_def split: option.splits if_splits)

lemma tables_settle_failed:
  assumes ok: "tables_ok W X q" and i: "i \<notin> set (working q)"
  shows "tables_ok W X (settle_failed V i failed q)"
proof -
  let ?q1 = "\<lambda>f. snd (tell_failed i f q)"
  have q1: "tables_ok W X (?q1 f)" "xfers (?q1 f) = xfers q" "working (?q1 f) = working q" for f
    using tables_view [OF ok view_small(1)] by (simp_all add: tell_failed_def case_prod_beta emit_def)
  have "tables_ok (insert i W) X (?q1 f)" for f
    using q1(1) [of f] by (auto simp: tables_ok_def pauses_ok_def)
  then have "tables_ok W X (hold V i (\<lambda>kept. PFailed kept why) (?q1 f))" if "i \<in> set (xfers q)" for f why
    using i q1 that by (intro tables_hold) simp_all
  with q1 show ?thesis
    by (auto simp: settle_failed_def case_prod_beta intro!: tables_remove split: option.split intro: ok)
qed

lemma tables_cleanup:
  assumes ok: "tables_ok {} {} q" and i: "i \<in> set (returned q)"
  shows "tables_ok {} {} (xfer_handle V (CleanupRuns i) q)"
proof -
  let ?q0 = "q\<lparr>returned := remove1 i (returned q), working := filter (\<lambda>e. e \<noteq> i) (working q)\<rparr>"
  let ?q1 = "snd (take_failure i ?q0)"
  have "pause_of ?q0 = pause_of q" "asked_fits ?q0 w = asked_fits q w" "run_keys ?q0 = run_keys q" for w
    by (simp_all add: fun_eq_iff pause_of_def run_keys_def asked_fits_handles [of ?q0 q])
  moreover have "rows_ok ?q0"
    using ok by (auto simp: tables_ok_def rows_ok_def)
  ultimately have "tables_ok {i} {} ?q0"
    using ok by (simp add: tables_ok_def pauses_ok_def requests_ok_def)
  then have q1: "tables_ok {i} {} ?q1" by (rule tables_view) (rule view_small)
  have w1: "i \<notin> set (working ?q1)"
    by (simp add: take_failure_def split: option.split)
  have q2: "tables_ok {} {} (snd (settle_pause V i ?q1))"
    using q1 w1 by (rule tables_settle_pause)
  have "tables_ok {} {} (settle_failed V i failed (snd (settle_pause V i ?q1)))"
    if "\<not> fst (settle_pause V i ?q1)" for failed
    using q2 w1 settle_pause_False [OF that] by (intro tables_settle_failed) simp_all
  with q2 show ?thesis
    by (auto simp: xfer_cleanup_dispatch_def case_prod_beta split: bool.split prod.split
        intro!: tables_view [OF _ view_unref])
qed

section \<open>Replies\<close>

lemma tables_ready_write:
  assumes ok: "tables_ok W X q"
  shows "tables_ok W X (xfer_ready_write i q)"
proof (cases "pause_of q i = None \<and> i \<notin> set (working q)")
  case True
  let ?q1 = "(hx_htxf_ref i q)\<lparr>working := working q @ [i]\<rparr>"
  have r: "tables_ok W X (hx_htxf_ref i q)" using ok by (rule tables_view) (rule view_ref)
  have "pause_of ?q1 = pause_of q" "pause_of (hx_htxf_ref i q) = pause_of q" "working (hx_htxf_ref i q) = working q"
    "run_keys ?q1 = run_keys (hx_htxf_ref i q)"
    by (simp_all add: fun_eq_iff pause_of_def run_keys_def hx_htxf_ref_def on_handle_def)
  moreover have "asked_fits ?q1 w = asked_fits (hx_htxf_ref i q) w" for w
    by (rule asked_fits_handles) simp
  moreover have "rows_ok ?q1"
    using r True by (auto simp: tables_ok_def rows_ok_def hx_htxf_ref_def on_handle_def)
  ultimately have "tables_ok W X ?q1"
    using r True by (simp add: tables_ok_def pauses_ok_def requests_ok_def)
  with True show ?thesis
    using tables_view [OF _ view_small(1)] by (simp add: xfer_ready_write_def)
qed (auto simp: xfer_ready_write_def ok)

lemma tables_announce: "tables_ok W X q \<Longrightarrow> tables_ok W X (hx_xfer_announce i pos q)"
  by (simp add: hx_xfer_announce_def Let_def tables_ready_write tables_view [OF _ view_small(1)])

lemma tables_answered:
  assumes "tables_ok W X q"
  shows "tables_ok W X (answered i q)"
proof -
  have "tables_ok W X (set_pause i None q)" using assms by (intro tables_set_pause) simp_all
  then show ?thesis
    using assms tables_view [OF \<open>tables_ok W X (set_pause i None q)\<close> view_small(4)]
    by (auto simp: answered_def Let_def intro!: tables_set_tries split: option.split Pause.split)
qed


lemma tables_download_ready: "tables_ok W X q \<Longrightarrow> tables_ok W X (download_ready i folder t q)"
  unfolding download_ready_def Let_def
  by (auto intro!: tables_announce tables_view [OF _ view_small(3)] tables_view [OF _ view_on_handle] tables_answered)

lemma tables_queued_refused:
  assumes ok: "tables_ok W X q" and i: "i \<in> set (xfers q)" and p: "\<not> waits_reply (pause_of q i)"
  shows "tables_ok W X (snd (queued_refused i q))"
proof -
  let ?q2 = "\<lambda>n. on_handle i (\<lambda>h. h\<lparr>h_gone := False\<rparr>) (set_tries i (Some n) q)"
  have "tables_ok W X (?q2 n)" if "n \<le> QUEUE_TRIES" for n
  proof (rule tables_handle [OF tables_set_tries [OF ok]])
    show "i \<in> set (xfers q) \<and> m \<le> QUEUE_TRIES" if "Some n = Some m" for m
      using i \<open>n \<le> QUEUE_TRIES\<close> that by simp
  qed (use p in \<open>auto simp: pause_of_def\<close>)
  then have "tables_ok W X (hx_htxf_ref i (?q2 n))" if "n \<le> QUEUE_TRIES" for n
    using that tables_view [OF _ view_ref] by blast
  moreover have "tables_ok W X (q'\<lparr>retries := r\<rparr>)" if "tables_ok W X q'" for q' r
  proof -
    have "asked_fits (q'\<lparr>retries := r\<rparr>) w = asked_fits q' w" for w
      by (rule asked_fits_handles) simp
    then show ?thesis
      using that by (simp add: tables_defs pause_of_def run_keys_def)
  qed
  moreover have "tables_ok W X (set_tries i None q)"
    using ok by (rule tables_set_tries) simp
  ultimately show ?thesis
    by (auto simp: queued_refused_def split: option.split)
qed

lemma tables_resume_refused:
  assumes "tables_ok W X q"
  shows "tables_ok W X (snd (resume_refused V i q))"
proof -
  have "tables_ok W X (set_pause i (Some (Paused k)) q)" if p: "pause_of q i = Some (PAsked k)" for k
    using assms pause_listed [OF assms p] p by (intro tables_set_pause) (auto simp: tables_ok_def pauses_ok_def)
  then show ?thesis
    using assms tables_view [OF _ view_small(1)]
    by (auto simp: resume_refused_def intro!: tables_start_next split: option.split Pause.split)
qed

lemma resume_refused_False:
  "\<not> fst (resume_refused V i q) \<Longrightarrow> snd (resume_refused V i q) = q \<and> (\<forall>k. pause_of q i \<noteq> Some (PAsked k))"
  by (auto simp: resume_refused_def split: option.splits Pause.splits)

lemma tables_download_refused:
  assumes ok: "tables_ok W X q" and get: "h_get (handles q i)"
  shows "tables_ok W X (download_refused V i q)"
proof -
  have "tables_ok W X (snd (queued_refused i q))" if "\<not> fst (resume_refused V i q)" "i \<in> set (xfers q)"
  proof (rule tables_queued_refused [OF ok that(2)])
    have "\<not> is_restarted (pause_of q i)" using ok get by (auto simp: tables_ok_def pauses_ok_def)
    then show "\<not> waits_reply (pause_of q i)"
      using resume_refused_False [OF that(1)] by (cases "pause_of q i" rule: waits_reply.cases) auto
  qed
  moreover from this have "\<not> opt_retry (handles (snd (queued_refused i q)) i)"
    if "\<not> fst (resume_refused V i q)" "i \<in> set (xfers q)"
    using that by (auto simp: tables_ok_def rows_ok_def)
  ultimately show ?thesis
    using tables_resume_refused [OF ok, of V i] resume_refused_False [of V i q] ok
    by (auto simp: download_refused_def case_prod_beta intro!: tables_delete tables_view [OF _ view_small(1)]
        split: bool.split prod.split)
qed

lemma tables_upload_refused:
  assumes ok: "tables_ok W X q" and put: "\<not> h_get (handles q i)"
  shows "tables_ok W X (snd (upload_refused V i q))"
proof -
  have idle: "i \<notin> set (working q)" if "waits_reply (pause_of q i)"
    using ok that by (auto simp: tables_ok_def pauses_ok_def)
  have "tables_ok W X (snd (if opt_is_folder (handles q i) then ask_put_folder V i None (set_pause i (Some (Restarted k)) q)
          else (x, xfer_go_put V i None (set_pause i (Some (Restarted k)) q))))"
    if p: "pause_of q i = Some (PAsked k)" for k x
  proof -
    have "opt_is_folder (handles q i) \<or> h_gone (handles q i) \<or> i \<in> X"
      using ok p unfolding tables_ok_def pauses_ok_def by (metis waits_reply.simps(1))
    then have "tables_ok W X (set_pause i (Some (Restarted k)) q)"
      using ok pause_listed [OF ok p] idle p put by (intro tables_set_pause) auto
    then show ?thesis
      using put by (auto intro!: tables_ask_put tables_go_put)
  qed
  moreover have "tables_ok W X (set_pause i (Some (Paused k)) q)" if p: "pause_of q i = Some (Restarted k)" for k
    using ok pause_listed [OF ok p] idle p by (intro tables_set_pause) auto
  ultimately show ?thesis
    using ok tables_delete [OF tables_view [OF ok view_small(1)], of V i]
    by (auto simp: upload_refused_def upload_resume_refused_def Let_def case_prod_beta
        intro!: tables_start_next tables_view [OF _ view_small(1)] split: option.split prod.split Pause.split)
qed


lemma view_size_upload: "same_view q (snd (size_upload V i t q))"
  by (auto simp: size_upload_def Let_def intro!: view_on_handle same_view_trans [OF view_on_handle view_on_handle])

lemma waits_replyD: "waits_reply p \<Longrightarrow> \<exists>x. p = Some x"
  by (cases p) auto

lemma tables_file_changed:
  assumes ok: "tables_ok W X q"
  shows "tables_ok W X (snd (upload_file_changed V i q))"
proof -
  have "tables_ok W X (set_pause i (Some (PChanged k)) q)" if w: "waits_reply (pause_of q i)" for k
  proof -
    obtain p where "pause_of q i = Some p" using waits_replyD [OF w] by blast
    then show ?thesis
      using ok pause_listed [OF ok] w by (intro tables_set_pause) (auto simp: tables_ok_def pauses_ok_def)
  qed
  then show ?thesis
    using ok by (auto simp: upload_file_changed_def intro!: tables_start_next tables_view [OF _ view_small(1)]
        split: option.split Pause.split)
qed

lemma file_unchanged: "\<not> fst (upload_file_changed V i q) \<Longrightarrow> snd (upload_file_changed V i q) = q"
  by (auto simp: upload_file_changed_def split: option.splits Pause.splits)

lemma tables_upload_ready:
  assumes ok: "tables_ok W X q" and put: "\<not> h_get (handles q i)"
  shows "tables_ok W X (upload_ready V i folder t q)"
proof -
  let ?q1 = "on_handle i (\<lambda>h. h\<lparr>h_queue := t_queue t\<rparr>) q"
  let ?q2 = "snd (size_upload V i t ?q1)"
  have v1: "same_view q ?q1" by (simp add: view_on_handle)
  have v2: "same_view q ?q2" using v1 view_size_upload by (rule same_view_trans)
  have q1: "tables_ok W X ?q1" using ok v1 by (rule tables_view)
  have q2: "tables_ok W X ?q2" using ok v2 by (rule tables_view)
  have ready: "tables_ok W X (hx_xfer_announce i (t_queue t)
      (on_handle i (\<lambda>h. h\<lparr>h_ref := t_reference t\<rparr>) (answered i q')))" if "tables_ok W X q'" for q'
    using that by (intro tables_announce tables_view [OF tables_answered view_on_handle]) simp_all
  have "\<not> h_get (handles ?q2 i)" using v2 put by (simp add: same_view_def)
  then have refused: "tables_ok W X (snd (upload_refused V i (emit x (snd (upload_file_changed V i ?q2)))))"
    if "\<not> fst (upload_file_changed V i ?q2)" for x
    using file_unchanged [OF that] tables_view [OF q2 view_small(1)]
    by (intro tables_upload_refused) (simp_all add: emit_def)
  show ?thesis
  proof (cases folder)
    case True
    then show ?thesis using ok ready [OF q1] by (simp add: upload_ready_def Let_def)
  next
    case False
    then show ?thesis
      using ok ready [OF q2] refused tables_file_changed [OF q2, of V i]
      by (auto simp: upload_ready_def Let_def case_prod_beta split: bool.split prod.split)
  qed
qed

lemma tables_queue_moved: "tables_ok W X q \<Longrightarrow> tables_ok W X (queue_moved htlc r pos q)"
  unfolding queue_moved_def
  by (auto intro!: tables_announce tables_view [OF _ view_on_handle] split: option.split)

lemma tables_fewer:
  assumes "tables_ok W X q" and "set fl \<subseteq> set (in_flight q)"
  shows "tables_ok W X (q\<lparr>in_flight := fl\<rparr>)"
proof -
  have "asked_fits (q\<lparr>in_flight := fl\<rparr>) w = asked_fits q w" for w
    by (rule asked_fits_handles) simp
  moreover have "rows_ok (q\<lparr>in_flight := fl\<rparr>)" "pauses_ok W X (q\<lparr>in_flight := fl\<rparr>)"
    using assms(1) by (simp_all add: tables_ok_def rows_ok_def pauses_ok_def pause_of_def)
  ultimately show ?thesis
    using assms by (auto simp: tables_ok_def requests_ok_def)
qed

lemma set_remove_first: "set (remove_first k xs) \<subseteq> set xs"
  by (induction xs) auto

lemma taken_fits: 
  assumes "tables_ok W X q" and "map_of (in_flight q) k = Some w"
  shows "asked_fits q w"
  using assms map_of_SomeD [OF assms(2)] by (force simp: tables_ok_def requests_ok_def)

lemma tables_transfer_reply: 
  assumes "tables_ok W X q"
  shows "tables_ok W X (transfer_reply V k t q)"
proof -
  have "tables_ok W X (q\<lparr>in_flight := remove_first k (in_flight q)\<rparr>)"
    using assms set_remove_first by (rule tables_fewer)
  then show ?thesis
    using assms taken_fits [OF assms, of k]
    by (auto simp: transfer_reply_def Let_def split: option.split Asked.split
        intro!: tables_view [OF _ view_unref] tables_download_ready tables_upload_ready)
qed

lemma tables_transfer_failed: 
  assumes "tables_ok W X q"
  shows "tables_ok W X (transfer_failed V k q)"
proof -
  have "tables_ok W X (q\<lparr>in_flight := remove_first k (in_flight q)\<rparr>)"
    using assms set_remove_first by (rule tables_fewer)
  then show ?thesis
    using assms taken_fits [OF assms, of k]
    by (auto simp: transfer_failed_def Let_def split: option.split Asked.split
        intro!: tables_view [OF _ view_unref] tables_download_refused tables_upload_refused)
qed

lemma view_fold: "(\<And>i q. same_view q (f i q)) \<Longrightarrow> same_view q (fold f is q)"
  by (induction "is" arbitrary: q) (auto intro: same_view_trans)

lemma tables_forget_conn: "tables_ok W X q \<Longrightarrow> tables_ok W X (forget_conn htlc q)"
  unfolding forget_conn_def
  by (rule tables_view [OF tables_fewer view_fold [OF view_unref]]) auto

lemma tables_delete_all: 
  assumes "tables_ok {} X q"
  shows "tables_ok {} X (xfers_delete_all q)"
proof -
  let ?q1 = "q\<lparr>xfers := [], pauses := [], queued_tries := [], held_bytes := []\<rparr>"
  have "asked_fits ?q1 w = asked_fits q w" for w
    by (rule asked_fits_handles) simp
  then have "tables_ok {} X ?q1"
    using assms by (simp add: tables_defs pause_of_def run_keys_def)
  moreover have "same_view p (cancel_and_unref i p)" for i p
    unfolding cancel_and_unref_def by (rule same_view_trans [OF view_on_handle view_unref]) simp
  ultimately show ?thesis
    unfolding xfers_delete_all_def by (rule tables_view [OF _ view_fold])
qed

lemma tables_pause:
  assumes "tables_ok W X q" and "i \<in> set (xfers q)"
  shows "tables_ok W X (xfer_pause i q)"
proof -
  have "tables_ok W X (set_pause i (Some Winding) q)" if "xfer_can_pause q i"
    using assms that by (intro tables_set_pause) (auto simp: xfer_can_pause_def)
  then show ?thesis
    using assms(1) by (auto simp: xfer_pause_def intro!: tables_view [OF _ view_small(1)] tables_view [OF _ view_on_handle])
qed

lemma tables_reorder:
  assumes ok: "tables_ok W X q" and perm: "mset xs = mset (xfers q)"
  shows "tables_ok W X (q\<lparr>xfers := xs\<rparr>)"
proof -
  have "set xs = set (xfers q)" and "distinct xs = distinct (xfers q)"
    using perm by (rule mset_eq_setD, metis perm mset_eq_imp_distinct_iff)
  moreover have "asked_fits (q\<lparr>xfers := xs\<rparr>) w = asked_fits q w" for w
    by (rule asked_fits_handles) simp
  ultimately show ?thesis
    using ok by (simp add: tables_defs pause_of_def run_keys_def)
qed

lemma tables_move:
  "tables_ok W X q \<Longrightarrow> tables_ok W X (xfer_up n q)" "tables_ok W X q \<Longrightarrow> tables_ok W X (snd (xfer_down n q))"
  by (auto simp: xfer_up_def xfer_down_def mset_swap_at intro!: tables_reorder)


section \<open>Workers and new transfers\<close>

lemma view_worker_parts [views]:
  "same_view q (connected i large q)" "same_view q (worker_left i s q)" "same_view q (all_moved i q)"
  "same_view q (finish_upload i q)"
  unfolding connected_def worker_left_def all_moved_def finish_upload_def
  by (auto intro!: view_on_handle view_small same_view_trans [OF view_small(10) view_on_handle])

lemma tables_put_run:
  assumes "tables_ok W X q" and "i < next_hid q" "opt_is_folder (handles q i)"
  shows "tables_ok W X (put_folder_run i r q)"
proof -
  have "asked_fits (put_folder_run i r q) w = asked_fits q w" for w
    by (rule asked_fits_handles) (simp add: put_folder_run_def)
  moreover have "run_keys (put_folder_run i r q) = insert i (run_keys q)"
    by (simp add: put_folder_run_def run_keys_def)
  ultimately show ?thesis
    using assms by (simp add: tables_defs) (simp add: put_folder_run_def pause_of_def)
qed

lemma same_viewD:
  "same_view q q' \<Longrightarrow> next_hid q' = next_hid q" "same_view q q' \<Longrightarrow> opt_is_folder (handles q' i) = opt_is_folder (handles q i)"
  "same_view q q' \<Longrightarrow> working q' = working q" "same_view q q' \<Longrightarrow> returned q' = returned q"
  by (simp_all add: same_view_def)

text \<open>A worker changes the tables only by its folder run.\<close>

lemma worker_solo:
  "\<not> opt_is_folder (handles q i) \<Longrightarrow> same_view q (xfer_worker_entry V i c q)"
  by (auto simp: xfer_worker_entry_def get_thread_def put_thread_def Let_def case_prod_beta split: option.split bool.split
      intro!: views same_view_trans [OF _ view_small(6)] same_view_trans [OF _ view_post]
        same_view_trans [OF _ view_worker_parts(2)] same_view_trans [OF _ view_worker_parts(3)]
        same_view_trans [OF _ view_worker_parts(4)] same_view_trans [OF _ view_small(1)])

text \<open>The state just before a folder's worker puts its run back, and what it does after.\<close>

lemma view_failed: "same_view q (note_failure i w (post_file_update i q))"
  by (rule same_view_trans [OF view_post view_small(6)])

lemma view_got: "same_view q (post_file_update i (all_moved i (emit x q)))"
  by (rule same_view_trans [OF view_small(1) same_view_trans [OF view_worker_parts(3) view_post]])

lemma view_put: "same_view q (note_failure i w (finish_upload i (post_file_update i (all_moved i q))))"
  by (rule same_view_trans [OF view_worker_parts(3) same_view_trans [OF view_post
      same_view_trans [OF view_worker_parts(4) view_small(6)]]])

lemma put_runI:
  "same_view q q1 \<Longrightarrow> same_view (put_folder_run i r q1) q' \<Longrightarrow>
   \<exists>q1 r. same_view q q1 \<and> same_view (put_folder_run i r q1) q'"
  by blast

lemma worker_folder_get:
  assumes "opt_is_folder (handles q i)" and "h_get (handles q i)"
  shows "\<exists>q1 r. same_view q q1 \<and> same_view (put_folder_run i r q1) (xfer_worker_entry V i c q)"
proof -
  let ?q2 = "snd (take_folder_run i (snd (take_folder_items i q)))"
  have q2: "same_view q ?q2"
    by (rule same_view_trans [OF view_small(5) view_small(4)])
  show ?thesis
  proof (cases c)
    case None
    then show ?thesis
      using assms put_runI [OF q2 view_failed] by (simp add: xfer_worker_entry_def folder_get_thread_def case_prod_beta)
  next
    case (Some hl)
    have left: "same_view q (worker_left i s (connected i large ?q2))" for s :: "'a St" and large
      by (rule same_view_trans [OF q2 same_view_trans [OF view_worker_parts(1) view_worker_parts(2)]])
    show ?thesis
      using assms Some put_runI [OF left view_got] put_runI [OF left view_failed]
      by (simp add: xfer_worker_entry_def folder_get_thread_def Let_def case_prod_beta)
  qed
qed

lemma worker_folder_put:
  assumes "opt_is_folder (handles q i)" and "\<not> h_get (handles q i)"
  shows "\<exists>q1 r. same_view q q1 \<and> same_view (put_folder_run i r q1) (xfer_worker_entry V i c q)"
proof -
  let ?q1 = "snd (take_folder_run i q)"
  have q1: "same_view q ?q1" by (rule view_small(4))
  show ?thesis
  proof (cases c)
    case None
    then show ?thesis
      using assms put_runI [OF q1 view_failed] by (simp add: xfer_worker_entry_def folder_put_thread_def case_prod_beta)
  next
    case (Some hl)
    have left: "same_view q (worker_left i s (connected i large ?q1))" for s :: "'a St" and large
      by (rule same_view_trans [OF q1 same_view_trans [OF view_worker_parts(1) view_worker_parts(2)]])
    show ?thesis
      using assms Some put_runI [OF left view_put] put_runI [OF left view_failed]
      by (simp add: xfer_worker_entry_def folder_put_thread_def Let_def case_prod_beta)
  qed
qed

lemma tables_worker:
  assumes ok: "tables_ok W X q" and i: "i < next_hid q" "i \<in> set (working q)" "i \<notin> set (returned q)"
  shows "tables_ok W X (xfer_handle V (WorkerReturns i c) q)"
proof -
  let ?q2 = "xfer_worker_entry V i c q"
  have "tables_ok W X ?q2 \<and> working ?q2 = working q \<and> returned ?q2 = returned q"
  proof (cases "opt_is_folder (handles q i)")
    case True
    then obtain q1 r where q1: "same_view q q1" and q2: "same_view (put_folder_run i r q1) ?q2"
      using worker_folder_get [OF True] worker_folder_put [OF True] by blast
    have "tables_ok W X (put_folder_run i r q1)"
      using tables_view [OF ok q1] i(1) True same_viewD [OF q1] by (intro tables_put_run) simp_all
    then show ?thesis
      using tables_view [OF _ q2] same_viewD [OF q2] same_viewD [OF q1] by (simp add: put_folder_run_def)
  next
    case False
    then show ?thesis
      using worker_solo [of q i V c] tables_view [OF ok] same_viewD by blast
  qed
  moreover have "tables_ok W X (p\<lparr>returned := returned p @ [i]\<rparr>)"
    if p: "tables_ok W X p" "i \<in> set (working p)" "i \<notin> set (returned p)" for p
  proof -
    have "asked_fits (p\<lparr>returned := returned p @ [i]\<rparr>) w = asked_fits p w" for w
      by (rule asked_fits_handles) simp
    then show ?thesis
      using p by (simp add: tables_defs pause_of_def run_keys_def)
  qed
  ultimately show ?thesis
    using i by (metis xfer_completion_entry_def xfer_handle.simps(17))
qed

end
