(* ===== verification/Xfer_Queue_Props.thy ===== *)
theory Xfer_Queue_Props
  imports Xfer_Queue_Inv Xfer_Props
begin

text \<open>
  What holds of the transfer registry in every state it can reach: the invariant of its tables and its
  reference counts, and that its queue does not stall.
\<close>

section \<open>Every step keeps the invariant\<close>

definition registry_ok :: "Registry \<Rightarrow> bool" where
  "registry_ok q \<longleftrightarrow> refs_ok [] q \<and> tables_ok {} {} q"

lemma fresh_hid:
  assumes "registry_ok q"
  shows "next_hid q \<notin> set (xfers q)" "next_hid q \<notin> set (working q)" "pause_of q (next_hid q) = None"
    "next_hid q \<notin> run_keys q" "w \<in> snd ` set (in_flight q) \<Longrightarrow> asked_hid w \<noteq> next_hid q"
proof -
  have held: "\<forall>i\<in>set (holders [] q). i < next_hid q"
    using assms by (simp add: registry_ok_def refs_ok_def)
  then show "next_hid q \<notin> set (xfers q)" "next_hid q \<notin> set (working q)"
    by (auto simp: holders_def)
  then show "pause_of q (next_hid q) = None"
    using assms pause_listed [of "{}" "{}" q "next_hid q"] by (cases "pause_of q (next_hid q)") (auto simp: registry_ok_def)
  show "next_hid q \<notin> run_keys q"
    using assms by (auto simp: registry_ok_def tables_ok_def requests_ok_def)
  show "asked_hid w \<noteq> next_hid q" if "w \<in> snd ` set (in_flight q)"
    using held that by (force simp: holders_def)
qed

definition new_row :: "hid \<Rightarrow> Handle \<Rightarrow> Registry \<Rightarrow> Registry" where
  "new_row i h q = q\<lparr>next_hid := i + 1, xfers := xfers q @ [i], handles := (handles q)(i := h)\<rparr>"

lemma tables_new_row:
  assumes ok: "registry_ok q" and h: "\<not> opt_retry h"
  shows "tables_ok {} {} (new_row (next_hid q) h q)"
proof -
  let ?i = "next_hid q" and ?q = "new_row (next_hid q) h q"
  note fresh = fresh_hid [OF ok]
  have same: "pause_of ?q = pause_of q" "run_keys ?q = run_keys q"
    by (simp_all add: fun_eq_iff new_row_def pause_of_def run_keys_def)
  have t: "rows_ok q" "pauses_ok {} {} q" "requests_ok q"
    using ok by (simp_all add: registry_ok_def tables_ok_def)
  have "rows_ok ?q"
    using t(1) h fresh by (auto simp: rows_ok_def new_row_def)
  moreover have "pauses_ok {} {} ?q"
    using t(2) fresh(3) unfolding pauses_ok_def same by (simp add: new_row_def)
  moreover have "asked_fits ?q w = asked_fits q w" if "w \<in> snd ` set (in_flight q)" for w
    using fresh(5) [OF that] by (cases w) (simp_all add: new_row_def)
  then have "requests_ok ?q"
    using t(3) fresh(4) unfolding requests_ok_def same by (auto simp: new_row_def)
  ultimately show ?thesis by (simp add: tables_ok_def)
qed

lemma init_row:
  "fst (xfer_init htlc p get sz q) = next_hid q"
  "snd (xfer_init htlc p get sz q) = emit (FileUpdate (next_hid q))
     (new_row (next_hid q) (hx_htxf_new\<lparr>h_path := p, h_get := get, h_htlc := htlc, total_size := max sz 1, refcount := 1\<rparr>) q)"
  by (simp_all add: xfer_init_def Let_def new_row_def hx_htxf_ref_def on_handle_def emit_def hx_htxf_new_def)

lemma tables_init: "registry_ok q \<Longrightarrow> tables_ok {} {} (snd (xfer_init htlc p get sz q))"
  unfolding init_row
  by (rule tables_view [OF tables_new_row view_small(1)]) (simp_all add: hx_htxf_new_def)

lemma tables_new: "registry_ok q \<Longrightarrow> tables_ok {} {} (xfer_new V htlc p get prev srv q)"
  using tables_init [of q] init_listed
  by (auto simp: xfer_new_def Let_def case_prod_beta intro!: tables_xfer_go tables_view [OF _ view_on_handle])

text \<open>A folder's row, its kind set before its request goes.\<close>

lemma folder_row:
  "snd (xfer_new_folder htlc p get q) = emit (FileUpdate (next_hid q))
     (new_row (next_hid q) (hx_htxf_new\<lparr>h_path := p, h_get := get, h_htlc := htlc, total_size := 1, refcount := 1,
        opt_is_folder := True\<rparr>) q)"
  "fst (xfer_new_folder htlc p get q) = next_hid q"
  by (simp_all add: xfer_new_folder_def case_prod_beta init_row)
     (simp add: on_handle_def emit_def new_row_def hx_htxf_new_def)

lemma tables_new_folder:
  assumes "registry_ok q"
  shows "tables_ok {} {} (hx_get_folder V htlc p q)" "tables_ok {} {} (hx_put_folder V htlc p q)"
proof -
  have row: "tables_ok {} {} (snd (xfer_new_folder htlc p get q))" for get
    unfolding folder_row by (rule tables_view [OF tables_new_row view_small(1)]) (simp_all add: assms hx_htxf_new_def)
  have kind: "h_get (handles (snd (xfer_new_folder htlc p get q)) (next_hid q)) = get"
    "opt_is_folder (handles (snd (xfer_new_folder htlc p get q)) (next_hid q))" for get
    by (simp_all add: folder_row emit_def new_row_def)
  show "tables_ok {} {} (hx_get_folder V htlc p q)"
    unfolding hx_get_folder_def case_prod_beta folder_row(2) by (intro tables_ask_folder row) (simp_all add: kind)
  show "tables_ok {} {} (hx_put_folder V htlc p q)"
    unfolding hx_put_folder_def case_prod_beta folder_row(2) by (intro tables_ask_put row) (simp_all add: kind)
qed

lemma returned_working: "tables_ok W X q \<Longrightarrow> i \<in> set (returned q) \<Longrightarrow> i \<in> set (working q)"
  by (auto simp: tables_ok_def rows_ok_def)

lemma tables_retry:
  assumes "tables_ok W X q"
  shows "tables_ok W X (xfer_handle V (RetryRuns i) q)"
proof -
  let ?q1 = "q\<lparr>retries := remove1 i (retries q)\<rparr>"
  have "asked_fits ?q1 w = asked_fits q w" for w
    by (rule asked_fits_handles) simp
  then have "tables_ok W X ?q1"
    using assms by (simp add: tables_defs pause_of_def run_keys_def)
  then show ?thesis
    by (auto simp: queue_retry_def intro!: tables_view [OF _ view_unref] tables_start_next)
qed

lemma tables_step:
  assumes ok: "registry_ok q" and can: "xfer_can q e"
  shows "tables_ok {} {} (xfer_handle V e q)"
proof -
  have t: "tables_ok {} {} q" using ok by (simp add: registry_ok_def)
  have lt: "i < next_hid q" if "i \<in> set (working q)" for i
    using ok that by (auto simp: registry_ok_def refs_ok_def holders_def)
  have "same_view q (xfer_tasks_update htlc q)" for htlc
    unfolding xfer_tasks_update_def by (rule view_fold) (rule view_small)
  moreover have "same_view p (fu_dispatch i p)" for i p
    unfolding fu_dispatch_def by (rule same_view_trans [OF _ view_unref]) (simp add: views)
  then have "same_view q (fu_dispatch i (q\<lparr>posted := remove1 i (posted q)\<rparr>))" for i
    by (rule same_view_trans [OF view_small(11)])
  ultimately show ?thesis
    using ok can lt
  proof (cases e)
    case (GoTimerRuns i)
    then show ?thesis using can t by (simp add: tables_defs)
  qed (auto intro: t tables_new tables_new_folder tables_move tables_delete tables_delete_on_conn tables_delete_all
      tables_pause tables_xfer_go tables_transfer_reply tables_transfer_failed tables_queue_moved tables_forget_conn
      tables_view [OF t] view_post view_small(10) simp del: xfer_handle.simps(17-19)
      intro: tables_worker tables_cleanup tables_retry)
qed

lemma refs_step:
  assumes ok: "registry_ok q" and can: "xfer_can q e"
  shows "refs_ok [] (xfer_handle V e q)"
proof -
  have r: "refs_ok [] q" and t: "tables_ok {} {} q" using ok by (simp_all add: registry_ok_def)
  show ?thesis
  proof (cases e)
    case (UpdateRuns i)
    have "refs_ok [i] (q\<lparr>posted := remove1 i (posted q)\<rparr>)"
      using can UpdateRuns by (intro refs_ok_move [OF r]) (simp_all add: same_refs_def holders_def)
    with UpdateRuns show ?thesis by (simp add: refs_fu_dispatch)
  next
    case (RetryRuns i)
    have "refs_ok [i] (q\<lparr>retries := remove1 i (retries q)\<rparr>)"
      using can RetryRuns by (intro refs_ok_move [OF r]) (simp_all add: same_refs_def holders_def)
    with RetryRuns show ?thesis
      by (auto simp: queue_retry_def intro!: refs_unref refs_start_next)
  next
    case (GoTimerRuns i)
    then show ?thesis using can t by (simp add: tables_defs)
  next
    case (CleanupRuns i)
    let ?q0 = "q\<lparr>returned := remove1 i (returned q)\<rparr>"
    have "i \<in> set (working q)" "distinct (working q)"
      using can CleanupRuns t returned_working [OF t] by (simp_all add: tables_ok_def rows_ok_def)
    moreover have "refs_ok [] ?q0" using r by (rule refs_ok_same) (simp add: same_holders_def same_refs_def)
    ultimately show ?thesis
      using CleanupRuns refs_cleanup [of "[]" ?q0 i V] by simp
  next
    case (WorkerReturns i c)
    have "refs_ok [] (xfer_worker_entry V i c q)"
      using r can WorkerReturns by (intro refs_worker) (simp_all add: holders_def)
    then have "refs_ok [] (xfer_completion_entry i (xfer_worker_entry V i c q))"
      by (rule refs_ok_same) (simp add: xfer_completion_entry_def same_holders_def same_refs_def)
    with WorkerReturns show ?thesis by simp
  next
    case (PauseIt i)
    then show ?thesis using r by (simp add: xfer_pause_def refs_intros)
  qed (use r can in \<open>auto simp: holders_def intro: refs_new refs_new_folder refs_move refs_xfer_delete refs_delete_on_conn
      refs_delete_all refs_xfer_go refs_tasks_update refs_transfer_reply refs_transfer_failed refs_queue_moved
      refs_forget_conn refs_post_file_update refs_ok_same [OF _ same_disk]\<close>)
qed

lemma registry_start: "registry_ok (xfer_start d)"
  by (simp add: registry_ok_def refs_ok_def holders_def xfer_start_def hx_htxf_new_def tables_defs pause_of_def run_keys_def)

text \<open>The registry's tables and counts, in every state it reaches.\<close>

lemma reachable_ok: "xfer_reachable V q \<Longrightarrow> registry_ok q"
  by (induction rule: xfer_reachable.induct)
     (auto simp: registry_start registry_ok_def [of "xfer_handle _ _ _"] tables_step refs_step)


section \<open>The queue does not stall\<close>

text \<open>
  A transfer in motion: its request has gone, or it is a folder, whose request goes when it is made; or its
  worker runs; or a refusal put it back and its retry timer runs.
\<close>

definition in_motion :: "Registry \<Rightarrow> hid \<Rightarrow> bool" where
  "in_motion q i \<longleftrightarrow>
     i \<in> set (xfers q) \<and>
     (\<not> paused q i \<and> (h_gone (handles q i) \<or> opt_is_folder (handles q i)) \<or> i \<in> set (working q) \<or> i \<in> set (retries q))"

fun is_changed :: "Pause option \<Rightarrow> bool" where
  "is_changed (Some (PChanged k)) = True"
| "is_changed p = False"

definition changed_folder :: "Registry \<Rightarrow> hid \<Rightarrow> bool" where
  "changed_folder q i \<longleftrightarrow>
     i \<in> set (xfers q) \<and> opt_is_folder (handles q i) \<and> \<not> h_get (handles q i) \<and> is_changed (pause_of q i)"

definition flows :: "Registry \<Rightarrow> bool" where
  "flows q \<longleftrightarrow> (\<forall>i\<in>set (xfers q). paused q i) \<or> (\<exists>i. in_motion q i) \<or> (\<exists>i. changed_folder q i)"

text \<open>Steps that neither end nor start anything.\<close>

definition keeps_moving :: "Registry \<Rightarrow> Registry \<Rightarrow> bool" where
  "keeps_moving q q' \<longleftrightarrow>
     set (xfers q') = set (xfers q) \<and> set (working q) \<subseteq> set (working q') \<and> set (retries q) \<subseteq> set (retries q') \<and>
     (\<forall>i\<in>set (xfers q). paused q' i = paused q i \<and> (is_changed (pause_of q i) \<longrightarrow> is_changed (pause_of q' i)) \<and>
        h_get (handles q' i) = h_get (handles q i) \<and> opt_is_folder (handles q' i) = opt_is_folder (handles q i) \<and>
        (h_gone (handles q i) \<longrightarrow> h_gone (handles q' i)))"

lemma flows_keeps: "flows q \<Longrightarrow> keeps_moving q q' \<Longrightarrow> flows q'"
  unfolding flows_def keeps_moving_def in_motion_def changed_folder_def by (elim disjE) (blast | metis subsetD)+

lemma keeps_rows: "same_rows q q' \<Longrightarrow> keeps_moving q q'"
  by (simp add: keeps_moving_def same_rowsD)

lemma flows_rows: "flows q \<Longrightarrow> same_rows q q' \<Longrightarrow> flows q'"
  by (rule flows_keeps [OF _ keeps_rows])

lemma flows_view: "flows q \<Longrightarrow> same_view q q' \<Longrightarrow> flows q'"
  by (rule flows_rows [OF _ rows_view])

lemma flows_moving: "in_motion q i \<Longrightarrow> same_rows q q' \<Longrightarrow> flows q'"
  by (rule flows_rows) (auto simp: flows_def)

lemma moving_gone: "i \<in> set (xfers q) \<Longrightarrow> \<not> paused q i \<Longrightarrow> in_motion (on_handle i (\<lambda>h. h\<lparr>h_gone := True\<rparr>) q) i"
  by (simp add: in_motion_def paused_def pause_of_def on_handle_def)

lemma flows_go_request:
  assumes "i \<in> set (xfers q)" and "\<not> paused q i"
  shows "flows (go_request V i kept full q)"
proof (cases "h_gone (handles q i)")
  case True
  with assms have "flows q" by (auto simp: flows_def in_motion_def)
  with True show ?thesis by (simp add: go_request_def)
next
  case False
  show ?thesis by (rule flows_moving [OF moving_gone [OF assms] go_request_gone [OF False]])
qed

lemma flows_start_next:
  assumes ok: "tables_ok W {} q"
  shows "flows (start_next V q)"
proof (cases "find (\<lambda>e. \<not> paused q e) (xfers q)")
  case None
  then have "\<forall>i\<in>set (xfers q). paused q i" by (auto simp: find_None_iff)
  with None show ?thesis by (simp add: start_next_eq flows_def)
next
  case (Some i)
  then have i: "i \<in> set (xfers q)" "\<not> paused q i" by (auto simp: find_Some_iff)
  show ?thesis
  proof (cases "opt_is_folder (handles q i)")
    case True
    with i Some show ?thesis by (auto simp: start_next_eq flows_def in_motion_def)
  next
    case False
    have "flows (start_file V i q)"
    proof (cases "pause_of q i")
      case None
      then show ?thesis using i by (simp add: start_file_def flows_go_request)
    next
      case (Some p)
      then have "waits_reply (pause_of q i)" using i(2) by (cases p) (simp_all add: paused_def)
      then have "h_gone (handles q i)" using ok False by (auto simp: tables_ok_def pauses_ok_def)
      then show ?thesis using Some i by (auto simp: start_file_def flows_def in_motion_def)
    qed
    moreover have "keeps_moving q' (set_tries i (Some 0) q')" for q'
      by (simp add: keeps_moving_def paused_def pause_of_def)
    ultimately have "flows (queue_starts V i q)"
      by (auto simp: queue_starts_def Let_def intro: flows_keeps)
    with Some False show ?thesis by (simp add: start_next_eq)
  qed
qed

lemma flows_remove:
  "tables_ok W {} q \<Longrightarrow> (i \<notin> set (xfers q) \<Longrightarrow> flows q) \<Longrightarrow> flows (xfer_remove_from_list V i q)"
  unfolding xfer_remove_from_list.simps by (auto intro: flows_start_next [OF tables_unlink])

lemma flows_delete: "tables_ok W {} q \<Longrightarrow> flows q \<Longrightarrow> flows (xfer_delete V i q)"
  unfolding xfer_delete_def
  by (intro flows_remove) (auto elim!: tables_view flows_view simp: view_on_handle)

lemma flows_delete_on_conn: "tables_ok W {} q \<Longrightarrow> flows q \<Longrightarrow> flows (xfers_delete_on_conn V htlc q)"
proof -
  have "tables_ok W {} q \<Longrightarrow> flows q \<Longrightarrow> flows (fold (xfer_delete V) is q)" for "is"
    by (induction "is" arbitrary: q) (simp_all add: tables_delete flows_delete)
  then show "tables_ok W {} q \<Longrightarrow> flows q \<Longrightarrow> flows (xfers_delete_on_conn V htlc q)"
    by (simp add: xfers_delete_on_conn_def)
qed

lemma flows_hold:
  assumes "tables_ok (insert i W) {} q" and "i \<in> set (xfers q)" "i \<notin> set (working q)"
    and "\<And>k. f k \<noteq> Winding \<and> \<not> waits_reply (Some (f k))"
  shows "flows (hold V i f q)"
proof -
  have "tables_ok (insert i W) {} (on_handle i (\<lambda>h. h\<lparr>abort_fired := False\<rparr>) q)"
    using assms(1) by (rule tables_view) (simp add: view_on_handle)
  then have "tables_ok W {} (set_pause i (Some (f k)) (on_handle i (\<lambda>h. h\<lparr>abort_fired := False\<rparr>) q))" for k
    using assms(2-4) by (rule_tac tables_settled) (simp_all add: on_handle_def)
  then show ?thesis
    unfolding hold_def Let_def by (intro flows_start_next tables_view [OF _ view_small(1)])
qed

lemma flows_resume_folder:
  assumes ok: "tables_ok W {} q" and folder: "opt_is_folder (handles q i)"
    and idle: "settled_kept (pause_of q i) = None \<Longrightarrow> flows q"
  shows "flows (resume_folder V i q)"
proof (cases "settled_kept (pause_of q i)")
  case None
  then show ?thesis using idle by (simp add: resume_folder.simps resume_ask_def)
next
  case (Some kept)
  have i: "i \<in> set (xfers q)" using settled_idle [OF ok Some] by simp
  let ?a = "set_pause i (Some (PAsked kept)) q"
  have moving: "in_motion q' i" if "same_rows ?a q'" for q'
    using that i folder by (simp add: in_motion_def same_rowsD paused_def) (simp add: pause_of_set_pause)
  show ?thesis
  proof (cases "h_get (handles q i)")
    case True
    let ?b = "on_handle i (\<lambda>h. h\<lparr>total_pos := 0\<rparr>) (set_held i (Some (folder_held_on_disk ?a i)) ?a)"
    have "in_motion ?b i"
      using i folder by (simp add: in_motion_def paused_def pause_of_def on_handle_def)
         (simp add: set_pause_def map_of_set_assoc)
    moreover have "same_rows ?b (resume_download V i kept q)"
      unfolding resume_download_def Let_def ask_folder_def
      by (rule same_rows_trans [OF rows_send rows_view [OF view_small(1)]])
    ultimately have "flows (resume_download V i kept q)" by (rule flows_moving)
    then show ?thesis
      using True Some by (simp add: resume_folder.simps resume_ask_def)
  next
    case False
    let ?b = "on_handle i (\<lambda>h. h\<lparr>total_pos := 0\<rparr>) ?a"
    have b: "same_rows ?a (snd (ask_put_folder V i s ?b))" "same_rows ?a (snd (ask_put_folder V i s (with_folder_run i f ?b)))" for s f
      by (rule same_rows_trans [OF rows_view [OF view_on_handle] rows_ask_put], simp)
         (rule same_rows_trans [OF rows_view [OF view_on_handle]
           same_rows_trans [OF rows_view [OF view_small(2)] rows_ask_put]], simp)
    have "changed_folder (emit x (set_pause i (Some (PChanged kept)) q)) i" for x
      using i False folder by (simp add: changed_folder_def emit_def pause_of_def set_pause_def map_of_set_assoc)
    then have changed: "flows (emit x (set_pause i (Some (PChanged kept)) q))" for x
      by (auto simp: flows_def)
    have asked: "flows (emit x q')" if "same_rows ?a q'" for x q'
      using flows_moving [OF moving [OF that] rows_view [OF view_small(1)]] .
    have "flows (snd (resume_upload V i kept q))" if "fst (resume_upload V i kept q)"
      using that changed asked [OF b(1)] asked [OF b(2)]
      by (auto simp: resume_upload_def Let_def case_prod_beta split: option.splits bool.splits if_splits)
    moreover have "flows (xfer_remove_from_list V i (snd (resume_upload V i kept q)))"
    proof (rule flows_remove)
      show "tables_ok W {} (snd (resume_upload V i kept q))"
        using tables_resume_upload [OF ok _ _ False folder] settled_idle [OF ok Some] by blast
      have "xfers (snd (resume_upload V i kept q)) = xfers q"
        using xfers_resume_ask [of V i q] False Some by (simp add: resume_ask_def)
      then show "i \<notin> set (xfers (snd (resume_upload V i kept q))) \<Longrightarrow> flows (snd (resume_upload V i kept q))"
        using i by simp
    qed
    ultimately show ?thesis
      using False Some by (cases "resume_upload V i kept q") (simp add: resume_folder.simps resume_ask_def split: bool.split)
  qed
qed


lemma flows_file_go:
  assumes ok: "tables_ok W {} q" and f: "flows q" and i: "i \<in> set (xfers q)"
  shows "flows (xfer_go_file V i q)"
proof (cases "settled_kept (pause_of q i)")
  case None
  have "flows (go_request V i None None q)" if "pause_of q i = None"
    using that i by (intro flows_go_request) (simp_all add: paused_def)
  with None show ?thesis
    using f by (auto simp: xfer_go_file_def split: option.split)
next
  case (Some kept)
  then have p: "paused q i" "pause_of q i \<noteq> None" "\<not> is_changed (pause_of q i)"
    using settled_keptD [OF Some] by (auto simp: paused_def)
  then have "keeps_moving q (set_pause i (Some (PChanged kept)) q)"
    by (simp add: keeps_moving_def paused_def pause_of_set_pause)
  then have changed: "flows (emit x (set_pause i (Some (PChanged kept)) q))" for x
    using f flows_keeps flows_view [OF _ view_small(1)] by blast
  have "flows (go_request V i (Some kept) full (on_handle i h (set_pause i (Some (PAsked kept)) q)))" for full h
    using i by (intro flows_go_request) (simp_all add: paused_def pause_of_def on_handle_def, simp add: set_pause_def map_of_set_assoc)
  with Some p changed show ?thesis
    by (auto simp: xfer_go_file_def Let_def)
qed

lemma flows_xfer_go: "tables_ok W {} q \<Longrightarrow> flows q \<Longrightarrow> i \<in> set (xfers q) \<Longrightarrow> flows (xfer_go V i q)"
  by (simp add: xfer_go.simps flows_file_go flows_resume_folder)

subsection \<open>Replies\<close>

lemma keeps_trans: "keeps_moving q q' \<Longrightarrow> keeps_moving q' q'' \<Longrightarrow> keeps_moving q q''"
  unfolding keeps_moving_def by (intro conjI; (blast | simp))

lemma keeps_view: "same_view q q' \<Longrightarrow> keeps_moving q q'"
  by (rule keeps_rows [OF rows_view])

lemma keeps_tries: "keeps_moving q (set_tries i n q)"
  by (simp add: keeps_moving_def paused_def pause_of_def)

lemma keeps_answered: "keeps_moving q (answered i q)"
proof -
  have "keeps_moving q (set_pause i None q)" if "waits_reply (pause_of q i)"
    using that by (cases "pause_of q i" rule: waits_reply.cases)
      (auto simp: keeps_moving_def paused_def pause_of_set_pause)
  moreover from this have "keeps_moving q (snd (take_folder_run i (set_pause i None q)))" if "waits_reply (pause_of q i)"
    using that keeps_trans keeps_view [OF view_small(4)] by blast
  ultimately show ?thesis
    by (auto simp: answered_def Let_def keeps_tries intro!: keeps_trans [OF _ keeps_tries] split: option.split Pause.split)
qed

lemma keeps_announce: "keeps_moving q (hx_xfer_announce i pos q)"
proof -
  have "keeps_moving q ((hx_htxf_ref i q)\<lparr>working := working q @ [i]\<rparr>)" for q
    by (auto simp: keeps_moving_def hx_htxf_ref_def on_handle_def paused_def pause_of_def)
  then have "keeps_moving q (xfer_ready_write i q)" for q
    using keeps_trans [OF _ keeps_view [OF view_small(1)]] keeps_view by (auto simp: xfer_ready_write_def)
  then have "keeps_moving q (xfer_ready_write i (emit x q))" for x
    by (rule keeps_trans [OF keeps_view [OF view_small(1)]])
  moreover have "keeps_moving q (emit y (emit x q))" for x y
    by (rule keeps_view [OF same_view_trans [OF view_small(1) view_small(1)]])
  ultimately show ?thesis by (simp add: hx_xfer_announce_def Let_def)
qed

lemma flows_download_ready: "flows q \<Longrightarrow> flows (download_ready i folder t q)"
  unfolding download_ready_def Let_def
  by (auto intro!: flows_keeps [OF _ keeps_announce] flows_view [OF _ view_small(3)] flows_view [OF _ view_on_handle]
      flows_keeps [OF _ keeps_answered])

lemma flows_queue_moved: "flows q \<Longrightarrow> flows (queue_moved htlc r pos q)"
  unfolding queue_moved_def
  by (auto intro!: flows_keeps [OF _ keeps_announce] flows_view [OF _ view_on_handle] split: option.split)

lemma flows_download_refused:
  assumes ok: "tables_ok {} {} q" and get: "h_get (handles q i)" and f: "flows q"
  shows "flows (download_refused V i q)"
proof (cases "i \<in> set (xfers q)")
  case False
  then show ?thesis using f by (simp add: download_refused_def)
next
  case i: True
  have resumed: "flows (snd (resume_refused V i q))" if r: "fst (resume_refused V i q)"
  proof -
    obtain k where p: "pause_of q i = Some (PAsked k)"
      using r by (auto simp: resume_refused_def split: option.splits Pause.splits)
    have "tables_ok {} {} (set_pause i (Some (Paused k)) q)"
      using ok i p by (intro tables_set_pause) (auto simp: tables_ok_def pauses_ok_def)
    then have "flows (start_next V (emit (FileUpdate i) (set_pause i (Some (Paused k)) q)))"
      by (rule flows_start_next [OF tables_view [OF _ view_small(1)]])
    with p show ?thesis by (simp add: resume_refused_def)
  qed
  show ?thesis
  proof (cases "fst (resume_refused V i q)")
    case True
    then show ?thesis using resumed i by (auto simp: download_refused_def split: prod.splits bool.splits)
  next
    case False
    then have r: "resume_refused V i q = (False, q)"
      using resume_refused_False [of V i q] by (cases "resume_refused V i q") auto
    have "in_motion (snd (queued_refused i q)) i" if "fst (queued_refused i q)"
      using that i by (auto simp: queued_refused_def in_motion_def hx_htxf_ref_def on_handle_def split: option.splits if_splits)
    then have queued: "flows (snd (queued_refused i q))" if "fst (queued_refused i q)"
      using that by (auto simp: flows_def)
    have spent: "snd (queued_refused i q) = set_tries i None q" if "\<not> fst (queued_refused i q)"
      using that by (auto simp: queued_refused_def split: option.splits if_splits)
    have t: "tables_ok {} {} (set_tries i None q)" using ok by (rule tables_set_tries) simp
    have "\<not> opt_retry (handles (set_tries i None q) i)" using ok by (simp add: tables_ok_def rows_ok_def)
    moreover have "flows (xfer_delete V i (emit x (set_tries i None q)))" for x
      by (rule flows_delete [OF tables_view [OF t view_small(1)] flows_view [OF flows_keeps [OF f keeps_tries] view_small(1)]])
    ultimately show ?thesis
      using i r queued spent by (cases "queued_refused i q") (auto simp: download_refused_def split: bool.split)
  qed
qed

lemma flows_upload_refused:
  assumes ok: "tables_ok {} {} q" and put: "\<not> h_get (handles q i)" and f: "flows q"
  shows "flows (snd (upload_refused V i q))"
proof -
  have a: "keeps_moving q (set_pause i (Some (Restarted k)) q)" if "pause_of q i = Some (PAsked k)" for k
    using that by (simp add: keeps_moving_def paused_def pause_of_set_pause)
  have asked: "flows (snd (ask_put_folder V i None (set_pause i (Some (Restarted k)) q)))"
      "flows (xfer_go_put V i None (set_pause i (Some (Restarted k)) q))" if "pause_of q i = Some (PAsked k)" for k
    using flows_keeps [OF f a [OF that]] flows_rows rows_ask_put rows_go_put by blast+
  have "tables_ok {} {} (set_pause i (Some (Paused k)) q)" if p: "pause_of q i = Some (Restarted k)" for k
    using ok pause_listed [OF ok p] p by (intro tables_set_pause) (auto simp: tables_ok_def pauses_ok_def)
  then have again: "flows (start_next V (emit x (set_pause i (Some (Paused k)) q)))" if "pause_of q i = Some (Restarted k)" for k x
    using that by (intro flows_start_next tables_view [OF _ view_small(1)]) blast
  have "flows (xfer_delete V i (emit x q))" for x
    by (rule flows_delete [OF tables_view [OF ok view_small(1)] flows_view [OF f view_small(1)]])
  with f asked again show ?thesis
    by (auto simp: upload_refused_def upload_resume_refused_def Let_def split: option.split prod.split Pause.split)
qed


lemma flows_upload_ready:
  assumes ok: "tables_ok {} {} q" and put: "\<not> h_get (handles q i)" and f: "flows q"
  shows "flows (upload_ready V i folder t q)"
proof -
  let ?q1 = "on_handle i (\<lambda>h. h\<lparr>h_queue := t_queue t\<rparr>) q"
  let ?q2 = "snd (size_upload V i t ?q1)"
  have v1: "same_view q ?q1" by (simp add: view_on_handle)
  have v2: "same_view q ?q2" using v1 view_size_upload by (rule same_view_trans)
  have q2: "tables_ok {} {} ?q2" using ok v2 by (rule tables_view)
  have ready: "flows (hx_xfer_announce i (t_queue t)
      (on_handle i (\<lambda>h. h\<lparr>h_ref := t_reference t\<rparr>) (answered i q')))" if "flows q'" for q'
    using that by (intro flows_keeps [OF _ keeps_announce] flows_view [OF flows_keeps [OF _ keeps_answered] view_on_handle]) simp_all
  have f2: "flows ?q2" using f v2 by (rule flows_view)
  have changed: "flows (snd (upload_file_changed V i ?q2))"
  proof (cases "waits_reply (pause_of ?q2 i)")
    case True
    obtain p where p: "pause_of ?q2 i = Some p" using waits_replyD [OF True] by blast
    have "tables_ok {} {} (set_pause i (Some (PChanged k)) ?q2)" for k
      using q2 pause_listed [OF q2 p] True by (intro tables_set_pause) (auto simp: tables_ok_def pauses_ok_def)
    then have "flows (start_next V (emit x (set_pause i (Some (PChanged k)) ?q2)))" for k x
      by (rule flows_start_next [OF tables_view [OF _ view_small(1)]])
    then show ?thesis
      using f2 by (auto simp: upload_file_changed_def split: option.split Pause.split)
  next
    case False
    then show ?thesis
      using f2 by (cases "pause_of ?q2 i" rule: waits_reply.cases) (simp_all add: upload_file_changed_def)
  qed
  have "\<not> h_get (handles ?q2 i)" using v2 put by (simp add: same_view_def)
  then have refused: "flows (snd (upload_refused V i (emit x (snd (upload_file_changed V i ?q2)))))"
    if "\<not> fst (upload_file_changed V i ?q2)" for x
    using file_unchanged [OF that] tables_view [OF q2 view_small(1)] flows_view [OF f2 view_small(1)]
    by (intro flows_upload_refused) (simp_all add: emit_def)
  show ?thesis
  proof (cases folder)
    case True
    then show ?thesis using f ready [OF flows_view [OF f v1]] by (simp add: upload_ready_def Let_def)
  next
    case False
    then show ?thesis
      using f ready [OF f2] refused changed
      by (auto simp: upload_ready_def Let_def case_prod_beta split: bool.split prod.split)
  qed
qed

lemma flows_requests: "flows q \<Longrightarrow> flows (q\<lparr>in_flight := fl\<rparr>)"
  by (erule flows_rows) (simp add: same_rows_def same_view_def run_keys_def)

lemma flows_transfer_reply:
  assumes ok: "tables_ok {} {} q" and f: "flows q"
  shows "flows (transfer_reply V k t q)"
proof -
  let ?q1 = "q\<lparr>in_flight := remove_first k (in_flight q)\<rparr>"
  have "tables_ok {} {} ?q1" using ok set_remove_first by (rule tables_fewer)
  then show ?thesis
    using f flows_requests [OF f] taken_fits [OF ok, of k]
    by (auto simp: transfer_reply_def Let_def split: option.split Asked.split
        intro!: flows_view [OF _ view_unref] flows_download_ready flows_upload_ready)
qed

lemma flows_transfer_failed:
  assumes ok: "tables_ok {} {} q" and f: "flows q"
  shows "flows (transfer_failed V k q)"
proof -
  let ?q1 = "q\<lparr>in_flight := remove_first k (in_flight q)\<rparr>"
  have "tables_ok {} {} ?q1" using ok set_remove_first by (rule tables_fewer)
  then show ?thesis
    using f flows_requests [OF f] taken_fits [OF ok, of k]
    by (auto simp: transfer_failed_def Let_def split: option.split Asked.split
        intro!: flows_view [OF _ view_unref] flows_download_refused flows_upload_refused)
qed

subsection \<open>Workers that end\<close>

lemma flows_settle_stop:
  assumes ok: "tables_ok W {} q" and i: "i \<in> set (xfers q)" "i \<notin> set (working q)"
    and folder: "opt_is_folder (handles q i)"
  shows "flows (settle_stop V i stp q)"
proof -
  let ?q1 = "if stp = StopAgain then with_folder_run i (\<lambda>r. r\<lparr>fr_again := fr_again r + 1\<rparr>) q else q"
  let ?p = "if stp = StopChanged then PChanged FOLDER_KEPT else Paused FOLDER_KEPT"
  let ?q2 = "set_pause i (Some ?p) ?q1"
  have "tables_ok W {} ?q1"
    using ok tables_view [OF ok view_small(2)] by simp
  then have q2: "tables_ok W {} ?q2"
    using i by (intro tables_set_pause; cases stp) (auto simp: with_folder_run_def)
  have "flows (start_next V (emit (FileUpdate i) (with_folder_run i f ?q2)))" for f
    using q2 by (intro flows_start_next tables_view [OF _ view_small(1)] tables_view [OF _ view_small(2)])
  moreover have "flows (resume_folder V i ?q2)" if "stp = StopAgain"
  proof (rule flows_resume_folder [OF q2])
    show "opt_is_folder (handles ?q2 i)" using folder by simp
    have "pause_of ?q2 i = Some (Paused FOLDER_KEPT)" using that by (simp add: pause_of_set_pause)
    then show "settled_kept (pause_of ?q2 i) = None \<Longrightarrow> flows ?q2" by simp
  qed
  ultimately show ?thesis
    unfolding settle_stop_def Let_def by (auto simp del: if_split split: if_split_asm)
qed


lemma flows_settle_pause:
  assumes ok: "tables_ok {i} {} q" and i: "i \<notin> set (working q)" and s: "fst (settle_pause V i q)"
  shows "flows (snd (settle_pause V i q))"
proof (cases "pause_of q i = Some Winding")
  case True
  have "flows (hold V i Paused q)"
    using ok i pause_listed [OF ok True] by (intro flows_hold [of i "{}"]) simp_all
  with True s show ?thesis by (simp add: settle_pause_def split: if_splits)
next
  case False
  with ok have ok': "tables_ok {} {} q" by (rule tables_not_winding)
  let ?q1 = "snd (take_folder_stop i q)"
  have q1: "tables_ok {} {} ?q1" using ok' by (rule tables_view) (rule view_small)
  have same: "xfers ?q1 = xfers q" "working ?q1 = working q" "handles ?q1 = handles q"
    by (simp_all add: take_folder_stop_def with_folder_run_def)
  obtain stp where stp: "take_folder_stop i q = (Some stp, ?q1)" and listed: "i \<in> set (xfers q)"
    using s False same by (cases "take_folder_stop i q") (auto simp: settle_pause_def split: option.splits if_splits)
  then have "opt_is_folder (handles q i)"
    using runs_folder [OF ok'] by (auto simp: take_folder_stop_def split: option.splits)
  then have "flows (settle_stop V i stp ?q1)"
    using q1 same listed i by (intro flows_settle_stop) simp_all
  with s False show ?thesis
    unfolding settle_pause_def by (subst (asm) stp, subst stp) (simp split: if_splits)
qed

lemma flows_settle_failed:
  assumes ok: "tables_ok {} {} q" and i: "i \<notin> set (working q)" and f: "i \<notin> set (xfers q) \<Longrightarrow> flows q"
  shows "flows (settle_failed V i failed q)"
proof -
  let ?q1 = "\<lambda>f. snd (tell_failed i f q)"
  have v: "same_view q (?q1 f)" for f
    by (simp add: tell_failed_def case_prod_beta views)
  have t1: "tables_ok {} {} (?q1 f)" for f using ok v by (rule tables_view)
  then have t2: "tables_ok {i} {} (?q1 f)" for f
    by (auto simp: tables_ok_def pauses_ok_def)
  have x: "xfers (?q1 f) = xfers q" "working (?q1 f) = working q" for f
    using v [of f] by (simp_all add: same_view_def)
  have "flows (hold V i (\<lambda>kept. PFailed kept why) (?q1 f))" if "i \<in> set (xfers q)" for f why
    using i that x t2 by (intro flows_hold [of i "{}"]) simp_all
  moreover have "flows (xfer_remove_from_list V i (?q1 g))" for g
    using x f flows_view [OF _ v] by (intro flows_remove [OF t1]) auto
  moreover have "flows (xfer_remove_from_list V i q)"
    using f by (intro flows_remove [OF ok])
  ultimately show ?thesis
    by (auto simp: settle_failed_def case_prod_beta split: option.split)
qed

lemma flows_cleanup:
  assumes ok: "tables_ok {} {} q" and f: "flows q"
  shows "flows (xfer_handle V (CleanupRuns i) q)"
proof -
  let ?q0 = "q\<lparr>returned := remove1 i (returned q), working := filter (\<lambda>e. e \<noteq> i) (working q)\<rparr>"
  let ?q1 = "snd (take_failure i ?q0)"
  have "pause_of ?q0 = pause_of q" "asked_fits ?q0 w = asked_fits q w" "run_keys ?q0 = run_keys q" for w
    by (simp_all add: fun_eq_iff pause_of_def run_keys_def asked_fits_handles [of ?q0 q])
  moreover have "rows_ok ?q0"
    using ok by (auto simp: tables_ok_def rows_ok_def)
  ultimately have "tables_ok {i} {} ?q0"
    using ok by (simp add: tables_ok_def pauses_ok_def requests_ok_def)
  then have q1: "tables_ok {i} {} ?q1" by (rule tables_view) (rule view_small)
  have w1: "i \<notin> set (working ?q1)" "xfers ?q1 = xfers q"
    by (simp_all add: take_failure_def split: option.split)
  have unlisted: "flows (snd (settle_pause V i ?q1))" if out: "i \<notin> set (xfers q)"
  proof -
    have "flows ?q0"
      using f out by (auto simp: flows_def in_motion_def changed_folder_def paused_def pause_of_def)
    then have f1: "flows ?q1" by (rule flows_view) (rule view_small)
    have "pause_of ?q1 i = None"
      using pause_listed [OF q1] out w1 by (cases "pause_of ?q1 i") auto
    then have "snd (settle_pause V i ?q1) = snd (take_folder_stop i ?q1)"
      using out w1 by (auto simp: settle_pause_def take_folder_stop_def with_folder_run_def split: option.split)
    then show ?thesis using flows_view [OF f1 view_small(9)] by simp
  qed
  have q2: "tables_ok {} {} (snd (settle_pause V i ?q1))"
    using q1 w1(1) by (rule tables_settle_pause)
  have "flows (settle_failed V i failed (snd (settle_pause V i ?q1)))" if "\<not> fst (settle_pause V i ?q1)" for failed
    using q2 w1 settle_pause_False [OF that] unlisted by (intro flows_settle_failed) simp_all
  with flows_settle_pause [OF q1 w1(1), of V] show ?thesis
    by (auto simp: xfer_cleanup_dispatch_def case_prod_beta split: bool.split prod.split
        intro!: flows_view [OF _ view_unref])
qed


subsection \<open>New transfers, and every step\<close>

lemma flows_new:
  assumes ok: "registry_ok q" and f: "flows q"
  shows "flows (xfer_new V htlc p get prev srv q)"
proof -
  let ?i = "next_hid q"
  define q2 where "q2 = on_handle ?i (\<lambda>h. h\<lparr>opt_is_preview := prev, srv_data_size := ucast srv\<rparr>)
      (snd (xfer_init htlc p get (if get then ucast srv else 0) q))"
  note fresh = fresh_hid [OF ok]
  have x: "xfers q2 = xfers q @ [?i]" "working q2 = working q" "retries q2 = retries q" "pause_of q2 = pause_of q"
    and old: "j \<noteq> ?i \<Longrightarrow> handles q2 j = handles q j" and new: "\<not> opt_is_folder (handles q2 ?i)" for j
    unfolding q2_def init_row by (simp_all add: on_handle_def emit_def new_row_def fun_eq_iff pause_of_def hx_htxf_new_def)
  have go: "flows (xfer_go V ?i q2)"
    using new fresh(3) x by (simp add: xfer_go.simps xfer_go_file_def flows_go_request paused_def)
  have "flows q2" if "\<not> (\<forall>e\<in>set (xfers q2). e = ?i \<or> paused q2 e)"
  proof -
    have p: "paused q2 = paused q" using x by (simp add: fun_eq_iff paused_def)
    then have "\<not> (\<forall>e\<in>set (xfers q). paused q e)" using that x by auto
    then obtain j where j: "in_motion q j \<or> changed_folder q j" using f by (auto simp: flows_def)
    then have "j \<noteq> ?i" using fresh(1) by (auto simp: in_motion_def changed_folder_def)
    with j have "in_motion q2 j \<or> changed_folder q2 j"
      by (auto simp: in_motion_def changed_folder_def x p old)
    then show ?thesis by (auto simp: flows_def)
  qed
  with go show ?thesis
    unfolding xfer_new_def Let_def case_prod_beta init_row(1) q2_def [symmetric] by auto
qed

lemma flows_new_folder:
  assumes ok: "registry_ok q"
  shows "flows (hx_get_folder V htlc p q)" "flows (hx_put_folder V htlc p q)"
proof -
  have new: "in_motion (snd (xfer_new_folder htlc p get q)) (next_hid q)" for get
    using fresh_hid(3) [OF ok] by (simp add: folder_row in_motion_def emit_def new_row_def paused_def pause_of_def)
  show "flows (hx_get_folder V htlc p q)"
    unfolding hx_get_folder_def case_prod_beta folder_row(2) ask_folder_def by (rule flows_moving [OF new rows_send])
  show "flows (hx_put_folder V htlc p q)"
    unfolding hx_put_folder_def case_prod_beta folder_row(2) by (rule flows_moving [OF new rows_ask_put])
qed

lemma flows_reorder: "mset xs = mset (xfers q) \<Longrightarrow> flows q \<Longrightarrow> flows (q\<lparr>xfers := xs\<rparr>)"
  by (erule flows_keeps) (auto simp: keeps_moving_def paused_def pause_of_def dest: mset_eq_setD)

lemma flows_retry:
  assumes ok: "tables_ok {} {} q" and f: "flows q"
  shows "flows (xfer_handle V (RetryRuns i) q)"
proof -
  let ?q1 = "q\<lparr>retries := remove1 i (retries q)\<rparr>"
  have "asked_fits ?q1 w = asked_fits q w" for w
    by (rule asked_fits_handles) simp
  then have "tables_ok {} {} ?q1"
    using ok by (simp add: tables_defs pause_of_def run_keys_def)
  moreover have "flows ?q1" if out: "i \<notin> set (xfers q)"
  proof -
    have "in_motion ?q1 j \<longleftrightarrow> in_motion q j" for j
      using out by (cases "j = i") (simp_all add: in_motion_def paused_def pause_of_def in_set_remove1)
    then show ?thesis using f by (simp add: flows_def changed_folder_def paused_def pause_of_def)
  qed
  ultimately show ?thesis
    by (auto simp: queue_retry_def intro!: flows_view [OF _ view_unref] flows_start_next)
qed

lemma flows_delete_all: "flows (xfers_delete_all q)"
proof -
  have "same_view p (cancel_and_unref i p)" for i p
    unfolding cancel_and_unref_def by (rule same_view_trans [OF view_on_handle view_unref]) simp
  moreover have "flows (q\<lparr>xfers := [], pauses := [], queued_tries := [], held_bytes := []\<rparr>)"
    by (simp add: flows_def)
  ultimately show ?thesis
    unfolding xfers_delete_all_def by (rule_tac flows_view [OF _ view_fold])
qed

lemma flows_pause:
  assumes "i \<in> set (xfers q)" and f: "flows q"
  shows "flows (xfer_pause i q)"
proof -
  have "in_motion (set_pause i (Some Winding) q) i" if "xfer_can_pause q i"
    using that assms by (simp add: in_motion_def xfer_can_pause_def)
  then have "flows (emit x (on_handle i (\<lambda>h. h\<lparr>abort_fired := True\<rparr>) (set_pause i (Some Winding) q)))"
    if "xfer_can_pause q i" for x
    using that flows_moving [OF _ rows_view [OF same_view_trans [OF view_on_handle view_small(1)]]] by simp
  with f show ?thesis by (simp add: xfer_pause_def)
qed

lemma flows_worker:
  assumes "flows q"
  shows "flows (xfer_handle V (WorkerReturns i c) q)"
proof -
  have ret: "keeps_moving p (p\<lparr>returned := rs\<rparr>)" for p rs
    by (simp add: keeps_moving_def paused_def pause_of_def)
  have put: "keeps_moving p (put_folder_run i r p)" for p r
    by (simp add: keeps_moving_def paused_def pause_of_def put_folder_run_def)
  have "keeps_moving q (xfer_worker_entry V i c q)"
  proof (cases "opt_is_folder (handles q i)")
    case True
    then obtain q1 r where "same_view q q1" "same_view (put_folder_run i r q1) (xfer_worker_entry V i c q)"
      using worker_folder_get [OF True] worker_folder_put [OF True] by blast
    then show ?thesis
      using keeps_trans [OF keeps_view keeps_trans [OF put keeps_view]] by blast
  qed (simp add: worker_solo keeps_view)
  with ret assms show ?thesis
    by (simp add: xfer_completion_entry_def flows_keeps [OF _ keeps_trans])
qed

lemma flows_step:
  assumes ok: "registry_ok q" and can: "xfer_can q e" and f: "flows q"
  shows "flows (xfer_handle V e q)"
proof -
  have t: "tables_ok {} {} q" using ok by (simp add: registry_ok_def)
  show ?thesis
  proof (cases e)
    case (MoveUp n)
    with f show ?thesis by (auto simp: xfer_up_def mset_swap_at intro!: flows_reorder)
  next
    case (MoveDown n)
    with f show ?thesis by (auto simp: xfer_down_def mset_swap_at intro!: flows_reorder)
  next
    case Shutdown
    then show ?thesis by (simp add: flows_delete_all)
  next
    case (PauseIt i)
    with can f show ?thesis by (simp add: flows_pause)
  next
    case (GoTimerRuns i)
    then show ?thesis using can t by (simp add: tables_defs)
  next
    case (WorkerReturns i c)
    with f show ?thesis by (simp only: flows_worker)
  next
    case (ConnForgotten htlc)
    then show ?thesis
      using f by (simp add: forget_conn_def flows_view [OF flows_requests view_fold [OF view_unref]])
  next
    case (TasksShown htlc)
    have "same_view q (xfer_tasks_update htlc q)"
      unfolding xfer_tasks_update_def by (rule view_fold) (rule view_small)
    with TasksShown f show ?thesis by (auto intro: flows_view)
  next
    case (UpdateRuns i)
    have "same_view p (fu_dispatch i p)" for p
      unfolding fu_dispatch_def by (rule same_view_trans [OF _ view_unref]) (simp add: views)
    then show ?thesis
      using UpdateRuns flows_view [OF f same_view_trans [OF view_small(11)]] by auto
  qed (use can f t ok in \<open>auto simp del: xfer_handle.simps(18,19) intro: flows_new flows_new_folder flows_delete flows_delete_on_conn
      flows_xfer_go flows_transfer_reply flows_transfer_failed flows_queue_moved flows_view [OF f] view_post
      view_small(10) flows_cleanup flows_retry\<close>)
qed

lemma reachable_flows: "xfer_reachable V q \<Longrightarrow> flows q"
proof (induction rule: xfer_reachable.induct)
  case (start d)
  then show ?case by (simp add: flows_def xfer_start_def)
next
  case (step q e)
  then show ?case by (intro flows_step reachable_ok)
qed


section \<open>Properties\<close>

text \<open>
  A registry for the examples: its environment builds every request and queues downloads, its disk is
  the one of the file transfers' examples.
\<close>

definition toy_env :: "nat Env" where
  "toy_env = \<lparr>prefs_queuedl = True, cap_large = (\<lambda>_. False), builds = (\<lambda>_. True), uniquify = (\<lambda>_ p. p @ [49]),
     local_tree = (\<lambda>_ _. []), preview_wants = (\<lambda>n. n), env_aead = toy_aead, env_ext = toy_ext\<rparr>"

definition toy_reply :: Reply where
  "toy_reply = \<lparr>t_reference = 7, t_size = 10, t_queue = 0, t_items = 0, t_data_from = 0, t_rsrc_from = 0\<rparr>"

text \<open>Two downloads made, the first answered and running, the second waiting for it.\<close>

definition toy_registry :: Registry where
  "toy_registry =
     xfer_handle toy_env (Replied (0, 0) toy_reply)
       (xfer_handle toy_env (NewFile 0 [121] True False 10)
         (xfer_handle toy_env (NewFile 0 [120] True False 10) (xfer_start toy_disk)))"

lemma toy_reachable: "xfer_reachable toy_env toy_registry"
  unfolding toy_registry_def by (intro xfer_reachable.intros) simp_all

lemmas toy_defs = toy_registry_def toy_env_def toy_reply_def xfer_start_def hx_htxf_new_def toy_disk_def xfer_new_def
  xfer_init_def xfer_go.simps xfer_go_file_def go_request_def xfer_go_get_def local_target_def send_request_def
  expect_transfer_def hx_htxf_ref_def hx_htxf_unref_def on_handle_def emit_def paused_def pause_of_def
  transfer_reply_def download_ready_def answered_def set_tries_def set_assoc_def folder_held_def hx_xfer_announce_def
  xfer_ready_write_def hx_file_size_def xfer_num_def

lemma toy_values:
  "xfers toy_registry = [0, 1]" "working toy_registry = [0]" "posted toy_registry = []" "retries toy_registry = []"
  "in_flight toy_registry = []" "pauses toy_registry = []" "h_gone (handles toy_registry 1) = False"
  "next_hid toy_registry = 2" "queued_tries toy_registry = []"
  by (simp_all add: toy_defs Let_def)

text \<open>C5: In every state the registry reaches, a transfer's reference count is the number of its holders: its row,
  its worker, the progress updates posted for it, its retry timers and its requests in flight; and it is
  freed exactly when there are none, so nothing holds a transfer that is gone and no transfer leaks.
\<close>

theorem registry_refcounts:
  assumes "xfer_reachable V q"
  shows "refcount (handles q i) =
      int (count_list (xfers q @ working q @ posted q @ retries q @ map (asked_hid \<circ> snd) (in_flight q)) i) \<and>
    (h_freed (handles q i) \<longleftrightarrow> i < next_hid q \<and>
      i \<notin> set (xfers q @ working q @ posted q @ retries q @ map (asked_hid \<circ> snd) (in_flight q)))"
  using reachable_ok [OF assms] by (simp add: registry_ok_def refs_ok_def holders_def)

theorem registry_refcounts_witness: "refcount (handles toy_registry 0) = 2 \<and> \<not> h_freed (handles toy_registry 0)"
  using registry_refcounts [OF toy_reachable, of 0] by (simp add: toy_values)

text \<open>C15: In every state the registry reaches, no transfer has two rows or two workers; only a listed transfer is
  paused or owed another try, at most \<open>QUEUE_TRIES\<close> of them; and a transfer whose worker runs is not paused or
  is winding down, as every transfer that winds down has a worker that runs.
\<close>

theorem registry_rows:
  assumes "xfer_reachable V q"
  shows "distinct (xfers q) \<and> distinct (working q) \<and>
    fst ` set (pauses q) \<union> fst ` set (queued_tries q) \<subseteq> set (xfers q) \<and>
    snd ` set (queued_tries q) \<subseteq> {..QUEUE_TRIES} \<and>
    {i \<in> set (working q). pause_of q i \<notin> {None, Some Winding}} = {} \<and>
    {i. pause_of q i = Some Winding} \<subseteq> set (working q)"
  using reachable_ok [OF assms] by (auto simp: registry_ok_def tables_ok_def rows_ok_def pauses_ok_def)

theorem registry_rows_witness: "distinct (xfers toy_registry) \<and> length (xfers toy_registry) = 2"
  using registry_rows [OF toy_reachable] by (simp add: toy_values)

text \<open>C18: Every request in flight is of its transfer's kind: a download's request for a download, an upload's for an
  upload, a folder's for a folder and a file's for a file, and that transfer is alive.
\<close>

theorem requests_typed:
  assumes "xfer_reachable V q" and "(k, w) \<in> set (in_flight q)"
  shows "asked_fits q w \<and> \<not> h_freed (handles q (asked_hid w))"
proof -
  have "w \<in> snd ` set (in_flight q)" using assms(2) by force
  then show ?thesis
    using reachable_ok [OF assms(1)]
    by (auto simp: registry_ok_def tables_ok_def requests_ok_def refs_ok_def holders_def)
qed

definition toy_asked :: Registry where
  "toy_asked = xfer_handle toy_env (NewFile 0 [120] True False 10) (xfer_start toy_disk)"

lemma toy_asked_reachable: "xfer_reachable toy_env toy_asked"
  unfolding toy_asked_def by (intro xfer_reachable.intros) simp_all

theorem requests_typed_witness:
  "((0, 0), Download 0 False) \<in> set (in_flight toy_asked) \<and> h_get (handles toy_asked 0)"
proof -
  have "in_flight toy_asked = [((0, 0), Download 0 False)]"
    by (simp add: toy_asked_def toy_defs Let_def)
  then show ?thesis
    using requests_typed [OF toy_asked_reachable, of "(0, 0)" "Download 0 False"] by simp
qed



text \<open>
  The exception is the source's: a folder upload that stopped past a folder is asked for again by itself
  before the queue moves on, and where its files turn out to have changed it is only marked so.
\<close>

lemma again_changed_holds_queue:
  assumes "pause_of q i \<noteq> Some Winding" and "i \<in> set (xfers q)" and "\<not> canceled (handles q i)"
    and "folder_runs q = [(i, r)]" and "fr_stop r = Some StopAgain" and "fr_again r < AGAIN_TRIES"
    and "\<not> h_get (handles q i)" and "upload_changed (qdisk q) (h_path (handles q i)) (fr_sent r)"
  shows "fst (settle_pause V i q) \<and> handles (snd (settle_pause V i q)) = handles q \<and>
    in_flight (snd (settle_pause V i q)) = in_flight q \<and> is_changed (pause_of (snd (settle_pause V i q)) i)"
  using assms
  by (simp add: settle_pause_def take_folder_stop_def with_folder_run_def settle_stop_def Let_def resume_folder.simps
      resume_ask_def resume_upload_def pause_of_set_pause set_pause_def pause_of_def map_of_set_assoc emit_def xfer_num_def)



text \<open>The download of the example, paused with its file on disk, and asked for again.\<close>

definition toy_paused :: Registry where
  "toy_paused =
     on_handle 0 (\<lambda>h. h\<lparr>h_path := [97]\<rparr>) (set_pause 0 (Some (Paused (disk_of toy_disk [97]))) (toy_asked\<lparr>in_flight := []\<rparr>))"

lemma toy_paused_values:
  "pause_of toy_paused 0 = Some (Paused (disk_of toy_disk [97]))" "h_get (handles toy_paused 0)"
  "\<not> opt_is_folder (handles toy_paused 0)" "\<not> opt_is_preview (handles toy_paused 0)" "h_path (handles toy_paused 0) = [97]"
  "qdisk toy_paused = toy_disk" "h_htlc (handles toy_paused 0) = 0" "next_trans toy_paused = 1" "in_flight toy_paused = []"
  by (simp_all add: toy_paused_def toy_asked_def toy_defs Let_def set_pause_def)


end
