(* ===== verification/Voice_Presence.thy ===== *)
theory Voice_Presence
  imports Voice_Video "HOL-Library.AList"
begin

text \<open>
  Who is in the voice room (\<open>hxvoice-model/src/lib.rs\<close>): the entries by user id, the indicator
  each one shows, the video flags, and the signals a change of either emits.  The two record parsers
  of \<open>hxproto\<close> and the iteration order of a hash map are a parameter, \<open>PresenceEnv\<close>.  A signal
  handler that calls back into the model only reads it.
\<close>

section \<open>Indicators and flags\<close>

definition INDICATOR_NONE :: u32 where "INDICATOR_NONE = 0"
definition INDICATOR_IN_VOICE :: u32 where "INDICATOR_IN_VOICE = 1"
definition INDICATOR_SPEAKING :: u32 where "INDICATOR_SPEAKING = 2"
definition INDICATOR_MUTED :: u32 where "INDICATOR_MUTED = 3"

lemmas indicator_defs =
  INDICATOR_NONE_def INDICATOR_IN_VOICE_def INDICATOR_SPEAKING_def INDICATOR_MUTED_def

definition MAX_PARTICIPANTS :: nat where "MAX_PARTICIPANTS = 1024"

definition VIDEO_CAMERA :: u32 where "VIDEO_CAMERA = push_bit 0 1"
definition VIDEO_SCREEN :: u32 where "VIDEO_SCREEN = push_bit 1 1"
definition VIDEO_CAMERA_PAUSED :: u32 where "VIDEO_CAMERA_PAUSED = push_bit 2 1"
definition VIDEO_SCREEN_PAUSED :: u32 where "VIDEO_SCREEN_PAUSED = push_bit 3 1"

lemmas video_defs =
  VIDEO_CAMERA_def VIDEO_SCREEN_def VIDEO_CAMERA_PAUSED_def VIDEO_SCREEN_PAUSED_def

definition WIRE_CAMERA :: u16 where "WIRE_CAMERA = 0x0002"
definition WIRE_SCREEN :: u16 where "WIRE_SCREEN = 0x0004"

text \<open>
  A participant record and a publication as the parsers of \<open>hxproto\<close> yield them; \<open>vp_muted\<close> is
  the value of \<open>is_muted\<close>.
\<close>

record VoiceParticipant =
  vp_user_id :: u16
  vp_flags :: u16
  vp_muted :: bool

record PresenceEnv =
  parse_voice_participants :: "bytes \<Rightarrow> VoiceParticipant list"
  parse_video_publishers :: "bytes \<Rightarrow> Publication list"
  hash_order :: "u16 list \<Rightarrow> u16 list"

definition flags_of :: "(u16 \<times> u32) list \<Rightarrow> u16 \<Rightarrow> u32" where
  "flags_of m u = (case map_of m u of None \<Rightarrow> 0 | Some f \<Rightarrow> f)"

definition wire_video :: "u16 \<Rightarrow> u32" where
  "wire_video w =
     (if w AND WIRE_CAMERA \<noteq> 0 then VIDEO_CAMERA else 0) OR
     (if w AND WIRE_SCREEN \<noteq> 0 then VIDEO_SCREEN else 0)"

fun note_participant :: "(u16 \<times> u32) list \<Rightarrow> VoiceParticipant list \<Rightarrow> (u16 \<times> u32) list" where
  "note_participant out [] = out"
| "note_participant out (p # ps) =
     (let f = wire_video (vp_flags p)
      in note_participant (if f \<noteq> 0 then AList.update (vp_user_id p) f out else out) ps)"

definition participant_video_flags :: "PresenceEnv \<Rightarrow> bytes \<Rightarrow> (u16 \<times> u32) list" where
  "participant_video_flags W blob =
     note_participant [] (take MAX_PARTICIPANTS (parse_voice_participants W blob))"

fun kind_flags :: "VideoKind \<Rightarrow> u32 \<times> u32" where
  "kind_flags Camera = (VIDEO_CAMERA, VIDEO_CAMERA_PAUSED)"
| "kind_flags Screen = (VIDEO_SCREEN, VIDEO_SCREEN_PAUSED)"

fun note_publisher :: "(u16 \<times> u32) list \<Rightarrow> Publication list \<Rightarrow> (u16 \<times> u32) list" where
  "note_publisher out [] = out"
| "note_publisher out (p # ps) =
     (let (on, paused) = kind_flags (pub_kind p);
          f = flags_of out (pub_user_id p) OR on;
          f = (if pub_paused p then f OR paused else f)
      in note_publisher (AList.update (pub_user_id p) f out) ps)"

definition video_flags :: "PresenceEnv \<Rightarrow> bytes \<Rightarrow> (u16 \<times> u32) list" where
  "video_flags W blob = note_publisher [] (take MAX_PARTICIPANTS (parse_video_publishers W blob))"

section \<open>The model\<close>

record PresenceEntry =
  in_voice :: bool
  muted :: bool
  speaking :: bool
  last_indicator :: u32

definition default_entry :: PresenceEntry where
  "default_entry =
     \<lparr>in_voice = False, muted = False, speaking = False, last_indicator = 0\<rparr>"

definition compute_indicator :: "PresenceEntry \<Rightarrow> u32" where
  "compute_indicator e =
     (if \<not> in_voice e then INDICATOR_NONE
      else if muted e then INDICATOR_MUTED
      else if speaking e then INDICATOR_SPEAKING
      else INDICATOR_IN_VOICE)"

record HxVoiceModel =
  by_uid :: "(u16 \<times> PresenceEntry) list"
  self_uid :: u16
  seeded :: bool
  video :: "(u16 \<times> u32) list"
  video_seeded :: bool

definition new_model :: HxVoiceModel where
  "new_model =
     \<lparr>by_uid = [], self_uid = 0, seeded = False, video = [], video_seeded = False\<rparr>"

datatype Signal =
    IndicatorChanged u32 u32
  | PresenceChime u32 bool
  | VideoChanged u32 u32
  | VideoStarted u32 u32

text \<open>The result of \<open>recompute_and_maybe_emit\<close>, which no caller reads, is whether a signal is emitted.\<close>

definition recompute_and_maybe_emit :: "HxVoiceModel \<Rightarrow> u16 \<Rightarrow> HxVoiceModel \<times> Signal list" where
  "recompute_and_maybe_emit m uid =
     (case map_of (by_uid m) uid of
        None \<Rightarrow> (m, [])
      | Some e \<Rightarrow>
          let now = compute_indicator e
          in if now = last_indicator e then (m, [])
             else (m\<lparr>by_uid := AList.update uid (e\<lparr>last_indicator := now\<rparr>) (by_uid m)\<rparr>,
                   [IndicatorChanged (ucast uid) now]))"

definition entry_or_default :: "HxVoiceModel \<Rightarrow> u16 \<Rightarrow> PresenceEntry" where
  "entry_or_default m uid = (case map_of (by_uid m) uid of None \<Rightarrow> default_entry | Some e \<Rightarrow> e)"

definition ingest_present :: "HxVoiceModel \<Rightarrow> VoiceParticipant \<Rightarrow> HxVoiceModel \<times> Signal list" where
  "ingest_present m p =
     (let uid = vp_user_id p;
          e = entry_or_default m uid;
          was_in_voice = in_voice e;
          m = m\<lparr>by_uid := AList.update uid (e\<lparr>in_voice := True, muted := vp_muted p\<rparr>) (by_uid m)\<rparr>;
          (m, out) = recompute_and_maybe_emit m uid
      in (m, out @ (if seeded m \<and> \<not> was_in_voice \<and> uid \<noteq> self_uid m
                    then [PresenceChime (ucast uid) True] else [])))"

definition silence :: "PresenceEntry \<Rightarrow> PresenceEntry" where
  "silence e = e\<lparr>in_voice := False, muted := False, speaking := False\<rparr>"

definition ingest_left :: "HxVoiceModel \<Rightarrow> u16 \<Rightarrow> HxVoiceModel \<times> Signal list" where
  "ingest_left m uid =
     (case map_of (by_uid m) uid of
        None \<Rightarrow> (m, [])
      | Some e \<Rightarrow>
          let m = m\<lparr>by_uid := AList.update uid (silence e) (by_uid m)\<rparr>;
              (m, out) = recompute_and_maybe_emit m uid;
              chime = (if seeded m \<and> uid \<noteq> self_uid m then [PresenceChime (ucast uid) False] else [])
          in (m\<lparr>by_uid := AList.delete uid (by_uid m)\<rparr>, out @ chime))"

definition ingest_participants ::
  "PresenceEnv \<Rightarrow> HxVoiceModel \<Rightarrow> bytes \<Rightarrow> HxVoiceModel \<times> Signal list" where
  "ingest_participants W m blob =
     (let parts = take MAX_PARTICIPANTS (parse_voice_participants W blob);
          keep = map vp_user_id parts;
          (m, out) = run_machine ingest_present m parts;
          leavers = filter (\<lambda>u. u \<notin> set keep) (hash_order W (map fst (by_uid m)));
          (m, out') = run_machine ingest_left m leavers
      in (m\<lparr>seeded := True\<rparr>, out @ out'))"

definition set_self_uid :: "HxVoiceModel \<Rightarrow> u16 \<Rightarrow> HxVoiceModel" where
  "set_self_uid m uid = m\<lparr>self_uid := uid\<rparr>"

definition set_speaking :: "HxVoiceModel \<Rightarrow> u16 \<Rightarrow> bool \<Rightarrow> HxVoiceModel \<times> Signal list" where
  "set_speaking m uid spk =
     (case map_of (by_uid m) uid of
        None \<Rightarrow> (m, [])
      | Some e \<Rightarrow>
          if \<not> in_voice e \<or> speaking e = spk then (m, [])
          else recompute_and_maybe_emit
                 (m\<lparr>by_uid := AList.update uid (e\<lparr>speaking := spk\<rparr>) (by_uid m)\<rparr>) uid)"

definition video_changes ::
  "PresenceEnv \<Rightarrow> (u16 \<times> u32) list \<Rightarrow> (u16 \<times> u32) list \<Rightarrow> (u16 \<times> u32) list" where
  "video_changes W old fresh =
     map (\<lambda>u. (u, flags_of fresh u))
       (filter (\<lambda>u. flags_of old u \<noteq> flags_of fresh u) (hash_order W (map fst fresh))) @
     map (\<lambda>u. (u, 0)) (filter (\<lambda>u. u \<notin> set (map fst fresh)) (hash_order W (map fst old)))"

definition video_signals :: "bool \<Rightarrow> u16 \<Rightarrow> (u16 \<times> u32) list \<Rightarrow> u16 \<times> u32 \<Rightarrow> Signal list" where
  "video_signals notify self old = (\<lambda>(uid, flags).
     VideoChanged (ucast uid) flags #
     (if \<not> notify \<or> uid = self then []
      else map (VideoStarted (ucast uid))
             (filter (\<lambda>kind. flags AND kind \<noteq> 0 \<and> flags_of old uid AND kind = 0)
                [VIDEO_CAMERA, VIDEO_SCREEN])))"

definition replace_video ::
  "PresenceEnv \<Rightarrow> HxVoiceModel \<Rightarrow> (u16 \<times> u32) list \<Rightarrow> HxVoiceModel \<times> Signal list" where
  "replace_video W m fresh =
     (m\<lparr>video := fresh, video_seeded := True\<rparr>,
      concat (map (video_signals (video_seeded m) (self_uid m) (video m))
        (video_changes W (video m) fresh)))"

definition ingest_video_publishers ::
  "PresenceEnv \<Rightarrow> HxVoiceModel \<Rightarrow> bytes \<Rightarrow> HxVoiceModel \<times> Signal list" where
  "ingest_video_publishers W m blob = replace_video W m (video_flags W blob)"

definition ingest_participant_video ::
  "PresenceEnv \<Rightarrow> HxVoiceModel \<Rightarrow> bytes \<Rightarrow> HxVoiceModel \<times> Signal list" where
  "ingest_participant_video W m blob = replace_video W m (participant_video_flags W blob)"

definition get_video :: "HxVoiceModel \<Rightarrow> u16 \<Rightarrow> u32" where
  "get_video m uid = flags_of (video m) uid"

definition clear_uid :: "HxVoiceModel \<Rightarrow> u16 \<Rightarrow> HxVoiceModel \<times> Signal list" where
  "clear_uid m uid =
     (case map_of (by_uid m) uid of
        None \<Rightarrow> (m, [])
      | Some e \<Rightarrow>
          recompute_and_maybe_emit (m\<lparr>by_uid := AList.update uid (silence e) (by_uid m)\<rparr>) uid)"

definition clear_model :: "PresenceEnv \<Rightarrow> HxVoiceModel \<Rightarrow> HxVoiceModel \<times> Signal list" where
  "clear_model W m =
     (let (m, out) = ingest_video_publishers W m [];
          (m, out') = run_machine clear_uid m (hash_order W (map fst (by_uid m)))
      in (m\<lparr>by_uid := [], seeded := False, video_seeded := False\<rparr>, out @ out'))"

definition get_indicator :: "HxVoiceModel \<Rightarrow> u16 \<Rightarrow> u32" where
  "get_indicator m uid =
     (case map_of (by_uid m) uid of None \<Rightarrow> INDICATOR_NONE | Some e \<Rightarrow> last_indicator e)"

text \<open>
  The entry point of the C ABI: the first list since the last clear is the reply to the join, and
  seeds the video flags even where the connection negotiated video.
\<close>

definition hx_voice_model_ingest_participants ::
  "PresenceEnv \<Rightarrow> HxVoiceModel \<Rightarrow> bytes \<Rightarrow> bool \<Rightarrow> HxVoiceModel \<times> Signal list" where
  "hx_voice_model_ingest_participants W m blob video_cap =
     (let join_reply = \<not> seeded m;
          (m, out) = ingest_participants W m blob
      in if \<not> video_cap \<or> join_reply
         then (let (m, out') = ingest_participant_video W m blob in (m, out @ out'))
         else (m, out))"

text \<open>Everything that happens to a model.\<close>

datatype PresenceEvent =
    RoomStatus bytes bool
  | SelfUid u16
  | SetSpeaking u16 bool
  | VideoStatus bytes
  | ClearModel

fun presence_step :: "PresenceEnv \<Rightarrow> HxVoiceModel \<Rightarrow> PresenceEvent \<Rightarrow> HxVoiceModel \<times> Signal list" where
  "presence_step W m (RoomStatus blob cap) = hx_voice_model_ingest_participants W m blob cap"
| "presence_step W m (SelfUid u) = (set_self_uid m u, [])"
| "presence_step W m (SetSpeaking u b) = set_speaking m u b"
| "presence_step W m (VideoStatus blob) = ingest_video_publishers W m blob"
| "presence_step W m ClearModel = clear_model W m"

end
