(* ===== verification/Voice_Presence_Props.thy ===== *)
theory Voice_Presence_Props
  imports Voice_Presence
begin

text \<open>
  What the presence model promises a view.  A view that only listens shows every user's indicator and
  video flags as the model holds them, and no signal tells it what it already shows; the chimes
  are exactly the arrivals and departures after the first list; the tables stay bounded.
\<close>

section \<open>The invariant\<close>

definition hash_ok :: "PresenceEnv \<Rightarrow> bool" where
  "hash_ok W \<longleftrightarrow>
     (\<forall>xs. set (hash_order W xs) = set xs \<and> (distinct xs \<longrightarrow> distinct (hash_order W xs)))"

lemma hash_order_simps [simp]:
  "hash_ok W \<Longrightarrow> set (hash_order W xs) = set xs"
  "hash_ok W \<Longrightarrow> distinct xs \<Longrightarrow> distinct (hash_order W xs)"
  by (simp_all add: hash_ok_def)

definition present :: "HxVoiceModel \<Rightarrow> u16 set" where
  "present m = fst ` set (by_uid m)"

definition entry_ok :: "PresenceEntry \<Rightarrow> bool" where
  "entry_ok e \<longleftrightarrow> in_voice e \<and> last_indicator e = compute_indicator e"

definition video_ok :: "(u16 \<times> u32) list \<Rightarrow> bool" where
  "video_ok v \<longleftrightarrow> distinct (map fst v) \<and> (\<forall>(u, f) \<in> set v. f \<noteq> 0) \<and> length v \<le> MAX_PARTICIPANTS"

definition entries_ok :: "(u16 \<times> PresenceEntry) list \<Rightarrow> bool" where
  "entries_ok b \<longleftrightarrow> distinct (map fst b) \<and> (\<forall>(u, e) \<in> set b. entry_ok e)"

definition presence_ok :: "HxVoiceModel \<Rightarrow> bool" where
  "presence_ok m \<longleftrightarrow>
     entries_ok (by_uid m) \<and> length (by_uid m) \<le> MAX_PARTICIPANTS \<and> video_ok (video m) \<and>
     (seeded m \<or> by_uid m = [])"

lemma set_update_subset: "set (AList.update k v xs) \<subseteq> insert (k, v) (set xs)"
  by (induction xs) auto

lemma keys_update: "set (map fst (AList.update k v xs)) = insert k (set (map fst xs))"
  using update_keys [of k v xs] by (auto simp: AList.update_keys)

lemma length_update_mem: "map_of xs k = Some w \<Longrightarrow> length (AList.update k v xs) = length xs"
  by (induction xs) (auto split: if_splits)

lemma length_keys_le: "distinct (map fst xs) \<Longrightarrow> set (map fst xs) \<subseteq> set ys \<Longrightarrow> length xs \<le> length ys"
  by (metis card_length card_mono distinct_card finite_set length_map order_trans)

subsection \<open>Video flags\<close>

lemma note_participant_ok:
  "distinct (map fst out) \<Longrightarrow> (\<forall>(u, f) \<in> set out. f \<noteq> 0) \<Longrightarrow>
   distinct (map fst (note_participant out ps)) \<and>
   (\<forall>(u, f) \<in> set (note_participant out ps). f \<noteq> 0) \<and>
   set (map fst (note_participant out ps)) \<subseteq> set (map fst out) \<union> vp_user_id ` set ps"
proof (induction ps arbitrary: out)
  case (Cons p ps)
  define f where "f = wire_video (vp_flags p)"
  define o1 where "o1 = (if f \<noteq> 0 then AList.update (vp_user_id p) f out else out)"
  have o1: "distinct (map fst o1)" "\<forall>(u, f) \<in> set o1. f \<noteq> 0"
    using Cons.prems set_update_subset [of "vp_user_id p" f out] by (auto simp: o1_def distinct_update)
  have k: "set (map fst o1) \<subseteq> insert (vp_user_id p) (set (map fst out))"
    using keys_update [of "vp_user_id p" f out] by (auto simp: o1_def)
  have e: "note_participant out (p # ps) = note_participant o1 ps"
    by (simp add: o1_def f_def Let_def)
  have "set (map fst (note_participant o1 ps)) \<subseteq> set (map fst out) \<union> vp_user_id ` set (p # ps)"
    using Cons.IH [OF o1] k unfolding list.set image_insert by blast
  then show ?case unfolding e using Cons.IH [OF o1] by blast
qed simp

lemma or_nonzero: "(x :: u32) \<noteq> 0 \<Longrightarrow> x OR y \<noteq> 0"
  by (auto simp: bit_eq_iff bit_simps)

lemma kind_flags_nonzero: "x OR fst (kind_flags k) \<noteq> 0"
  using or_nonzero [of "fst (kind_flags k)" x] by (cases k) (auto simp: video_defs or.commute)

lemma note_publisher_ok:
  "distinct (map fst out) \<Longrightarrow> (\<forall>(u, f) \<in> set out. f \<noteq> 0) \<Longrightarrow>
   distinct (map fst (note_publisher out ps)) \<and>
   (\<forall>(u, f) \<in> set (note_publisher out ps). f \<noteq> 0) \<and>
   set (map fst (note_publisher out ps)) \<subseteq> set (map fst out) \<union> pub_user_id ` set ps"
proof (induction ps arbitrary: out)
  case (Cons p ps)
  define f where "f = (let (on, paused) = kind_flags (pub_kind p); f = flags_of out (pub_user_id p) OR on
                       in if pub_paused p then f OR paused else f)"
  let ?o = "AList.update (pub_user_id p) f out"
  have "f \<noteq> 0"
    using kind_flags_nonzero [of "flags_of out (pub_user_id p)" "pub_kind p"] or_nonzero
    by (auto simp: f_def Let_def case_prod_unfold)
  then have o: "distinct (map fst ?o)" "\<forall>(u, f) \<in> set ?o. f \<noteq> 0"
    using Cons.prems set_update_subset [of "pub_user_id p" f out] by (auto simp: distinct_update)
  have "note_publisher out (p # ps) = note_publisher ?o ps"
    by (simp add: f_def Let_def case_prod_unfold)
  with Cons.IH [OF o] show ?case using keys_update [of "pub_user_id p" f out] by auto
qed simp

lemma participant_video_ok: "video_ok (participant_video_flags W blob)"
proof -
  let ?ps = "take MAX_PARTICIPANTS (parse_voice_participants W blob)"
  have *: "distinct (map fst (note_participant [] ?ps))"
    "\<forall>(u, f) \<in> set (note_participant [] ?ps). f \<noteq> 0"
    "set (map fst (note_participant [] ?ps)) \<subseteq> set (map vp_user_id ?ps)"
    using note_participant_ok [of "[]" ?ps] by auto
  with length_keys_le [OF *(1,3)] show ?thesis
    by (auto simp: video_ok_def participant_video_flags_def)
qed

lemma video_flags_ok: "video_ok (video_flags W blob)"
proof -
  let ?ps = "take MAX_PARTICIPANTS (parse_video_publishers W blob)"
  have *: "distinct (map fst (note_publisher [] ?ps))"
    "\<forall>(u, f) \<in> set (note_publisher [] ?ps). f \<noteq> 0"
    "set (map fst (note_publisher [] ?ps)) \<subseteq> set (map pub_user_id ?ps)"
    using note_publisher_ok [of "[]" ?ps] by auto
  with length_keys_le [OF *(1,3)] show ?thesis
    by (auto simp: video_ok_def video_flags_def)
qed

subsection \<open>Entries\<close>

lemma entries_okD: "entries_ok b \<Longrightarrow> map_of b u = Some e \<Longrightarrow> entry_ok e"
  by (auto simp: entries_ok_def dest: map_of_SomeD)

text \<open>
  Setting an entry to \<open>e\<close> and recomputing leaves it with its computed indicator.
\<close>

lemma recompute_update:
  "recompute_and_maybe_emit (m\<lparr>by_uid := AList.update u e (by_uid m)\<rparr>) u =
     (m\<lparr>by_uid := AList.update u (e\<lparr>last_indicator := compute_indicator e\<rparr>) (by_uid m)\<rparr>,
      if compute_indicator e = last_indicator e then []
      else [IndicatorChanged (ucast u) (compute_indicator e)])"
  by (auto simp: recompute_and_maybe_emit_def update_conv' Let_def)

lemma compute_indicator_last [simp]:
  "compute_indicator (e\<lparr>last_indicator := i\<rparr>) = compute_indicator e"
  by (simp add: compute_indicator_def)

lemma compute_indicator_silence [simp]: "compute_indicator (silence e) = INDICATOR_NONE"
  by (simp add: compute_indicator_def silence_def)

lemma last_indicator_silence [simp]: "last_indicator (silence e) = last_indicator e"
  by (simp add: silence_def)

lemma entries_ok_update:
  "entries_ok b \<Longrightarrow> entry_ok e \<Longrightarrow> entries_ok (AList.update u e b)"
  using set_update_subset [of u e b] by (auto simp: entries_ok_def distinct_update)

text \<open>One participant of a list, and one that left, as updates of the table.\<close>

definition arrived :: "HxVoiceModel \<Rightarrow> VoiceParticipant \<Rightarrow> PresenceEntry" where
  "arrived m p = (entry_or_default m (vp_user_id p))\<lparr>in_voice := True, muted := vp_muted p\<rparr>"

lemma ingest_present_eq:
  "ingest_present m p =
     (let u = vp_user_id p; e = arrived m p
      in (m\<lparr>by_uid := AList.update u (e\<lparr>last_indicator := compute_indicator e\<rparr>) (by_uid m)\<rparr>,
          (if compute_indicator e = last_indicator e then []
           else [IndicatorChanged (ucast u) (compute_indicator e)]) @
          (if seeded m \<and> \<not> in_voice (entry_or_default m u) \<and> u \<noteq> self_uid m
           then [PresenceChime (ucast u) True] else [])))"
  using recompute_update [where m = m and u = "vp_user_id p" and e = "arrived m p"]
  by (auto simp: ingest_present_def arrived_def Let_def case_prod_unfold prod_eq_iff)

lemma delete_update [simp]: "AList.delete k (AList.update k v xs) = AList.delete k xs"
  by (induction xs) (auto simp: AList.delete_eq)

lemma ingest_left_eq:
  "ingest_left m u =
     (case map_of (by_uid m) u of
        None \<Rightarrow> (m, [])
      | Some e \<Rightarrow>
          (m\<lparr>by_uid := AList.delete u (by_uid m)\<rparr>,
           (if last_indicator e = INDICATOR_NONE then [] else [IndicatorChanged (ucast u) INDICATOR_NONE]) @
           (if seeded m \<and> u \<noteq> self_uid m then [PresenceChime (ucast u) False] else [])))"
proof (cases "map_of (by_uid m) u")
  case (Some e)
  then show ?thesis
    using recompute_update [where m = m and u = u and e = "silence e"]
    by (auto simp: ingest_left_def Let_def case_prod_unfold)
qed (simp add: ingest_left_def)

section \<open>What a view shows\<close>

text \<open>
  A view of the user list: it starts blank and changes a cell only on a signal.  \<open>wasted\<close> counts
  the signals that said what the view showed already.
\<close>

record PresenceView =
  shown :: "u32 \<Rightarrow> u32"
  shown_video :: "u32 \<Rightarrow> u32"
  wasted :: nat

definition blank_view :: PresenceView where
  "blank_view = \<lparr>shown = (\<lambda>_. INDICATOR_NONE), shown_video = (\<lambda>_. 0), wasted = 0\<rparr>"

fun view_signal :: "PresenceView \<Rightarrow> Signal \<Rightarrow> PresenceView" where
  "view_signal v (IndicatorChanged u i) =
     v\<lparr>shown := (shown v)(u := i), wasted := (if shown v u = i then Suc (wasted v) else wasted v)\<rparr>"
| "view_signal v (VideoChanged u f) =
     v\<lparr>shown_video := (shown_video v)(u := f),
       wasted := (if shown_video v u = f then Suc (wasted v) else wasted v)\<rparr>"
| "view_signal v _ = v"

definition view_event :: "PresenceView \<Rightarrow> PresenceEvent \<Rightarrow> Signal list \<Rightarrow> PresenceView" where
  "view_event v e out = foldl view_signal v out"

definition displays :: "HxVoiceModel \<Rightarrow> PresenceView \<Rightarrow> bool" where
  "displays m v \<longleftrightarrow>
     (\<forall>u. shown v (ucast u) = get_indicator m u) \<and>
     (\<forall>u. shown_video v (ucast u) = get_video m u) \<and> wasted v = 0"

lemma ucast_back: "(ucast (ucast (u :: u16) :: u32) :: u16) = u"
  by (rule bit_word_eqI) (auto simp: bit_simps)

lemma ucast_inject [simp]: "(ucast (u :: u16) :: u32) = ucast w \<longleftrightarrow> u = w"
  using ucast_back [of u] ucast_back [of w] by metis

lemma get_indicator_update:
  "get_indicator (m\<lparr>by_uid := AList.update u e (by_uid m)\<rparr>) w =
     (if w = u then last_indicator e else get_indicator m w)"
  by (auto simp: get_indicator_def update_conv')

lemma get_indicator_delete:
  "get_indicator (m\<lparr>by_uid := AList.delete u (by_uid m)\<rparr>) w =
     (if w = u then INDICATOR_NONE else get_indicator m w)"
  by (auto simp: get_indicator_def delete_conv')

lemma get_video_other [simp]:
  "get_video (m\<lparr>by_uid := b\<rparr>) u = get_video m u"
  "get_video (m\<lparr>seeded := c\<rparr>) u = get_video m u"
  "get_video (m\<lparr>self_uid := d\<rparr>) u = get_video m u"
  "get_video (m\<lparr>video_seeded := c\<rparr>) u = get_video m u"
  by (simp_all add: get_video_def)

lemma get_indicator_other [simp]:
  "get_indicator (m\<lparr>seeded := c\<rparr>) u = get_indicator m u"
  "get_indicator (m\<lparr>self_uid := d\<rparr>) u = get_indicator m u"
  "get_indicator (m\<lparr>video := g\<rparr>) u = get_indicator m u"
  "get_indicator (m\<lparr>video_seeded := c\<rparr>) u = get_indicator m u"
  by (simp_all add: get_indicator_def)

text \<open>A state change with the signals that tell of it.\<close>

definition told :: "HxVoiceModel \<Rightarrow> HxVoiceModel \<times> Signal list \<Rightarrow> bool" where
  "told m r \<longleftrightarrow> (\<forall>v. displays m v \<longrightarrow> displays (fst r) (foldl view_signal v (snd r)))"

lemma told_trans: "told m r \<Longrightarrow> told (fst r) r' \<Longrightarrow> told m (fst r', snd r @ snd r')"
  by (simp add: told_def)

lemma told_run: "(\<And>m e. told m (f m e)) \<Longrightarrow> told m (run_machine f m es)"
proof (induction es arbitrary: m)
  case (Cons e es)
  show ?case
    using told_trans [OF Cons.prems Cons.IH [OF Cons.prems]] by (simp add: Let_def case_prod_unfold)
qed (simp add: told_def)

lemma told_silent: "(\<And>u. get_indicator m' u = get_indicator m u) \<Longrightarrow>
    (\<And>u. get_video m' u = get_video m u) \<Longrightarrow> told m (m', [])"
  by (simp add: told_def displays_def)

lemma told_chime: "told m r \<Longrightarrow> told m (fst r, snd r @ (if b then [PresenceChime u j] else []))"
  by (simp add: told_def)

lemma told_indicator:
  assumes "\<And>w. get_indicator m' w = (if w = u then i else get_indicator m w)"
    and "\<And>w. get_video m' w = get_video m w"
  shows "told m (m', if i = get_indicator m u then [] else [IndicatorChanged (ucast u) i])"
  using assms by (auto simp: told_def displays_def)

lemma told_recompute: 
  assumes "last_indicator e = get_indicator m u"
  shows "told m (recompute_and_maybe_emit (m\<lparr>by_uid := AList.update u e (by_uid m)\<rparr>) u)"
proof -
  have "told m (m\<lparr>by_uid := AList.update u (e\<lparr>last_indicator := compute_indicator e\<rparr>) (by_uid m)\<rparr>,
      if compute_indicator e = get_indicator m u then []
      else [IndicatorChanged (ucast u) (compute_indicator e)])"
    by (rule told_indicator) (simp_all add: get_indicator_update)
  then show ?thesis
    unfolding recompute_update assms .
qed

lemma last_indicator_or_default: "last_indicator (entry_or_default m u) = get_indicator m u"
  by (simp add: entry_or_default_def get_indicator_def default_entry_def INDICATOR_NONE_def
      split: option.split)

lemma told_present: "told m (ingest_present m p)"
proof -
  have "told m (recompute_and_maybe_emit
      (m\<lparr>by_uid := AList.update (vp_user_id p) (arrived m p) (by_uid m)\<rparr>) (vp_user_id p))"
    by (rule told_recompute) (simp add: arrived_def last_indicator_or_default)
  from told_chime [OF this] show ?thesis
    by (simp add: ingest_present_def Let_def case_prod_unfold arrived_def)
qed

lemma told_left: "told m (ingest_left m u)"
proof (cases "map_of (by_uid m) u")
  case None
  then show ?thesis by (simp add: ingest_left_eq told_silent)
next
  case (Some e)
  then have i: "last_indicator e = get_indicator m u" by (simp add: get_indicator_def)
  have "told m (m\<lparr>by_uid := AList.delete u (by_uid m)\<rparr>,
      if INDICATOR_NONE = get_indicator m u then [] else [IndicatorChanged (ucast u) INDICATOR_NONE])"
    by (rule told_indicator) (simp_all add: get_indicator_delete)
  from told_chime [OF this] show ?thesis
    by (simp add: ingest_left_eq Some i eq_commute [of INDICATOR_NONE])
qed

lemma told_clear_uid: "told m (clear_uid m u)"
proof (cases "map_of (by_uid m) u")
  case (Some e)
  then show ?thesis
    using told_recompute [of "silence e" m u] by (simp add: clear_uid_def get_indicator_def)
qed (simp add: clear_uid_def told_silent)

lemma told_speaking: "told m (set_speaking m u b)"
proof (cases "map_of (by_uid m) u")
  case (Some e)
  then show ?thesis
    using told_recompute [of "e\<lparr>speaking := b\<rparr>" m u]
    by (simp add: set_speaking_def get_indicator_def told_silent)
qed (simp add: set_speaking_def told_silent)

subsection \<open>Video\<close>

lemma view_started [simp]: "foldl view_signal v (map (VideoStarted u) ks) = v"
  by (induction ks) simp_all

lemma view_video_signals:
  "foldl view_signal v (video_signals n self old (u, f)) = view_signal v (VideoChanged (ucast u) f)"
  by (simp add: video_signals_def)

lemma view_video_changes:
  assumes "distinct (map fst ch)" and "\<forall>(u, f) \<in> set ch. shown_video v (ucast u) \<noteq> f"
  shows "foldl view_signal v (concat (map (video_signals n self old) ch)) =
    v\<lparr>shown_video := foldl (\<lambda>s (u, f). s(ucast u := f)) (shown_video v) ch\<rparr>"
  using assms
proof (induction ch arbitrary: v)
  case (Cons c ch)
  obtain u f where c: "c = (u, f)" by (cases c)
  have "\<forall>(w, g) \<in> set ch. shown_video (view_signal v (VideoChanged (ucast u) f)) (ucast w) \<noteq> g"
    using Cons.prems c by (force simp: image_iff)
  from Cons.IH [OF _ this] Cons.prems c show ?case
    by (simp add: view_video_signals)
qed simp

lemma foldl_cells:
  "distinct (map fst ch) \<Longrightarrow> foldl (\<lambda>s (u :: u16, f). s(ucast u :: u32 := f)) s ch (ucast w) =
    (case map_of ch w of None \<Rightarrow> s (ucast w) | Some f \<Rightarrow> f)"
  by (induction ch arbitrary: s) (auto split: option.split dest: map_of_SomeD intro: rev_image_eqI)

lemma flags_of_zero: "video_ok m \<Longrightarrow> flags_of m u = 0 \<longleftrightarrow> u \<notin> set (map fst m)"
proof (cases "map_of m u")
  case None
  then show ?thesis by (simp add: flags_of_def) (metis map_of_eq_None_iff)
next
  case (Some f)
  then have "(u, f) \<in> set m" by (rule map_of_SomeD)
  moreover assume "video_ok m"
  ultimately show ?thesis using Some by (force simp: flags_of_def video_ok_def)
qed

lemma changes_distinct:
  assumes "hash_ok W" "video_ok old" "video_ok fresh"
  shows "distinct (map fst (video_changes W old fresh))"
  using assms by (auto simp: video_changes_def video_ok_def comp_def)

lemma changes_iff:
  assumes "hash_ok W" "video_ok old" "video_ok fresh"
  shows "(u, f) \<in> set (video_changes W old fresh) \<longleftrightarrow> flags_of old u \<noteq> flags_of fresh u \<and> f = flags_of fresh u"
proof -
  have "u \<in> set (map fst fresh) \<longleftrightarrow> flags_of fresh u \<noteq> 0" "u \<in> set (map fst old) \<longleftrightarrow> flags_of old u \<noteq> 0"
    using assms flags_of_zero by blast+
  then show ?thesis using assms(1) by (auto simp: video_changes_def)
qed

lemma told_replace:
  assumes "hash_ok W" "video_ok (video m)" "video_ok fresh"
  shows "told m (replace_video W m fresh)"
proof -
  let ?ch = "video_changes W (video m) fresh"
  have d: "distinct (map fst ?ch)" by (rule changes_distinct [OF assms])
  have i: "\<And>u f. (u, f) \<in> set ?ch \<longleftrightarrow> flags_of (video m) u \<noteq> flags_of fresh u \<and> f = flags_of fresh u"
    by (rule changes_iff [OF assms])
  have cell: "(case map_of ?ch w of None \<Rightarrow> flags_of (video m) w | Some f \<Rightarrow> f) = flags_of fresh w" for w
  proof (cases "map_of ?ch w")
    case None
    then have "(w, flags_of fresh w) \<notin> set ?ch" by (auto simp: map_of_eq_None_iff intro: rev_image_eqI)
    with None i show ?thesis by auto
  qed (use i in \<open>auto dest: map_of_SomeD\<close>)
  have "displays (fst (replace_video W m fresh)) (foldl view_signal v (snd (replace_video W m fresh)))"
    if v: "displays m v" for v
  proof -
    have s: "shown_video v (ucast u) = flags_of (video m) u" for u
      using v by (simp add: displays_def get_video_def)
    have "\<forall>(u, f) \<in> set ?ch. shown_video v (ucast u) \<noteq> f" using i s by auto
    moreover have "(case map_of ?ch w of None \<Rightarrow> shown_video v (ucast w) | Some f \<Rightarrow> f) = flags_of fresh w" for w
      unfolding s by (rule cell)
    ultimately show ?thesis
      using v view_video_changes [OF d]
      by (simp add: replace_video_def displays_def foldl_cells [OF d] get_video_def get_indicator_def)
  qed
  then show ?thesis by (simp add: told_def)
qed

subsection \<open>The invariant is kept\<close>

lemma keys_update_image: "fst ` set (AList.update k v xs) = insert k (fst ` set xs)"
  using keys_update [of k v xs] by simp

lemma keys_delete_image: "fst ` set (AList.delete k xs) = fst ` set xs - {k}"
  using delete_keys [of k xs] by (auto simp: AList.delete_eq)

lemma entries_ok_delete: "entries_ok b \<Longrightarrow> entries_ok (AList.delete u b)"
  using distinct_delete [of b u] by (auto simp: entries_ok_def AList.delete_eq)

lemma arrived_ok: "entry_ok ((arrived m p)\<lparr>last_indicator := compute_indicator (arrived m p)\<rparr>)"
  by (simp add: entry_ok_def arrived_def)

lemma ingest_present_fields:
  "entries_ok (by_uid m) \<Longrightarrow> entries_ok (by_uid (fst (ingest_present m p)))"
  "present (fst (ingest_present m p)) = insert (vp_user_id p) (present m)"
  "seeded (fst (ingest_present m p)) = seeded m"
  "self_uid (fst (ingest_present m p)) = self_uid m"
  "video (fst (ingest_present m p)) = video m"
  "video_seeded (fst (ingest_present m p)) = video_seeded m"
  by (simp_all add: ingest_present_eq Let_def entries_ok_update arrived_ok present_def keys_update_image)

lemma ingest_left_fields:
  "entries_ok (by_uid m) \<Longrightarrow> entries_ok (by_uid (fst (ingest_left m u)))"
  "present (fst (ingest_left m u)) = present m - {u}"
  "seeded (fst (ingest_left m u)) = seeded m"
  "self_uid (fst (ingest_left m u)) = self_uid m"
  "video (fst (ingest_left m u)) = video m"
  "video_seeded (fst (ingest_left m u)) = video_seeded m"
  by (auto simp: ingest_left_eq entries_ok_delete present_def keys_delete_image map_of_eq_None_iff
      split: option.split)

lemma run_present_fields:
  "entries_ok (by_uid m) \<Longrightarrow> entries_ok (by_uid (fst (run_machine ingest_present m ps)))"
  "present (fst (run_machine ingest_present m ps)) = vp_user_id ` set ps \<union> present m"
  "seeded (fst (run_machine ingest_present m ps)) = seeded m"
  "self_uid (fst (run_machine ingest_present m ps)) = self_uid m"
  "video (fst (run_machine ingest_present m ps)) = video m"
  "video_seeded (fst (run_machine ingest_present m ps)) = video_seeded m"
  by (induction ps arbitrary: m) (simp_all add: Let_def case_prod_unfold ingest_present_fields)

lemma run_left_fields:
  "entries_ok (by_uid m) \<Longrightarrow> entries_ok (by_uid (fst (run_machine ingest_left m us)))"
  "present (fst (run_machine ingest_left m us)) = present m - set us"
  "seeded (fst (run_machine ingest_left m us)) = seeded m"
  "self_uid (fst (run_machine ingest_left m us)) = self_uid m"
  "video (fst (run_machine ingest_left m us)) = video m"
  "video_seeded (fst (run_machine ingest_left m us)) = video_seeded m"
  by (induction us arbitrary: m) (auto simp: Let_def case_prod_unfold ingest_left_fields)

lemma length_present: "entries_ok (by_uid m) \<Longrightarrow> length (by_uid m) = card (present m)"
  unfolding present_def entries_ok_def by (metis distinct_card length_map list.set_map)

abbreviation named :: "PresenceEnv \<Rightarrow> bytes \<Rightarrow> u16 set" where
  "named W blob \<equiv> vp_user_id ` set (take MAX_PARTICIPANTS (parse_voice_participants W blob))"

lemma ingest_participants_fields:
  assumes "hash_ok W"
  shows "entries_ok (by_uid m) \<Longrightarrow> entries_ok (by_uid (fst (ingest_participants W m blob)))"
    and "present (fst (ingest_participants W m blob)) = named W blob"
    and "seeded (fst (ingest_participants W m blob))"
    and "self_uid (fst (ingest_participants W m blob)) = self_uid m"
    and "video (fst (ingest_participants W m blob)) = video m"
    and "video_seeded (fst (ingest_participants W m blob)) = video_seeded m"
proof -
  let ?ps = "take MAX_PARTICIPANTS (parse_voice_participants W blob)"
  let ?m1 = "fst (run_machine ingest_present m ?ps)"
  have "present ?m1 = named W blob \<union> present m" by (rule run_present_fields)
  moreover have "fst ` set (by_uid ?m1) = present ?m1" by (simp add: present_def)
  moreover have "present (m\<lparr>seeded := b\<rparr>) = present m" for m b by (simp add: present_def)
  ultimately show "present (fst (ingest_participants W m blob)) = named W blob"
    using assms by (auto simp: ingest_participants_def Let_def case_prod_unfold run_left_fields)
qed (simp_all add: ingest_participants_def Let_def case_prod_unfold run_left_fields run_present_fields)

lemma ingest_participants_ok:
  assumes "hash_ok W" "presence_ok m"
  shows "presence_ok (fst (ingest_participants W m blob))"
proof -
  let ?m = "fst (ingest_participants W m blob)"
  have "entries_ok (by_uid ?m)"
    using assms by (simp add: ingest_participants_fields presence_ok_def)
  moreover from this have "length (by_uid ?m) \<le> MAX_PARTICIPANTS"
    using card_image_le [of "set (take MAX_PARTICIPANTS (parse_voice_participants W blob))" vp_user_id]
      card_length [of "take MAX_PARTICIPANTS (parse_voice_participants W blob)"]
    by (simp add: length_present ingest_participants_fields [OF assms(1)])
  ultimately show ?thesis
    using assms by (simp add: presence_ok_def ingest_participants_fields)
qed

lemma replace_video_ok: "presence_ok m \<Longrightarrow> video_ok fresh \<Longrightarrow> presence_ok (fst (replace_video W m fresh))"
  by (simp add: replace_video_def presence_ok_def)

lemma set_speaking_ok:
  assumes "presence_ok m"
  shows "presence_ok (fst (set_speaking m u b))"
proof (cases "map_of (by_uid m) u")
  case (Some e)
  let ?e = "e\<lparr>speaking := b\<rparr>"
  let ?e' = "?e\<lparr>last_indicator := compute_indicator ?e\<rparr>"
  have "in_voice e" using assms Some by (auto simp: presence_ok_def entry_ok_def dest: entries_okD)
  then have "entries_ok (AList.update u ?e' (by_uid m))"
    using assms by (auto intro!: entries_ok_update simp: presence_ok_def entry_ok_def)
  moreover have "length (AList.update u ?e' (by_uid m)) = length (by_uid m)"
    using Some by (rule length_update_mem)
  ultimately show ?thesis
    using assms Some recompute_update [where m = m and u = u and e = ?e] by (simp add: set_speaking_def presence_ok_def) auto
qed (use assms in \<open>simp add: set_speaking_def\<close>)

lemma clear_model_ok: "presence_ok (fst (clear_model W m))"
proof -
  have "video (fst (run_machine clear_uid m us)) = video m" for us and m :: HxVoiceModel
    by (induction us arbitrary: m)
      (auto simp: Let_def case_prod_unfold clear_uid_def recompute_update split: option.split)
  then show ?thesis
    using video_flags_ok [of W "[]"]
    by (simp add: clear_model_def Let_def case_prod_unfold presence_ok_def entries_ok_def
        ingest_video_publishers_def replace_video_def)
qed

lemma presence_step_ok:
  assumes "hash_ok W" "presence_ok m"
  shows "presence_ok (fst (presence_step W m e))"
proof (cases e)
  case (RoomStatus blob cap)
  then show ?thesis
    using assms by (simp add: hx_voice_model_ingest_participants_def Let_def case_prod_unfold
        ingest_participant_video_def ingest_participants_ok replace_video_ok participant_video_ok)
next
  case (SelfUid u)
  then show ?thesis using assms by (simp add: set_self_uid_def presence_ok_def)
qed (use assms in \<open>simp_all add: set_speaking_ok clear_model_ok ingest_video_publishers_def
    replace_video_ok video_flags_ok\<close>)

subsection \<open>Every step is told\<close>

lemma clear_uid_indicator:
  "get_indicator (fst (clear_uid m u)) w = (if w = u then INDICATOR_NONE else get_indicator m w)"
  by (auto simp: clear_uid_def recompute_update get_indicator_update split: option.split)
    (simp add: get_indicator_def)

lemma run_clear_indicator:
  "get_indicator (fst (run_machine clear_uid m us)) w = (if w \<in> set us then INDICATOR_NONE else get_indicator m w)"
  by (induction us arbitrary: m) (auto simp: Let_def case_prod_unfold clear_uid_indicator)

lemma told_same:
  "told m r \<Longrightarrow> (\<And>u. get_indicator m' u = get_indicator (fst r) u) \<Longrightarrow>
   (\<And>u. get_video m' u = get_video (fst r) u) \<Longrightarrow> told m (m', snd r)"
  by (simp add: told_def displays_def)

lemma told_participants: "told m (ingest_participants W m blob)"
proof -
  let ?r = "run_machine ingest_present m (take MAX_PARTICIPANTS (parse_voice_participants W blob))"
  have "told m (fst r', snd ?r @ snd r')" if "r' = run_machine ingest_left (fst ?r) us" for r' us
    using told_trans [OF told_run told_run] told_present told_left that by blast
  from told_same [OF this [OF refl]] show ?thesis
    by (simp add: ingest_participants_def Let_def case_prod_unfold)
qed

lemma told_room_status:
  assumes "hash_ok W" "presence_ok m"
  shows "told m (hx_voice_model_ingest_participants W m blob cap)"
proof -
  let ?r = "ingest_participants W m blob"
  have "told (fst ?r) (ingest_participant_video W (fst ?r) blob)"
    unfolding ingest_participant_video_def
    by (rule told_replace [OF assms(1) _ participant_video_ok])
      (use ingest_participants_ok [OF assms] in \<open>simp add: presence_ok_def\<close>)
  from told_trans [OF told_participants this] show ?thesis
    using told_participants [of m W blob]
    by (simp add: hx_voice_model_ingest_participants_def Let_def case_prod_unfold)
qed

lemma told_clear:
  assumes "hash_ok W" "presence_ok m"
  shows "told m (clear_model W m)"
proof -
  let ?r = "ingest_video_publishers W m []"
  let ?us = "hash_order W (map fst (by_uid (fst ?r)))"
  let ?r' = "run_machine clear_uid (fst ?r) ?us"
  have "told m ?r"
    unfolding ingest_video_publishers_def
    by (rule told_replace [OF assms(1) _ video_flags_ok]) (use assms(2) in \<open>simp add: presence_ok_def\<close>)
  from told_trans [OF this told_run] have t: "told m (fst ?r', snd ?r @ snd ?r')"
    using told_clear_uid by blast
  have "get_indicator (fst ?r') u = INDICATOR_NONE" for u
    using assms(1) unfolding run_clear_indicator
    by (auto simp: get_indicator_def map_of_eq_None_iff split: option.split)
      (metis fst_conv image_eqI map_of_SomeD)
  with told_same [OF t, of "(fst ?r')\<lparr>by_uid := [], seeded := False, video_seeded := False\<rparr>"]
  show ?thesis
    by (simp add: clear_model_def Let_def case_prod_unfold) (simp add: get_indicator_def)
qed

lemma told_step:
  assumes "hash_ok W" "presence_ok m"
  shows "told m (presence_step W m e)"
proof (cases e)
  case (VideoStatus blob)
  then show ?thesis
    using told_replace [OF assms(1) _ video_flags_ok, of m W blob] assms(2)
    by (simp add: ingest_video_publishers_def presence_ok_def)
qed (use assms in \<open>simp_all add: told_room_status told_clear told_speaking told_silent set_self_uid_def\<close>)

section \<open>Announcements\<close>

definition chimes :: "Signal list \<Rightarrow> (u32 \<times> bool) list" where
  "chimes out = concat (map (\<lambda>s. case s of PresenceChime u j \<Rightarrow> [(u, j)] | _ \<Rightarrow> []) out)"

definition started :: "Signal list \<Rightarrow> (u32 \<times> u32) list" where
  "started out = concat (map (\<lambda>s. case s of VideoStarted u k \<Rightarrow> [(u, k)] | _ \<Rightarrow> []) out)"

lemma announce_simps [simp]:
  "chimes [] = []" "started [] = []"
  "chimes (a @ b) = chimes a @ chimes b" "started (a @ b) = started a @ started b"
  "chimes (IndicatorChanged u i # r) = chimes r" "started (IndicatorChanged u i # r) = started r"
  "chimes (PresenceChime u j # r) = (u, j) # chimes r" "started (PresenceChime u j # r) = started r"
  "chimes (VideoChanged u f # r) = chimes r" "started (VideoChanged u f # r) = started r"
  "chimes (map (VideoStarted u) ks) = []" "started (map (VideoStarted u) ks) = map (Pair u) ks"
  by (simp_all add: chimes_def started_def comp_def)

lemma present_iff: "u \<in> present m \<longleftrightarrow> map_of (by_uid m) u \<noteq> None"
  by (simp add: present_def map_of_eq_None_iff)

lemma in_voice_present:
  "entries_ok (by_uid m) \<Longrightarrow> in_voice (entry_or_default m u) \<longleftrightarrow> u \<in> present m"
  by (cases "map_of (by_uid m) u")
    (auto simp: entry_or_default_def default_entry_def present_iff entry_ok_def dest: entries_okD)

lemma ingest_present_chimes:
  "entries_ok (by_uid m) \<Longrightarrow> chimes (snd (ingest_present m p)) =
     (if seeded m \<and> vp_user_id p \<notin> present m \<and> vp_user_id p \<noteq> self_uid m
      then [(ucast (vp_user_id p), True)] else [])"
  by (simp add: ingest_present_eq Let_def in_voice_present)

lemma run_present_chimes:
  "entries_ok (by_uid m) \<Longrightarrow>
   set (chimes (snd (run_machine ingest_present m ps))) =
     {(ucast u, True) |u. seeded m \<and> u \<in> vp_user_id ` set ps \<and> u \<notin> present m \<and> u \<noteq> self_uid m} \<and>
   distinct (chimes (snd (run_machine ingest_present m ps)))"
proof (induction ps arbitrary: m)
  case (Cons p ps)
  let ?m = "fst (ingest_present m p)"
  from Cons.IH [OF ingest_present_fields(1) [OF Cons.prems, of p]]
  show ?case
    by (auto simp: Let_def case_prod_unfold ingest_present_chimes [OF Cons.prems] ingest_present_fields)
qed simp

lemma ingest_left_chimes:
  "chimes (snd (ingest_left m u)) =
     (if seeded m \<and> u \<in> present m \<and> u \<noteq> self_uid m then [(ucast u, False)] else [])"
  by (cases "map_of (by_uid m) u")
    (auto simp: ingest_left_eq present_iff)

lemma run_left_chimes:
  "distinct us \<Longrightarrow>
   set (chimes (snd (run_machine ingest_left m us))) =
     {(ucast u, False) |u. seeded m \<and> u \<in> set us \<and> u \<in> present m \<and> u \<noteq> self_uid m} \<and>
   distinct (chimes (snd (run_machine ingest_left m us)))"
proof (induction us arbitrary: m)
  case (Cons w us)
  then show ?case
    by (auto simp: Let_def case_prod_unfold ingest_left_chimes ingest_left_fields)
qed simp

lemma participants_chimes:
  assumes "hash_ok W" "entries_ok (by_uid m)"
  shows "set (chimes (snd (ingest_participants W m blob))) =
      {(ucast u, u \<in> named W blob) |u.
         seeded m \<and> (u \<in> present m) \<noteq> (u \<in> named W blob) \<and> u \<noteq> self_uid m}" (is ?A)
    and "distinct (chimes (snd (ingest_participants W m blob)))" (is ?B)
proof -
  let ?ps = "take MAX_PARTICIPANTS (parse_voice_participants W blob)"
  let ?r = "run_machine ingest_present m ?ps"
  let ?us = "filter (\<lambda>u. u \<notin> set (map vp_user_id ?ps)) (hash_order W (map fst (by_uid (fst ?r))))"
  have "entries_ok (by_uid (fst ?r))" by (rule run_present_fields(1) [OF assms(2)])
  then have d: "distinct ?us" using assms(1) by (simp add: entries_ok_def)
  have us: "set ?us = present m - named W blob"
    using assms(1) run_present_fields(2) [of m ?ps] by (auto simp: present_def)
  note p = run_present_chimes [OF assms(2), of ?ps] and l = run_left_chimes [OF d, of "fst ?r"]
  have out: "chimes (snd (ingest_participants W m blob)) =
      chimes (snd ?r) @ chimes (snd (run_machine ingest_left (fst ?r) ?us))"
    by (simp add: ingest_participants_def Let_def case_prod_unfold)
  show ?A unfolding out using p l us by (auto simp: run_present_fields)
  show ?B unfolding out using p l us by (auto simp: run_present_fields)
qed

lemma video_signals_announced:
  "chimes (video_signals n self old c) = []"
  "started (video_signals n self old (u, f)) =
     (if n \<and> u \<noteq> self then map (Pair (ucast u))
        (filter (\<lambda>k. f AND k \<noteq> 0 \<and> flags_of old u AND k = 0) [VIDEO_CAMERA, VIDEO_SCREEN]) else [])"
  by (cases c) (simp_all add: video_signals_def)

lemma replace_chimes: "chimes (snd (replace_video W m fresh)) = []"
proof -
  have "chimes (concat (map (video_signals n self old) ch)) = []" for n self old ch
    by (induction ch) (simp_all add: video_signals_announced)
  then show ?thesis by (simp add: replace_video_def)
qed

lemma distinct_keys_append:
  "distinct a \<Longrightarrow> fst ` set a \<subseteq> {x} \<Longrightarrow> x \<notin> fst ` set b \<Longrightarrow> distinct b \<Longrightarrow> distinct (a @ b)"
  by (auto simp: image_subset_iff)

lemma started_changes:
  assumes "distinct (map fst ch)"
  shows "set (started (concat (map (video_signals n self old) ch))) =
      {(ucast u, k) |u k f. (u, f) \<in> set ch \<and> n \<and> u \<noteq> self \<and> k \<in> {VIDEO_CAMERA, VIDEO_SCREEN} \<and>
         f AND k \<noteq> 0 \<and> flags_of old u AND k = 0} \<and>
    distinct (started (concat (map (video_signals n self old) ch)))"
  using assms
proof (induction ch)
  case (Cons c ch)
  obtain u f where c: "c = (u, f)" by (cases c)
  let ?new = "started (video_signals n self old (u, f))"
  have k: "VIDEO_CAMERA \<noteq> VIDEO_SCREEN" by (simp add: video_defs)
  have "distinct ?new" using k by (auto simp: video_signals_announced)
  moreover have "fst ` set ?new \<subseteq> {ucast u}" by (auto simp: video_signals_announced)
  moreover have "ucast u \<notin> fst ` set (started (concat (map (video_signals n self old) ch)))"
    using Cons c by force
  moreover have "distinct (started (concat (map (video_signals n self old) ch)))"
    using Cons by simp
  ultimately have "distinct (?new @ started (concat (map (video_signals n self old) ch)))"
    by (rule distinct_keys_append)
  moreover have "set ?new = {(ucast u, k) |k. n \<and> u \<noteq> self \<and> k \<in> {VIDEO_CAMERA, VIDEO_SCREEN} \<and>
         f AND k \<noteq> 0 \<and> flags_of old u AND k = 0}"
    by (auto simp: video_signals_announced)
  ultimately show ?case using Cons c by auto
qed simp

definition starts :: "HxVoiceModel \<Rightarrow> HxVoiceModel \<Rightarrow> (u32 \<times> u32) set" where
  "starts m m' = {(ucast u, k) |u k. video_seeded m \<and> u \<noteq> self_uid m \<and>
     k \<in> {VIDEO_CAMERA, VIDEO_SCREEN} \<and> get_video m u AND k = 0 \<and> get_video m' u AND k \<noteq> 0}"

lemma replace_started:
  assumes "hash_ok W" "video_ok (video m)" "video_ok fresh"
  shows "set (started (snd (replace_video W m fresh))) = starts m (fst (replace_video W m fresh)) \<and>
    distinct (started (snd (replace_video W m fresh)))"
  using started_changes [OF changes_distinct [OF assms], of "video_seeded m" "self_uid m" "video m"]
  by (auto simp: replace_video_def starts_def get_video_def changes_iff [OF assms])

lemma started_run:
  "(\<And>m e. started (snd (f m e)) = []) \<Longrightarrow> started (snd (run_machine f m es)) = []"
  by (induction es arbitrary: m) (simp_all add: Let_def case_prod_unfold)

lemma chimes_run:
  "(\<And>m e. chimes (snd (f m e)) = []) \<Longrightarrow> chimes (snd (run_machine f m es)) = []"
  by (induction es arbitrary: m) (simp_all add: Let_def case_prod_unfold)

lemma recompute_quiet [simp]:
  "started (snd (recompute_and_maybe_emit m u)) = []" "chimes (snd (recompute_and_maybe_emit m u)) = []"
  by (simp_all add: recompute_and_maybe_emit_def Let_def split: option.split)

lemma clear_uid_quiet:
  "started (snd (clear_uid m u)) = []" "chimes (snd (clear_uid m u)) = []"
  "video (fst (clear_uid m u)) = video m"
  by (simp_all add: clear_uid_def recompute_update split: option.split)

lemma set_speaking_quiet:
  "started (snd (set_speaking m u b)) = []" "chimes (snd (set_speaking m u b)) = []"
  "video (fst (set_speaking m u b)) = video m"
  by (simp_all add: set_speaking_def recompute_update split: option.split)

lemma participants_started: "started (snd (ingest_participants W m blob)) = []"
proof -
  have "started (snd (ingest_present m p)) = []" "started (snd (ingest_left m u)) = []" for m p u
    by (simp_all add: ingest_present_eq ingest_left_eq Let_def split: option.split)
  then show ?thesis
    by (simp add: ingest_participants_def Let_def case_prod_unfold started_run)
qed

lemma starts_same: "video m' = video m \<Longrightarrow> starts m m' = {}"
  by (auto simp: starts_def get_video_def)

lemma step_started:
  assumes "hash_ok W" "presence_ok m"
  shows "set (started (snd (presence_step W m e))) = starts m (fst (presence_step W m e)) \<and>
    distinct (started (snd (presence_step W m e)))"
proof (cases e)
  case (RoomStatus blob cap)
  let ?m = "fst (ingest_participants W m blob)"
  have v: "video ?m = video m" "video_seeded ?m = video_seeded m" "self_uid ?m = self_uid m"
    using assms(1) by (simp_all add: ingest_participants_fields)
  then have "starts ?m = starts m" by (simp add: starts_def get_video_def fun_eq_iff)
  moreover have "video_ok (video ?m)" using v assms(2) by (simp add: presence_ok_def)
  ultimately show ?thesis
    using RoomStatus replace_started [OF assms(1) _ participant_video_ok, of ?m W blob]
    by (simp add: hx_voice_model_ingest_participants_def Let_def case_prod_unfold participants_started
        ingest_participant_video_def starts_same v)
next
  case (VideoStatus blob)
  then show ?thesis
    using replace_started [OF assms(1) _ video_flags_ok, of m W blob] assms(2)
    by (simp add: ingest_video_publishers_def presence_ok_def)
next
  case ClearModel
  let ?r = "ingest_video_publishers W m []"
  have v: "video (fst (run_machine clear_uid m us)) = video m" for us and m :: HxVoiceModel
    by (induction us arbitrary: m) (simp_all add: Let_def case_prod_unfold clear_uid_quiet)
  have "starts m (fst (clear_model W m)) = starts m (fst ?r)"
    by (simp add: starts_def clear_model_def Let_def case_prod_unfold get_video_def v)
  moreover have "started (snd (clear_model W m)) = started (snd ?r)"
    by (simp add: clear_model_def Let_def case_prod_unfold started_run clear_uid_quiet)
  ultimately show ?thesis
    using ClearModel replace_started [OF assms(1) _ video_flags_ok, of m W "[]"] assms(2)
    by (simp add: ingest_video_publishers_def presence_ok_def)
qed (simp_all add: starts_same set_speaking_quiet set_self_uid_def)

lemma present_replace [simp]: "present (fst (replace_video W m fresh)) = present m"
  by (simp add: present_def replace_video_def)

text \<open>The arrivals and departures a list of participants makes.\<close>

fun moves :: "HxVoiceModel \<Rightarrow> HxVoiceModel \<Rightarrow> PresenceEvent \<Rightarrow> (u32 \<times> bool) set" where
  "moves m m' (RoomStatus blob cap) =
     {(ucast u, u \<in> present m') |u. seeded m \<and> (u \<in> present m) \<noteq> (u \<in> present m') \<and> u \<noteq> self_uid m}"
| "moves m m' _ = {}"

lemma step_chimes:
  assumes "hash_ok W" "presence_ok m"
  shows "set (chimes (snd (presence_step W m e))) = moves m (fst (presence_step W m e)) e \<and>
    distinct (chimes (snd (presence_step W m e)))"
proof (cases e)
  case (RoomStatus blob cap)
  have "entries_ok (by_uid m)" using assms(2) by (simp add: presence_ok_def)
  from participants_chimes [OF assms(1) this, of blob] show ?thesis
    using ingest_participants_fields(2) [OF assms(1), of m blob] RoomStatus
    by (simp add: hx_voice_model_ingest_participants_def Let_def case_prod_unfold replace_chimes
        ingest_participant_video_def)
qed (simp_all add: set_speaking_quiet ingest_video_publishers_def replace_chimes clear_model_def Let_def
    case_prod_unfold chimes_run clear_uid_quiet)

section \<open>Properties\<close>

lemma presence_machine:
  assumes "hash_ok W"
  shows "monitored_machine new_model (presence_step W) presence_ok blank_view view_event displays"
proof
  show "presence_ok new_model"
    by (simp add: presence_ok_def new_model_def entries_ok_def video_ok_def)
  show "displays new_model blank_view"
    by (simp add: displays_def new_model_def blank_view_def get_indicator_def get_video_def flags_of_def)
  show "presence_ok m \<Longrightarrow> presence_ok (fst (presence_step W m e))" for m e
    by (rule presence_step_ok [OF assms])
  show "presence_ok m \<Longrightarrow> displays m v \<Longrightarrow>
      displays (fst (presence_step W m e)) (view_event v e (snd (presence_step W m e)))" for m e v
    using told_step [OF assms, of m e] by (simp add: told_def view_event_def)
qed

lemma presence_reachable_ok:
  "hash_ok W \<Longrightarrow> presence_ok (fst (run_machine (presence_step W) new_model es))"
  by (rule event_machine.inv_run [OF monitored_machine.axioms(1) [OF presence_machine]])

text \<open>C22: A user list that starts blank and changes a cell only when the presence model signals it
  shows, after any sequence of events, exactly the indicator and the video flags the model holds for
  every user id, and no signal ever told it what it showed already.\<close>

theorem presence_view_exact:
  assumes "hash_ok W"
  shows "\<exists>m v. run_monitor (presence_step W) view_event new_model blank_view es = (m, v) \<and>
    (\<forall>u. shown v (ucast u) = get_indicator m u \<and> shown_video v (ucast u) = get_video m u) \<and>
    wasted v = 0"
  using monitored_machine.agree_run [OF presence_machine [OF assms], of es]
  by (auto simp: displays_def) (metis prod.collapse)

text \<open>C23: A presence chime is emitted exactly for the users that a list of participants adds to the
  room or drops from it, once each, after the first list since the last clear and never for this
  client's own user id; a share is announced exactly when a camera or a screen was not published
  before and is now, so that a resume is no start, once each and under the same conditions.\<close>

theorem presence_announced_exactly:
  assumes "hash_ok W"
    and "m = fst (run_machine (presence_step W) new_model es)"
    and "presence_step W m e = (m', out)"
  shows "set (chimes out) = moves m m' e \<and> distinct (chimes out) \<and>
    set (started out) = starts m m' \<and> distinct (started out)"
proof -
  have "presence_ok m" unfolding assms(2) by (rule presence_reachable_ok [OF assms(1)])
  then show ?thesis
    using step_chimes [OF assms(1), of m e] step_started [OF assms(1), of m e] assms(3) by simp
qed

text \<open>C40: Whatever lists a server sends, the model tracks at most 1024 users and 1024 publishers, and
  it shows an indicator only for users of the last list: everyone tracked is in the room, with the
  indicator that the flags compute to.\<close>

theorem presence_bounded:
  assumes "hash_ok W"
    and "m = fst (run_machine (presence_step W) new_model es)"
  shows "length (by_uid m) \<le> 1024 \<and> length (video m) \<le> 1024 \<and>
    (\<forall>(u, e) \<in> set (by_uid m). in_voice e \<and> last_indicator e = compute_indicator e)"
  using presence_reachable_ok [OF assms(1), of es]
  by (auto simp: assms(2) presence_ok_def video_ok_def entries_ok_def entry_ok_def MAX_PARTICIPANTS_def)

section \<open>Witnesses\<close>

text \<open>Records of six bytes: a user id, two bytes unused here, and the flags.\<close>

fun six_bytes :: "bytes \<Rightarrow> VoiceParticipant list" where
  "six_bytes (a # b # c # d # e # f # r) =
     \<lparr>vp_user_id = from_be16 a b, vp_flags = from_be16 e f, vp_muted = odd f\<rparr> # six_bytes r"
| "six_bytes _ = []"

fun toy_publishers :: "bytes \<Rightarrow> Publication list" where
  "toy_publishers (a # b # c # r) =
     \<lparr>pub_user_id = from_be16 a b, pub_kind = (if even c then Camera else Screen), pub_paused = (2 \<le> c)\<rparr> #
     toy_publishers r"
| "toy_publishers _ = []"

definition toy_presence :: PresenceEnv where
  "toy_presence = \<lparr>parse_voice_participants = six_bytes, parse_video_publishers = toy_publishers,
     hash_order = rev\<rparr>"

lemma toy_hash_ok: "hash_ok toy_presence"
  by (simp add: hash_ok_def toy_presence_def)

definition toy_presence_events :: "PresenceEvent list" where
  "toy_presence_events =
     [SelfUid 1, RoomStatus [0, 1, 0, 0, 0, 0, 0, 2, 0, 0, 0, 1] True, SetSpeaking 1 True,
      VideoStatus [0, 2, 0]]"

lemmas toy_presence_eval =
  toy_presence_def toy_presence_events_def new_model_def hx_voice_model_ingest_participants_def
  ingest_participants_def ingest_present_def ingest_left_def recompute_and_maybe_emit_def
  entry_or_default_def default_entry_def compute_indicator_def indicator_defs
  ingest_participant_video_def ingest_video_publishers_def replace_video_def video_changes_def
  participant_video_flags_def video_flags_def flags_of_def wire_video_def video_defs WIRE_CAMERA_def
  WIRE_SCREEN_def set_self_uid_def set_speaking_def video_signals_def silence_def MAX_PARTICIPANTS_def
  from_be16_def

lemma toy_presence_run:
  "run_machine (presence_step toy_presence) new_model toy_presence_events =
     (\<lparr>by_uid = [(1, \<lparr>in_voice = True, muted = False, speaking = True, last_indicator = 2\<rparr>),
                 (2, \<lparr>in_voice = True, muted = True, speaking = False, last_indicator = 3\<rparr>)],
       self_uid = 1, seeded = True, video = [(2, 1)], video_seeded = True\<rparr>,
      [IndicatorChanged 1 1, IndicatorChanged 2 3, IndicatorChanged 1 2, VideoChanged 2 1, VideoStarted 2 1])"
  by (simp add: toy_presence_eval)

theorem presence_view_exact_witness:
  "\<exists>m v. run_monitor (presence_step toy_presence) view_event new_model blank_view toy_presence_events = (m, v) \<and>
    shown v 1 = INDICATOR_SPEAKING \<and> shown v 2 = INDICATOR_MUTED \<and> shown_video v 2 = VIDEO_CAMERA \<and> wasted v = 0"
proof -
  obtain m v where mv: "run_monitor (presence_step toy_presence) view_event new_model blank_view
      toy_presence_events = (m, v)"
    and sh: "\<And>u. shown v (ucast u) = get_indicator m u" "\<And>u. shown_video v (ucast u) = get_video m u"
    and w: "wasted v = 0"
    using presence_view_exact [OF toy_hash_ok, of toy_presence_events] by blast
  have "m = fst (run_machine (presence_step toy_presence) new_model toy_presence_events)"
    using mv run_monitor_state by (metis fst_conv)
  then have "get_indicator m 1 = INDICATOR_SPEAKING" "get_indicator m 2 = INDICATOR_MUTED"
    "get_video m 2 = VIDEO_CAMERA"
    by (simp_all add: toy_presence_run get_indicator_def get_video_def flags_of_def indicator_defs video_defs)
  with mv w sh(1) [of 1] sh(1) [of 2] sh(2) [of 2] show ?thesis by auto
qed

theorem presence_announced_exactly_witness:
  "let m = fst (run_machine (presence_step toy_presence) new_model toy_presence_events);
       e = RoomStatus [0, 1, 0, 0, 0, 0, 0, 3, 0, 0, 0, 4] False;
       (m', out) = presence_step toy_presence m e
   in set (chimes out) = moves m m' e \<and> set (started out) = starts m m' \<and>
      set (chimes out) = {(3, True), (2, False)} \<and> set (started out) = {(3, VIDEO_SCREEN)}"
proof -
  let ?m = "fst (run_machine (presence_step toy_presence) new_model toy_presence_events)"
  let ?e = "RoomStatus [0, 1, 0, 0, 0, 0, 0, 3, 0, 0, 0, 4] False"
  let ?r = "presence_step toy_presence ?m ?e"
  have "set (chimes (snd ?r)) = {(3, True), (2, False)} \<and> set (started (snd ?r)) = {(3, VIDEO_SCREEN)}"
    by (simp add: toy_presence_run toy_presence_eval chimes_def started_def insert_commute)
  then show ?thesis
    using presence_announced_exactly [OF toy_hash_ok refl, of toy_presence_events ?e "fst ?r" "snd ?r"]
    by (simp add: Let_def case_prod_unfold)
qed

theorem presence_bounded_witness:
  "length (by_uid (fst (run_machine (presence_step toy_presence) new_model toy_presence_events))) \<le> 1024 \<and>
   by_uid (fst (run_machine (presence_step toy_presence) new_model toy_presence_events)) \<noteq> []"
  using presence_bounded [OF toy_hash_ok refl, of toy_presence_events] by (simp add: toy_presence_run)

end
