(* ===== verification/Update_Check.thy ===== *)
theory Update_Check
  imports Hx_Text
begin

text \<open>
  The update check (\<open>hxupdate/src/lib.rs\<close>, \<open>flatpak.rs\<close>): versions and their order, the feed and
  its decision, and the banner that follows what the portal, the feed and the user said.  The JSON
  reader is a parameter; a point in time is a number of nanoseconds, a duration a natural one.
\<close>

section \<open>Versions\<close>

text \<open>
  \<open>Stage\<close> and \<open>Version\<close> derive \<open>Ord\<close>: the constructors in the order of their declaration and then
  their arguments, the fields one after the other.
\<close>

datatype Stage = Dev | Beta u32 | Rc u32 | Release

datatype Version = Version (major: u32) (minor: u32) (patch: u32) (stage: Stage)

instantiation Stage :: linorder
begin

fun less_eq_Stage :: "Stage \<Rightarrow> Stage \<Rightarrow> bool" where
  "less_eq_Stage Dev s \<longleftrightarrow> True"
| "less_eq_Stage (Beta m) s \<longleftrightarrow> (case s of Dev \<Rightarrow> False | Beta n \<Rightarrow> m \<le> n | _ \<Rightarrow> True)"
| "less_eq_Stage (Rc m) s \<longleftrightarrow> (case s of Rc n \<Rightarrow> m \<le> n | Release \<Rightarrow> True | _ \<Rightarrow> False)"
| "less_eq_Stage Release s \<longleftrightarrow> s = Release"

definition less_Stage :: "Stage \<Rightarrow> Stage \<Rightarrow> bool" where
  "less_Stage s t \<longleftrightarrow> s \<le> t \<and> \<not> t \<le> s"

instance
proof
  fix x y z :: Stage
  show "x < y \<longleftrightarrow> x \<le> y \<and> \<not> y \<le> x" by (rule less_Stage_def)
  show "x \<le> x" by (cases x) simp_all
  show "x \<le> y \<Longrightarrow> y \<le> z \<Longrightarrow> x \<le> z" by (cases x; cases y; cases z) simp_all
  show "x \<le> y \<Longrightarrow> y \<le> x \<Longrightarrow> x = y" by (cases x; cases y) simp_all
  show "x \<le> y \<or> y \<le> x" by (cases x; cases y) auto
qed

end

instantiation Version :: linorder
begin

definition less_eq_Version :: "Version \<Rightarrow> Version \<Rightarrow> bool" where
  "less_eq_Version v w \<longleftrightarrow>
     major v < major w \<or> major v = major w \<and>
     (minor v < minor w \<or> minor v = minor w \<and>
      (patch v < patch w \<or> patch v = patch w \<and> stage v \<le> stage w))"

definition less_Version :: "Version \<Rightarrow> Version \<Rightarrow> bool" where
  "less_Version v w \<longleftrightarrow> v \<le> w \<and> \<not> w \<le> v"

instance
proof
  fix x y z :: Version
  show "x < y \<longleftrightarrow> x \<le> y \<and> \<not> y \<le> x" by (rule less_Version_def)
  show "x \<le> x" by (simp add: less_eq_Version_def)
  show "x \<le> y \<Longrightarrow> y \<le> z \<Longrightarrow> x \<le> z" by (auto simp: less_eq_Version_def)
  show "x \<le> y \<Longrightarrow> y \<le> x \<Longrightarrow> x = y" by (auto simp: less_eq_Version_def Version.expand)
  show "x \<le> y \<or> y \<le> x" by (auto simp: less_eq_Version_def)
qed

end

text \<open>\<open>str::split\<close> at a character: at least one piece.\<close>

fun str_split :: "char \<Rightarrow> string \<Rightarrow> string list" where
  "str_split c [] = [[]]"
| "str_split c (x # xs) =
     (if x = c then [] # str_split c xs
      else case str_split c xs of [] \<Rightarrow> [[x]] | y # ys \<Rightarrow> (x # y) # ys)"

definition number :: "string \<Rightarrow> u32 option" where
  "number s =
     (if s = [] \<or> \<not> list_all is_ascii_digit s then None else map_option of_nat (parse_uint 32 s))"

definition parse_stage :: "string \<Rightarrow> Stage option" where
  "parse_stage suffix =
     (if suffix = '''' then Some Release
      else if suffix = ''-dev'' then Some Dev
      else case strip_prefix ''rc'' suffix of
        Some n \<Rightarrow> map_option Rc (number n)
      | None \<Rightarrow> (case strip_prefix ''b'' suffix of None \<Rightarrow> None | Some n \<Rightarrow> map_option Beta (number n)))"

definition core_char :: "char \<Rightarrow> bool" where
  "core_char c \<longleftrightarrow> is_ascii_digit c \<or> c = CHR ''.''"

definition parse_version :: "string \<Rightarrow> Version option" where
  "parse_version s =
     (let s = (case strip_prefix ''v'' s of Some r \<Rightarrow> r | None \<Rightarrow> s);
          core = takeWhile core_char s; suffix = dropWhile core_char s
      in case map number (str_split CHR ''.'' core) of
           [Some a, Some b, Some c] \<Rightarrow> map_option (Version a b c) (parse_stage suffix)
         | _ \<Rightarrow> None)"

definition is_prerelease :: "Version \<Rightarrow> bool" where
  "is_prerelease v \<longleftrightarrow> stage v \<noteq> Release"

section \<open>The feed\<close>

record FeedEntry =
  entry_version :: string
  entry_date :: string
  notes_url :: string
  downloads :: "(string \<times> string) list"

record Channels =
  stable :: "FeedEntry option"
  beta :: "FeedEntry option"

record Feed =
  schema :: u32
  channels :: Channels

definition MAX_FEED_BYTES :: nat where "MAX_FEED_BYTES = 64 * 1024"
definition FEED_SCHEMA :: u32 where "FEED_SCHEMA = 1"

datatype 'e FeedError = TooLarge | Malformed 'e | UnknownSchema u32

text \<open>\<open>json\<close> is \<open>serde_json::from_slice\<close> with the derived readers.\<close>

definition parse_feed :: "(bytes \<Rightarrow> 'e + Feed) \<Rightarrow> bytes \<Rightarrow> 'e FeedError + Feed" where
  "parse_feed json bs =
     (if length bs > MAX_FEED_BYTES then Inl TooLarge
      else case json bs of
        Inl e \<Rightarrow> Inl (Malformed e)
      | Inr feed \<Rightarrow> if schema feed \<noteq> FEED_SCHEMA then Inl (UnknownSchema (schema feed)) else Inr feed)"

text \<open>\<open>Iterator::max_by_key\<close> keeps the last of equals.\<close>

fun max_by_key :: "(Version \<times> 'a) list \<Rightarrow> (Version \<times> 'a) option" where
  "max_by_key [] = None"
| "max_by_key [x] = Some x"
| "max_by_key (x # y # r) = max_by_key ((if fst x > fst y then x else y) # r)"

fun opt_list :: "'a option \<Rightarrow> 'a list" where
  "opt_list None = []"
| "opt_list (Some x) = [x]"

definition newer_than :: "string \<Rightarrow> string \<Rightarrow> Feed \<Rightarrow> FeedEntry option" where
  "newer_than running skip_version feed =
     (case parse_version running of
        None \<Rightarrow> None
      | Some running \<Rightarrow>
          let skip = parse_version skip_version;
              b = (if is_prerelease running then beta (channels feed) else None);
              entries = opt_list b @ opt_list (stable (channels feed));
              known = concat (map (\<lambda>e. map (\<lambda>v. (v, e)) (opt_list (parse_version (entry_version e)))) entries)
          in map_option snd (max_by_key (filter (\<lambda>(v, _). v > running \<and> Some v \<noteq> skip) known)))"

datatype CheckAction = Fetch "FeedEntry option" | Wait nat "FeedEntry option"

definition duration_since :: "int \<Rightarrow> int \<Rightarrow> nat option" where
  "duration_since now t = (if t \<le> now then Some (nat (now - t)) else None)"

definition decide_check ::
  "string \<Rightarrow> string \<Rightarrow> Feed option \<Rightarrow> int option \<Rightarrow> int \<Rightarrow> nat \<Rightarrow> CheckAction" where
  "decide_check running skip_version feed last_checked now interval =
     (let notice = (case feed of None \<Rightarrow> None | Some f \<Rightarrow> newer_than running skip_version f)
      in case (case last_checked of None \<Rightarrow> None | Some t \<Rightarrow> duration_since now t) of
           Some since \<Rightarrow> if since < interval then Wait (interval - since) notice else Fetch notice
         | None \<Rightarrow> Fetch notice)"

fun notice_of :: "CheckAction \<Rightarrow> FeedEntry option" where
  "notice_of (Fetch n) = n"
| "notice_of (Wait _ n) = n"

section \<open>The Flatpak portal\<close>

definition MIN_PORTAL_VERSION :: u32 where "MIN_PORTAL_VERSION = 2"
definition PROGRESS_RUNNING :: u32 where "PROGRESS_RUNNING = 0"
definition PROGRESS_DONE :: u32 where "PROGRESS_DONE = 2"
definition PROGRESS_ERROR :: u32 where "PROGRESS_ERROR = 3"

record PortalState =
  portal_version :: u32
  running :: string
  local :: string
  remote :: string
  progress :: "(u32 \<times> u32) option"
  feed_version :: string
  dismissed :: string
  dismissed_version :: string

definition default_portal :: PortalState where
  "default_portal =
     \<lparr>portal_version = 0, running = [], local = [], remote = [], progress = None, feed_version = [],
      dismissed = [], dismissed_version = []\<rparr>"

definition update_available :: "PortalState \<Rightarrow> string \<Rightarrow> string \<Rightarrow> string \<Rightarrow> PortalState \<times> bool" where
  "update_available s run loc rem =
     (let s = (case progress s of
                 Some (st, _) \<Rightarrow> if st = PROGRESS_RUNNING then s else s\<lparr>progress := None\<rparr>
               | None \<Rightarrow> s\<lparr>progress := None\<rparr>);
          carried = (remote s = [] \<and> feed_version s \<noteq> [] \<and> feed_version s = dismissed_version s);
          s = (if carried then s\<lparr>dismissed := rem\<rparr> else s)
      in (s\<lparr>running := run, local := loc, remote := rem\<rparr>, carried))"

definition saturating_mul32 :: "u32 \<Rightarrow> u32 \<Rightarrow> u32" where
  "saturating_mul32 a b = (if unat a * unat b < 2 ^ 32 then a * b else 0xFFFFFFFF)"

text \<open>The sum wraps, as it does in a release build.\<close>

definition overall_percent :: "u32 \<Rightarrow> u32 option \<Rightarrow> u32 option \<Rightarrow> u32" where
  "overall_percent pr op n_ops =
     (let pr = min pr 100
      in case (op, n_ops) of
           (Some op, Some n) \<Rightarrow> if op < n then (saturating_mul32 op 100 + pr) div n else pr
         | _ \<Rightarrow> pr)"

datatype Notice = NoNotice | Available | Updating u32 | Failed | Installed

definition update_out :: "PortalState \<Rightarrow> bool" where
  "update_out s =
     (if remote s = [] then feed_version s \<noteq> [] \<and> feed_version s \<noteq> dismissed_version s
      else remote s \<noteq> local s \<and> remote s \<noteq> dismissed s)"

definition commits_notice :: "PortalState \<Rightarrow> Notice" where
  "commits_notice s =
     (if update_out s then Available
      else if local s \<noteq> [] \<and> running s \<noteq> [] \<and> local s \<noteq> running s then Installed
      else NoNotice)"

definition notice :: "bool \<Rightarrow> PortalState \<Rightarrow> Notice" where
  "notice enabled s =
     (if \<not> enabled \<or> portal_version s < MIN_PORTAL_VERSION then NoNotice
      else case progress s of
        Some (st, percent) \<Rightarrow>
          if st = PROGRESS_RUNNING then Updating (min percent 100)
          else if st = PROGRESS_DONE then Installed
          else if st = PROGRESS_ERROR then Failed
          else commits_notice s
      | None \<Rightarrow> commits_notice s)"

definition feed_newer :: "string \<Rightarrow> string \<Rightarrow> Feed \<Rightarrow> string option" where
  "feed_newer run branch feed =
     (case (if branch = ''stable'' then stable (channels feed)
            else if branch = ''beta'' then beta (channels feed) else None) of
        None \<Rightarrow> None
      | Some entry \<Rightarrow>
          (case (parse_version (entry_version entry), parse_version run) of
             (Some v, Some r) \<Rightarrow> if v > r then Some (entry_version entry) else None
           | _ \<Rightarrow> None))"

end
