(* ===== verification/Update_Monitor.thy ===== *)
theory Update_Monitor
  imports Update_Check
begin

text \<open>
  The monitor of the Flatpak portal (\<open>gtkhx-ui/src/updates.rs\<close>).  \<open>Monitor\<close> is the thread-local
  state; \<open>MonitorWorld\<close> adds the setting, the calls in flight, the timers armed, the monitor objects
  open at the portal, the file that keeps a \<open>Later\<close>, and whether the process quit.  A step
  \<open>monitor_handle\<close> is a callback, run to its end on the main thread; \<open>monitor_can\<close> says which
  callbacks may come, in any order.  The widgets only render \<open>notice\<close>.  Writing the file of a \<open>Later\<close>
  succeeds; where it fails the user is asked again after a restart.
\<close>

record Monitor =
  state :: PortalState
  conn :: bool
  handle :: "nat option"
  generation :: u32
  starting :: bool
  heard :: u32
  restarting :: bool

definition default_monitor :: Monitor where
  "default_monitor =
     \<lparr>state = default_portal, conn = False, handle = None, generation = 0, starting = False,
      heard = 0, restarting = False\<rparr>"

record MonitorWorld =
  mon :: Monitor
  check_on :: bool
  build :: string
  later_file :: string
  starts :: "u32 list"
  feeds :: "u32 list"
  holds :: "u32 list"
  stalls :: "u32 list"
  updates :: nat
  spawns :: nat
  opened :: "nat set"
  next_handle :: nat
  quit :: bool

text \<open>\<open>read_dismissed\<close> and \<open>write_dismissed\<close>: two lines of the file.\<close>

definition dismissed_text :: "string \<Rightarrow> string \<Rightarrow> string" where
  "dismissed_text commit version = commit @ [CHR 0x0A] @ version @ [CHR 0x0A]"

definition nth_or_empty :: "string list \<Rightarrow> nat \<Rightarrow> string" where
  "nth_or_empty xs i = (if i < length xs then xs ! i else [])"

definition read_dismissed :: "string \<Rightarrow> string \<times> string" where
  "read_dismissed text =
     (let ls = map str_trim (str_lines text) in (nth_or_empty ls 0, nth_or_empty ls 1))"

definition write_dismissed :: "MonitorWorld \<Rightarrow> string \<Rightarrow> string \<Rightarrow> MonitorWorld" where
  "write_dismissed w commit version = w\<lparr>later_file := dismissed_text commit version\<rparr>"

definition on_state :: "(PortalState \<Rightarrow> PortalState) \<Rightarrow> MonitorWorld \<Rightarrow> MonitorWorld" where
  "on_state f w = w\<lparr>mon := (mon w)\<lparr>state := f (state (mon w))\<rparr>\<rparr>"

text \<open>\<open>close\<close> and \<open>close_monitor\<close>.\<close>

definition close_handle :: "nat \<Rightarrow> MonitorWorld \<Rightarrow> MonitorWorld" where
  "close_handle h w = w\<lparr>opened := opened w - {h}\<rparr>"

definition close_monitor :: "MonitorWorld \<Rightarrow> MonitorWorld" where
  "close_monitor w =
     (let m = mon w;
          w = w\<lparr>mon := m\<lparr>generation := generation m + 1, starting := False, handle := None\<rparr>\<rparr>
      in case (conn m, handle m) of (True, Some h) \<Rightarrow> close_handle h w | _ \<Rightarrow> w)"

text \<open>\<open>refresh\<close>: start or stop watching, to match the setting.\<close>

definition refresh :: "MonitorWorld \<Rightarrow> MonitorWorld" where
  "refresh w =
     (if check_on w then
        if handle (mon w) = None \<and> \<not> starting (mon w)
        then w\<lparr>mon := (mon w)\<lparr>starting := True\<rparr>, starts := generation (mon w) # starts w\<rparr>
        else w
      else
        on_state (\<lambda>s. default_portal\<lparr>dismissed := dismissed s, dismissed_version := dismissed_version s\<rparr>)
          (close_monitor w))"

text \<open>The process starts: \<open>banner\<close> reads the file and refreshes.\<close>

definition start_world :: "string \<Rightarrow> bool \<Rightarrow> string \<Rightarrow> MonitorWorld" where
  "start_world ver on kept =
     (let (d, v) = read_dismissed kept
      in refresh
        \<lparr>mon = default_monitor\<lparr>state := default_portal\<lparr>dismissed := d, dismissed_version := v\<rparr>\<rparr>,
         check_on = on, build = ver, later_file = kept, starts = [], feeds = [], holds = [], stalls = [], updates = 0,
         spawns = 0, opened = {}, next_handle = 0, quit = False\<rparr>)"

text \<open>
  The rest of \<open>start_monitor\<close>, when \<open>open_monitor\<close> has answered: an error with the version found,
  or a monitor object, which is new.  \<open>open_monitor\<close> refuses a portal that is too old.
\<close>

definition start_answered :: "u32 \<Rightarrow> u32 + nat \<times> u32 \<Rightarrow> MonitorWorld \<Rightarrow> MonitorWorld" where
  "start_answered g r w =
     (let w = w\<lparr>starts := remove1 g (starts w)\<rparr>;
          w = (case r of Inl _ \<Rightarrow> w
               | Inr (h, _) \<Rightarrow> w\<lparr>opened := insert h (opened w), next_handle := Suc h\<rparr>)
      in if generation (mon w) \<noteq> g then
           (case r of Inl _ \<Rightarrow> w | Inr (h, _) \<Rightarrow> close_handle h w)
         else
           let w = w\<lparr>mon := (mon w)\<lparr>starting := False\<rparr>\<rparr>
           in case r of
                Inl v \<Rightarrow> on_state (\<lambda>s. s\<lparr>portal_version := v\<rparr>) w
              | Inr (h, v) \<Rightarrow>
                  let w = on_state (\<lambda>s. s\<lparr>portal_version := v\<rparr>) w
                  in w\<lparr>mon := (mon w)\<lparr>conn := True, handle := Some h\<rparr>,
                       feeds := g # feeds w, holds := g # holds w\<rparr>)"

text \<open>\<open>read_feed\<close>, when the branch and the feed are known or the attempt has failed.\<close>

definition feed_answered :: "u32 \<Rightarrow> (string \<times> Feed) option \<Rightarrow> MonitorWorld \<Rightarrow> MonitorWorld" where
  "feed_answered g r w =
     (let w = w\<lparr>feeds := remove1 g (feeds w)\<rparr>
      in case r of
           None \<Rightarrow> w
         | Some (branch, feed) \<Rightarrow>
             if generation (mon w) = g
             then on_state (\<lambda>s. s\<lparr>feed_version :=
               (case feed_newer (build w) branch feed of None \<Rightarrow> [] | Some v \<Rightarrow> v)\<rparr>) w
             else w)"

definition feed_held :: "u32 \<Rightarrow> MonitorWorld \<Rightarrow> MonitorWorld" where
  "feed_held g w =
     (let w = w\<lparr>holds := remove1 g (holds w)\<rparr>
      in if generation (mon w) = g then on_state (\<lambda>s. s\<lparr>feed_version := []\<rparr>) w else w)"

definition watch_for_stall :: "MonitorWorld \<Rightarrow> MonitorWorld" where
  "watch_for_stall w =
     (let serial = heard (mon w) + 1
      in w\<lparr>mon := (mon w)\<lparr>heard := serial\<rparr>, stalls := serial # stalls w\<rparr>)"

definition is_running :: "PortalState \<Rightarrow> bool" where
  "is_running s = (case progress s of Some (st, _) \<Rightarrow> st = PROGRESS_RUNNING | None \<Rightarrow> False)"

definition stall_timer :: "u32 \<Rightarrow> MonitorWorld \<Rightarrow> MonitorWorld" where
  "stall_timer serial w =
     (let w = w\<lparr>stalls := remove1 serial (stalls w)\<rparr>;
          stalled = (heard (mon w) = serial \<and> is_running (state (mon w)))
      in if stalled then refresh (on_state (\<lambda>s. s\<lparr>progress := None\<rparr>) (close_monitor w)) else w)"

text \<open>The two signals of the monitor.\<close>

definition sig_update_available :: "string \<Rightarrow> string \<Rightarrow> string \<Rightarrow> MonitorWorld \<Rightarrow> MonitorWorld" where
  "sig_update_available run loc rem w =
     (let (s, carried) = update_available (state (mon w)) run loc rem;
          w = on_state (\<lambda>_. s) w;
          w = (if carried then write_dismissed w (dismissed s) (dismissed_version s) else w)
      in watch_for_stall w)"

definition or_zero :: "u32 option \<Rightarrow> u32" where
  "or_zero x = (case x of None \<Rightarrow> 0 | Some n \<Rightarrow> n)"

definition sig_progress ::
  "u32 option \<Rightarrow> u32 option \<Rightarrow> u32 option \<Rightarrow> u32 option \<Rightarrow> MonitorWorld \<Rightarrow> MonitorWorld" where
  "sig_progress st pr op n_ops w =
     watch_for_stall (on_state (\<lambda>s. s\<lparr>progress :=
       Some (or_zero st, overall_percent (or_zero pr) op n_ops)\<rparr>) w)"

definition update_now :: "MonitorWorld \<Rightarrow> MonitorWorld" where
  "update_now w =
     (if conn (mon w) \<and> handle (mon w) \<noteq> None then
        watch_for_stall (on_state (\<lambda>s. s\<lparr>progress := Some (PROGRESS_RUNNING, 0)\<rparr>)
          (w\<lparr>updates := Suc (updates w)\<rparr>))
      else w)"

definition update_answered :: "bool \<Rightarrow> MonitorWorld \<Rightarrow> MonitorWorld" where
  "update_answered ok w =
     (let w = w\<lparr>updates := updates w - 1\<rparr>
      in if ok then w else on_state (\<lambda>s. s\<lparr>progress := Some (PROGRESS_ERROR, 0)\<rparr>) w)"

text \<open>The answer \<open>Later\<close> of \<open>ask_to_update\<close>.\<close>

definition answer_later :: "MonitorWorld \<Rightarrow> MonitorWorld" where
  "answer_later w =
     (let s = state (mon w);
          w = on_state (\<lambda>s. s\<lparr>dismissed := remote s, dismissed_version := feed_version s\<rparr>) w
      in write_dismissed w (remote s) (feed_version s))"

definition restart :: "MonitorWorld \<Rightarrow> MonitorWorld" where
  "restart w =
     (if conn (mon w) \<and> \<not> restarting (mon w)
      then w\<lparr>mon := (mon w)\<lparr>restarting := True\<rparr>, spawns := Suc (spawns w)\<rparr> else w)"

definition spawn_answered :: "bool \<Rightarrow> MonitorWorld \<Rightarrow> MonitorWorld" where
  "spawn_answered ok w =
     (let w = w\<lparr>spawns := spawns w - 1\<rparr>
      in if ok then w\<lparr>quit := True\<rparr> else w\<lparr>mon := (mon w)\<lparr>restarting := False\<rparr>\<rparr>)"

datatype MonitorEvent =
    SetCheck bool
  | StartAnswered u32 "u32 + nat \<times> u32"
  | FeedAnswered u32 "(string \<times> Feed) option"
  | FeedHeld u32
  | StallTimer u32
  | SigUpdateAvailable string string string
  | SigProgress "u32 option" "u32 option" "u32 option" "u32 option"
  | PressUpdate
  | UpdateAnswered bool
  | PressLater
  | PressRestart
  | SpawnAnswered bool

text \<open>A commit is the checksum of an OSTree commit, printable text without spaces.\<close>

definition graphic :: "string \<Rightarrow> bool" where
  "graphic s \<longleftrightarrow> list_all (\<lambda>c. 32 < code c \<and> code c < 0x80) s"

fun monitor_can :: "MonitorWorld \<Rightarrow> MonitorEvent \<Rightarrow> bool" where
  "monitor_can w (StartAnswered g r) =
     (g \<in> set (starts w) \<and>
      (case r of Inl _ \<Rightarrow> True | Inr (h, v) \<Rightarrow> next_handle w \<le> h \<and> MIN_PORTAL_VERSION \<le> v))"
| "monitor_can w (FeedAnswered g r) = (g \<in> set (feeds w))"
| "monitor_can w (FeedHeld g) = (g \<in> set (holds w))"
| "monitor_can w (StallTimer serial) = (serial \<in> set (stalls w))"
| "monitor_can w (SigUpdateAvailable run loc rem) = graphic rem"
| "monitor_can w (UpdateAnswered ok) = (0 < updates w)"
| "monitor_can w (SpawnAnswered ok) = (0 < spawns w)"
| "monitor_can w _ = True"

fun monitor_handle :: "MonitorWorld \<Rightarrow> MonitorEvent \<Rightarrow> MonitorWorld" where
  "monitor_handle w (SetCheck b) = refresh (w\<lparr>check_on := b\<rparr>)"
| "monitor_handle w (StartAnswered g r) = start_answered g r w"
| "monitor_handle w (FeedAnswered g r) = feed_answered g r w"
| "monitor_handle w (FeedHeld g) = feed_held g w"
| "monitor_handle w (StallTimer serial) = stall_timer serial w"
| "monitor_handle w (SigUpdateAvailable r l rem) = sig_update_available r l rem w"
| "monitor_handle w (SigProgress st pr op n) = sig_progress st pr op n w"
| "monitor_handle w PressUpdate = update_now w"
| "monitor_handle w (UpdateAnswered ok) = update_answered ok w"
| "monitor_handle w PressLater = answer_later w"
| "monitor_handle w PressRestart = restart w"
| "monitor_handle w (SpawnAnswered ok) = spawn_answered ok w"

inductive monitor_reachable :: "string \<Rightarrow> bool \<Rightarrow> string \<Rightarrow> nat \<Rightarrow> MonitorWorld \<Rightarrow> bool"
  for ver :: string and on :: bool and kept :: string where
  monitor_start: "monitor_reachable ver on kept 0 (start_world ver on kept)"
| monitor_next: "monitor_reachable ver on kept n w \<Longrightarrow> \<not> quit w \<Longrightarrow> monitor_can w e \<Longrightarrow>
    monitor_reachable ver on kept (Suc n) (monitor_handle w e)"

end
