(* ===== verification/Update_Props.thy ===== *)
theory Update_Props
  imports Update_Monitor
begin

text \<open>
  Versions are read exactly in their four shapes; the notice of the update check is the newest entry
  that the running build should hear about; the monitor opens no object it does not close, an update
  that has gone quiet is given up, and a \<open>Later\<close> holds until something else is out.
\<close>

section \<open>Versions\<close>

lemma str_split_single: "c \<notin> set a \<Longrightarrow> str_split c a = [a]"
  by (induction a) auto

lemma str_split_append: "c \<notin> set a \<Longrightarrow> str_split c (a @ c # b) = a # str_split c b"
  by (induction a) auto

lemma str_split_not_Nil [simp]: "str_split c s \<noteq> []"
  by (induction s) (auto split: list.split)

lemma str_split_Cons:
  "str_split c s = x # ys \<Longrightarrow>
   c \<notin> set x \<and> (ys = [] \<and> s = x \<or> (\<exists>r. s = x @ c # r \<and> str_split c r = ys))"
proof (induction s arbitrary: x ys)
  case (Cons d s)
  show ?case
  proof (cases "d = c")
    case False
    obtain y zs where yz: "str_split c s = y # zs" by (cases "str_split c s") auto
    with Cons.prems False have "x = d # y" "ys = zs" by auto
    with Cons.IH [OF yz] False show ?thesis by auto
  qed (use Cons.prems in auto)
qed auto

lemma number_iff:
  "number s = Some n \<longleftrightarrow> s \<noteq> [] \<and> list_all is_ascii_digit s \<and> dec_value s = unat n"
proof (cases "s \<noteq> [] \<and> list_all is_ascii_digit s")
  case True
  then obtain c r where s: "s = c # r" and "is_ascii_digit c" by (cases s) auto
  then have "c \<noteq> CHR ''+''" by (auto simp: is_ascii_digit_def)
  with True s have "number s = (if dec_value s < 2 ^ 32 then Some (of_nat (dec_value s)) else None)"
    by (simp add: number_def parse_uint_def)
  then show ?thesis
    using True unsigned_less [of n, where ?'a = nat] by (auto simp: unat_of_nat take_bit_nat_eq_self)
qed (auto simp: number_def)

lemma number_digits: "number s = Some n \<Longrightarrow> list_all core_char s \<and> CHR ''.'' \<notin> set s \<and> s \<noteq> []"
  by (auto simp: number_iff core_char_def list_all_iff is_ascii_digit_def)

text \<open>The suffixes of the four shapes.\<close>

inductive stage_text :: "string \<Rightarrow> Stage \<Rightarrow> bool" where
  "stage_text '''' Release"
| "stage_text ''-dev'' Dev"
| "number n = Some k \<Longrightarrow> stage_text (''b'' @ n) (Beta k)"
| "number n = Some k \<Longrightarrow> stage_text (''rc'' @ n) (Rc k)"

lemma parse_stage_iff: "parse_stage s = Some st \<longleftrightarrow> stage_text s st"
proof
  assume "parse_stage s = Some st"
  then show "stage_text s st"
    using stage_text.intros
    by (auto simp: parse_stage_def strip_prefix_iff split: if_splits option.splits)
next
  assume "stage_text s st"
  then show "parse_stage s = Some st"
    by cases (auto simp: parse_stage_def)
qed

lemma stage_text_core: "stage_text s st \<Longrightarrow> takeWhile core_char s = [] \<and> dropWhile core_char s = s"
  by (cases rule: stage_text.cases) (auto simp: core_char_def is_ascii_digit_def)

lemma split3:
  "str_split c s = [x, y, z] \<longleftrightarrow>
     c \<notin> set x \<and> c \<notin> set y \<and> c \<notin> set z \<and> s = x @ c # y @ c # z"
proof
  assume "str_split c s = [x, y, z]"
  from str_split_Cons [OF this] obtain r where r: "c \<notin> set x" "s = x @ c # r" "str_split c r = [y, z]"
    by auto
  from str_split_Cons [OF r(3)] obtain q where q: "c \<notin> set y" "r = y @ c # q" "str_split c q = [z]"
    by auto
  from str_split_Cons [OF q(3)] have "c \<notin> set z" "q = z" by auto
  with r q show "c \<notin> set x \<and> c \<notin> set y \<and> c \<notin> set z \<and> s = x @ c # y @ c # z" by simp
qed (auto simp: str_split_append str_split_single)

definition core_text :: "u32 \<Rightarrow> u32 \<Rightarrow> u32 \<Rightarrow> string \<Rightarrow> bool" where
  "core_text a b c s \<longleftrightarrow>
     (\<exists>x y z. s = x @ ''.'' @ y @ ''.'' @ z \<and> number x = Some a \<and> number y = Some b \<and> number z = Some c)"

lemma map_number3:
  "map number (str_split CHR ''.'' s) = [Some a, Some b, Some c] \<longleftrightarrow> core_text a b c s"
proof
  assume "map number (str_split CHR ''.'' s) = [Some a, Some b, Some c]"
  then obtain x y z where "str_split CHR ''.'' s = [x, y, z]"
    "number x = Some a" "number y = Some b" "number z = Some c" by auto
  then show "core_text a b c s" unfolding split3 core_text_def by auto
next
  assume "core_text a b c s"
  then obtain x y z where s: "s = x @ CHR ''.'' # y @ CHR ''.'' # z"
    and n: "number x = Some a" "number y = Some b" "number z = Some c"
    by (auto simp: core_text_def)
  then have "str_split CHR ''.'' s = [x, y, z]" by (simp add: split3 number_digits)
  with n show "map number (str_split CHR ''.'' s) = [Some a, Some b, Some c]" by simp
qed

lemma core_text_chars: "core_text a b c s \<Longrightarrow> list_all core_char s \<and> s \<noteq> [] \<and> core_char (hd s)"
  by (auto simp: core_text_def dest!: number_digits) (auto simp: core_char_def hd_append list_all_iff)

definition unmarked :: "string \<Rightarrow> string" where
  "unmarked s = (case strip_prefix ''v'' s of Some r \<Rightarrow> r | None \<Rightarrow> s)"

lemma parse_version_core:
  "parse_version s = Some (Version a b c st) \<longleftrightarrow>
     core_text a b c (takeWhile core_char (unmarked s)) \<and> stage_text (dropWhile core_char (unmarked s)) st"
proof -
  let ?l = "map number (str_split CHR ''.'' (takeWhile core_char (unmarked s)))"
  have "parse_version s = (case ?l of [Some a, Some b, Some c] \<Rightarrow>
      map_option (Version a b c) (parse_stage (dropWhile core_char (unmarked s))) | _ \<Rightarrow> None)"
    by (simp only: parse_version_def unmarked_def Let_def)
  then have "parse_version s = Some (Version a b c st) \<longleftrightarrow>
      ?l = [Some a, Some b, Some c] \<and> parse_stage (dropWhile core_char (unmarked s)) = Some st"
    by (auto split: list.splits option.splits)
  then show ?thesis by (simp only: map_number3 parse_stage_iff)
qed

lemma version_split:
  "core_text a b c (takeWhile core_char s) \<and> stage_text (dropWhile core_char s) st \<longleftrightarrow>
     (\<exists>r q. s = r @ q \<and> core_text a b c r \<and> stage_text q st)"
proof
  assume "\<exists>r q. s = r @ q \<and> core_text a b c r \<and> stage_text q st"
  then obtain r q where s: "s = r @ q" and r: "core_text a b c r" and q: "stage_text q st" by blast
  have "list_all core_char r" using core_text_chars [OF r] by simp
  then have "takeWhile core_char s = r" "dropWhile core_char s = q"
    using stage_text_core [OF q] by (auto simp: s list_all_iff takeWhile_append2 dropWhile_append2)
  with r q show "core_text a b c (takeWhile core_char s) \<and> stage_text (dropWhile core_char s) st" by simp
qed (metis takeWhile_dropWhile_id)

lemma unmarked_iff:
  assumes "core_text a b c r"
  shows "unmarked s = r @ q \<longleftrightarrow> s = r @ q \<or> s = ''v'' @ r @ q"
proof
  have "s = unmarked s \<or> s = ''v'' @ unmarked s"
    by (auto simp: unmarked_def strip_prefix_iff split: option.split)
  then show "unmarked s = r @ q \<Longrightarrow> s = r @ q \<or> s = ''v'' @ r @ q" by auto
  obtain d t where "r = d # t" "core_char d" using core_text_chars [OF assms] by (metis list.collapse)
  then have "unmarked (r @ q) = r @ q" by (auto simp: unmarked_def core_char_def is_ascii_digit_def)
  moreover have "unmarked (''v'' @ r @ q) = r @ q" by (simp add: unmarked_def)
  ultimately show "s = r @ q \<or> s = ''v'' @ r @ q \<Longrightarrow> unmarked s = r @ q" by auto
qed


section \<open>The notice\<close>

lemma max_by_key_last:
  "max_by_key xs = Some x \<Longrightarrow>
   \<exists>as bs. xs = as @ x # bs \<and> (\<forall>y \<in> set as. fst y \<le> fst x) \<and> (\<forall>y \<in> set bs. fst y < fst x)"
proof (induction xs rule: max_by_key.induct)
  case (2 z)
  then show ?case by (intro exI [of _ "[]"]) simp
next
  case (3 z y r)
  show ?case
  proof (cases "fst z > fst y")
    case True
    with 3 obtain as bs where ab: "z # r = as @ x # bs" "\<forall>y \<in> set as. fst y \<le> fst x"
      "\<forall>y \<in> set bs. fst y < fst x" by auto
    show ?thesis
    proof (cases as)
      case Nil
      with ab True show ?thesis by (intro exI [of _ "[]"] exI [of _ "y # r"]) auto
    next
      case (Cons a as')
      with ab True show ?thesis by (intro exI [of _ "z # y # as'"] exI [of _ bs]) auto
    qed
  next
    case False
    with 3 obtain as bs where ab: "y # r = as @ x # bs" "\<forall>y \<in> set as. fst y \<le> fst x"
      "\<forall>y \<in> set bs. fst y < fst x" by auto
    have "fst y \<le> fst x" using ab by (cases as) auto
    with ab False show ?thesis by (intro exI [of _ "z # as"] exI [of _ bs]) auto
  qed
qed auto

lemma max_by_key_None: "max_by_key xs = None \<longleftrightarrow> xs = []"
  by (induction xs rule: max_by_key.induct) auto

definition offered :: "Version \<Rightarrow> Feed \<Rightarrow> FeedEntry \<Rightarrow> bool" where
  "offered r feed e \<longleftrightarrow>
     stable (channels feed) = Some e \<or> is_prerelease r \<and> beta (channels feed) = Some e"

definition worth :: "Version \<Rightarrow> string \<Rightarrow> FeedEntry \<Rightarrow> Version \<Rightarrow> bool" where
  "worth r skip e v \<longleftrightarrow> parse_version (entry_version e) = Some v \<and> r < v \<and> parse_version skip \<noteq> Some v"

definition candidates :: "Version \<Rightarrow> string \<Rightarrow> FeedEntry option \<Rightarrow> (Version \<times> FeedEntry) list" where
  "candidates r skip c = (case c of None \<Rightarrow> [] | Some e \<Rightarrow>
     (case parse_version (entry_version e) of None \<Rightarrow> [] | Some v \<Rightarrow> if worth r skip e v then [(v, e)] else []))"

lemma candidates_iff: "(v, e) \<in> set (candidates r skip c) \<longleftrightarrow> c = Some e \<and> worth r skip e v"
  by (auto simp: candidates_def worth_def split: option.split)

lemma newer_than_candidates:
  assumes "parse_version run = Some r"
  shows "newer_than run skip feed = map_option snd (max_by_key
    (candidates r skip (if is_prerelease r then beta (channels feed) else None) @
     candidates r skip (stable (channels feed))))"
proof -
  have "filter (\<lambda>(v, _). v > r \<and> Some v \<noteq> parse_version skip)
      (concat (map (\<lambda>e. map (\<lambda>v. (v, e)) (opt_list (parse_version (entry_version e)))) (opt_list c))) =
    candidates r skip c" for c
    by (cases c; cases "parse_version (entry_version (the c))") (auto simp: candidates_def worth_def)
  then show ?thesis by (simp add: newer_than_def assms Let_def)
qed

text \<open>C30: The notice of an update check, for a build whose version can be read, is an entry of the
  feed that the build should hear about: a release, or, for a pre-release build, also a beta, of a
  version newer than the build and not the one to skip.  No other such entry is newer, and at the same
  version the release is announced; there is no notice exactly when there is no such entry.\<close>

theorem notice_is_newest:
  assumes "parse_version run = Some r"
  shows "case notice_of (decide_check run skip (Some feed) asked now interval) of
      None \<Rightarrow> \<not> (\<exists>e v. offered r feed e \<and> worth r skip e v)
    | Some e \<Rightarrow> offered r feed e \<and> (\<exists>v. worth r skip e v \<and>
        (\<forall>e' v'. offered r feed e' \<and> worth r skip e' v' \<longrightarrow> v' \<le> v) \<and>
        (\<forall>e'. stable (channels feed) = Some e' \<and> worth r skip e' v \<longrightarrow> e = e'))"
proof -
  let ?b = "candidates r skip (if is_prerelease r then beta (channels feed) else None)"
  let ?s = "candidates r skip (stable (channels feed))"
  have n: "notice_of (decide_check run skip (Some feed) asked now interval) = map_option snd (max_by_key (?b @ ?s))"
    by (simp add: decide_check_def newer_than_candidates [OF assms] Let_def split: option.split)
  have mem: "(v, e) \<in> set (?b @ ?s) \<longleftrightarrow> offered r feed e \<and> worth r skip e v" for v e
    by (auto simp: candidates_iff offered_def)
  show ?thesis
  proof (cases "max_by_key (?b @ ?s)")
    case None
    then have "\<not> (offered r feed e \<and> worth r skip e v)" for e v
      using mem [of v e] by (simp add: max_by_key_None)
    with None show ?thesis by (simp add: n)
  next
    case (Some x)
    obtain v e where x: "x = (v, e)" by (cases x)
    from max_by_key_last [OF Some] obtain as bs where ab: "?b @ ?s = as @ (v, e) # bs"
      "\<forall>y \<in> set as. fst y \<le> v" "\<forall>y \<in> set bs. fst y < v" unfolding x by auto
    have me: "offered r feed e \<and> worth r skip e v" using mem [of v e] ab(1) by simp
    have "v' \<le> v" if "offered r feed e' \<and> worth r skip e' v'" for e' v'
    proof -
      have "(v', e') \<in> set (as @ (v, e) # bs)" using mem [of v' e'] that ab(1) by simp
      then show ?thesis using ab(2,3) by force
    qed
    moreover have "e = e'" if "stable (channels feed) = Some e' \<and> worth r skip e' v" for e'
    proof -
      have "?s = [(v, e')]" using that by (simp add: candidates_def worth_def)
      then have "last (?b @ ?s) = (v, e')" by simp
      then have "last (as @ (v, e) # bs) = (v, e')" by (simp only: ab(1))
      then show ?thesis using ab(3) by (cases bs rule: rev_cases) auto
    qed
    ultimately show ?thesis using me by (auto simp: n Some x)
  qed
qed

text \<open>When the feed is asked: exactly when it was never asked, or the time of the last answer lies in
  the future, or the interval has passed.\<close>

lemma decide_waits_iff:
  "decide_check run skip feed asked now interval = Wait k n \<longleftrightarrow>
     (\<exists>t. asked = Some t \<and> t \<le> now \<and> now - t < int interval \<and> int k = int interval - (now - t)) \<and>
     n = notice_of (decide_check run skip feed asked now interval)"
  by (cases asked) (auto simp: decide_check_def duration_since_def Let_def)

lemma overall_percent_bounded:
  assumes "\<And>i. op = Some i \<Longrightarrow> unat i < 42949672"
  shows "overall_percent p op n \<le> 100"
proof (cases op; cases n)
  fix i k assume o: "op = Some i" "n = Some k"
  have i: "unat i < 42949672" using assms o by simp
  have m: "unat (min p 100) \<le> 100" by (simp add: min_def word_le_nat_alt)
  have "unat (i * 100 + min p 100) = unat i * 100 + unat (min p 100)"
  proof -
    have "unat (i * 100) = unat i * 100" using i by (simp add: unat_mult_lem [THEN iffD1])
    then show ?thesis using i m by (subst unat_add_lem [THEN iffD1]) simp_all
  qed
  moreover have "(unat i * 100 + unat (min p 100)) div unat k \<le> 100" if "i < k"
  proof -
    have "Suc (unat i) \<le> unat k" using that by (simp add: word_less_nat_alt)
    then have "unat i * 100 + unat (min p 100) \<le> 100 * unat k" using m by simp
    then show ?thesis by (metis div_le_mono div_mult_self1_is_m le_zero_eq mult.commute not_le_imp_less zero_le div_by_0)
  qed
  ultimately show ?thesis
    using o i m by (auto simp: overall_percent_def saturating_mul32_def Let_def word_le_nat_alt unat_div)
qed (simp_all add: overall_percent_def Let_def)

text \<open>The sum of the saturated product and the percent may still overflow.\<close>

lemma overall_percent_overflows:
  "overall_percent 99 (Some 42949672) (Some 42949673) = 0"
  by (simp add: overall_percent_def saturating_mul32_def)

section \<open>The monitor\<close>

text \<open>
  What holds after \<open>n\<close> callbacks, as long as the 32 bits of the generation do not wrap: calls in
  flight are of no later generation, one of them is of the current one exactly while a start is
  marked, and the monitor objects open at the portal are the one held, if any.
\<close>

definition starts_ok :: "MonitorWorld \<Rightarrow> bool" where
  "starts_ok w \<longleftrightarrow> (\<forall>g \<in> set (starts w). g \<le> generation (mon w)) \<and>
     count_list (starts w) (generation (mon w)) = (if starting (mon w) then 1 else 0)"

definition handles_ok :: "MonitorWorld \<Rightarrow> bool" where
  "handles_ok w \<longleftrightarrow> opened w = set_option (handle (mon w)) \<and>
     (handle (mon w) \<noteq> None \<longrightarrow> conn (mon w) \<and> \<not> starting (mon w)) \<and>
     (\<not> check_on w \<longrightarrow> handle (mon w) = None \<and> \<not> starting (mon w)) \<and>
     (\<forall>h. handle (mon w) = Some h \<longrightarrow> h < next_handle w)"

definition calls_ok :: "MonitorWorld \<Rightarrow> bool" where
  "calls_ok w \<longleftrightarrow> (is_running (state (mon w)) \<longrightarrow> heard (mon w) \<in> set (stalls w)) \<and>
     (quit w \<or> spawns w = (if restarting (mon w) then 1 else 0)) \<and> spawns w \<le> 1"

definition later_ok :: "MonitorWorld \<Rightarrow> bool" where
  "later_ok w \<longleftrightarrow>
     read_dismissed (later_file w) = (dismissed (state (mon w)), dismissed_version (state (mon w))) \<and>
     graphic (remote (state (mon w))) \<and> graphic (feed_version (state (mon w)))"

definition monitor_ok :: "nat \<Rightarrow> MonitorWorld \<Rightarrow> bool" where
  "monitor_ok n w \<longleftrightarrow> unat (generation (mon w)) \<le> Suc (2 * n) \<and> starts_ok w \<and> handles_ok w \<and> calls_ok w \<and> later_ok w"

lemmas monitor_defs = starts_ok_def handles_ok_def calls_ok_def later_ok_def

lemma on_state_fields [simp]:
  "check_on (on_state f w) = check_on w" "build (on_state f w) = build w"
  "later_file (on_state f w) = later_file w" "starts (on_state f w) = starts w"
  "feeds (on_state f w) = feeds w" "holds (on_state f w) = holds w" "stalls (on_state f w) = stalls w"
  "updates (on_state f w) = updates w" "spawns (on_state f w) = spawns w" "opened (on_state f w) = opened w"
  "next_handle (on_state f w) = next_handle w" "quit (on_state f w) = quit w"
  "mon (on_state f w) = (mon w)\<lparr>state := f (state (mon w))\<rparr>"
  by (simp_all add: on_state_def)

lemma starts_ok_state [simp]: "starts_ok (on_state f w) = starts_ok w"
  and handles_ok_state [simp]: "handles_ok (on_state f w) = handles_ok w"
  by (simp_all add: monitor_defs)

subsection \<open>What the file keeps\<close>

lemma graphic_no_newline: "graphic s \<Longrightarrow> CHR 0x0A \<notin> set s \<and> strip_cr s = s"
proof -
  assume g: "graphic s"
  have "last s \<noteq> CHR 0x0D" if "s \<noteq> []"
    using g last_in_set [OF that] by (auto simp: graphic_def list_all_iff)
  then show ?thesis using g by (auto simp: graphic_def list_all_iff strip_cr_def)
qed

lemma read_dismissed_text [simp]:
  assumes "graphic c" "graphic v"
  shows "read_dismissed (dismissed_text c v) = (c, v)"
proof -
  have "str_lines (dismissed_text c v) = [c, v]"
    using assms str_lines_Cons [of c "v @ [CHR 0x0A]"] str_lines_Cons [of v "[]"]
    by (simp add: dismissed_text_def graphic_no_newline)
  moreover have "str_trim c = c" "str_trim v = v"
    using assms by (simp_all add: graphic_def str_trim_graphic)
  ultimately show ?thesis by (simp add: read_dismissed_def nth_or_empty_def)
qed

lemma graphic_digits: "list_all is_ascii_digit s \<Longrightarrow> graphic s"
  by (auto simp: graphic_def is_ascii_digit_def list_all_iff)

lemma graphic_append [simp]: "graphic (a @ b) \<longleftrightarrow> graphic a \<and> graphic b"
  by (simp add: graphic_def)

lemma graphic_simps [simp]:
  "graphic []" "graphic (c # s) \<longleftrightarrow> 32 < code c \<and> code c < 0x80 \<and> graphic s"
  by (simp_all add: graphic_def)

lemma parse_version_graphic:
  assumes "parse_version s = Some v"
  shows "graphic s"
proof -
  obtain a b c st where v: "v = Version a b c st" by (cases v)
  from parse_version_core [of s a b c st] assms v
  have "core_text a b c (takeWhile core_char (unmarked s))" "stage_text (dropWhile core_char (unmarked s)) st"
    by auto
  moreover have "graphic t" if "core_text a b c t" for t
    using that by (auto simp: core_text_def number_iff graphic_digits)
  moreover have "graphic t" if "stage_text t st" for t
    using that by cases (auto simp: number_iff graphic_digits)
  ultimately have "graphic (unmarked s)"
    by (metis graphic_append takeWhile_dropWhile_id)
  moreover have "s = unmarked s \<or> s = ''v'' @ unmarked s"
    by (auto simp: unmarked_def strip_prefix_iff split: option.split)
  moreover have "graphic ''v''" by simp
  ultimately show ?thesis by (metis graphic_append)
qed

lemma feed_newer_graphic: "feed_newer r b f = Some v \<Longrightarrow> graphic v"
  by (auto simp: feed_newer_def parse_version_graphic split: option.splits if_splits)

subsection \<open>Every callback keeps it\<close>

lemma later_ok_eq:
  "later_file w' = later_file w \<Longrightarrow> dismissed (state (mon w')) = dismissed (state (mon w)) \<Longrightarrow>
   dismissed_version (state (mon w')) = dismissed_version (state (mon w)) \<Longrightarrow>
   graphic (remote (state (mon w'))) \<Longrightarrow> graphic (feed_version (state (mon w'))) \<Longrightarrow>
   later_ok w \<Longrightarrow> later_ok w'"
  by (simp add: later_ok_def)

lemma generation_Suc: "unat g < 2 ^ 32 - 1 \<Longrightarrow> unat (g + 1 :: u32) = Suc (unat g)"
  by (simp add: unat_add_lem [THEN iffD1])

text \<open>The invariant but for the setting, which may just have changed.\<close>

definition open_ok :: "MonitorWorld \<Rightarrow> bool" where
  "open_ok w \<longleftrightarrow> opened w = set_option (handle (mon w)) \<and>
     (handle (mon w) \<noteq> None \<longrightarrow> conn (mon w) \<and> \<not> starting (mon w)) \<and>
     (\<forall>h. handle (mon w) = Some h \<longrightarrow> h < next_handle w)"

lemma handles_ok_open: "handles_ok w \<longleftrightarrow> open_ok w \<and> (\<not> check_on w \<longrightarrow> handle (mon w) = None \<and> \<not> starting (mon w))"
  by (auto simp: handles_ok_def open_ok_def)

lemma close_monitor_eq:
  assumes "open_ok w"
  shows "close_monitor w =
    w\<lparr>mon := (mon w)\<lparr>generation := generation (mon w) + 1, starting := False, handle := None\<rparr>, opened := {}\<rparr>"
proof (rule MonitorWorld.equality)
  show "opened (close_monitor w) = opened (w\<lparr>mon := (mon w)\<lparr>generation := generation (mon w) + 1,
      starting := False, handle := None\<rparr>, opened := {}\<rparr>)"
    using assms by (cases "handle (mon w)")
      (simp_all add: close_monitor_def close_handle_def open_ok_def Let_def split: bool.split)
qed (simp_all add: close_monitor_def close_handle_def Let_def split: bool.split option.split)

lemma close_monitor_starts:
  assumes "starts_ok w" "open_ok w" "unat (generation (mon w)) < 2 ^ 32 - 1"
  shows "starts_ok (close_monitor w)"
proof -
  have u: "unat (generation (mon w) + 1) = Suc (unat (generation (mon w)))"
    by (rule generation_Suc [OF assms(3)])
  then have "\<forall>g \<in> set (starts w). g < generation (mon w) + 1"
    using assms(1) by (auto simp: starts_ok_def word_less_nat_alt word_le_nat_alt)
  then have "\<forall>g \<in> set (starts w). g \<le> generation (mon w) + 1" "generation (mon w) + 1 \<notin> set (starts w)"
    by (auto simp: order_less_imp_le)
  then show ?thesis by (simp add: starts_ok_def close_monitor_eq [OF assms(2)] count_list_0_iff)
qed

lemma refresh_ok:
  assumes "starts_ok w" "open_ok w" "calls_ok w" "later_ok w" "unat (generation (mon w)) < 2 ^ 32 - 1"
  shows "starts_ok (refresh w) \<and> handles_ok (refresh w) \<and> calls_ok (refresh w) \<and> later_ok (refresh w) \<and>
    unat (generation (mon (refresh w))) \<le> Suc (unat (generation (mon w)))"
proof (cases "check_on w")
  case True
  then show ?thesis using assms
    by (auto simp: refresh_def starts_ok_def handles_ok_open open_ok_def calls_ok_def later_ok_def)
next
  case False
  note c = close_monitor_eq [OF assms(2)]
  have "starts_ok (close_monitor w)" by (rule close_monitor_starts [OF assms(1,2,5)])
  then show ?thesis
    using False assms generation_Suc [OF assms(5)]
    by (simp add: refresh_def handles_ok_open open_ok_def calls_ok_def later_ok_def
        is_running_def default_portal_def) (auto simp: c split: if_splits)
qed

lemma starts_remove1:
  "(\<forall>x \<in> set (starts w). x \<le> b) \<Longrightarrow> \<forall>x \<in> set (remove1 g (starts w)). x \<le> b"
  by (meson notin_set_remove1)

lemma start_answered_current:
  assumes "generation (mon w) = g"
  shows "start_answered g (Inl v) w = w\<lparr>starts := remove1 g (starts w),
      mon := (mon w)\<lparr>starting := False, state := (state (mon w))\<lparr>portal_version := v\<rparr>\<rparr>\<rparr>"
    and "start_answered g (Inr (h, v)) w = w\<lparr>starts := remove1 g (starts w), opened := insert h (opened w),
      next_handle := Suc h, mon := (mon w)\<lparr>starting := False, state := (state (mon w))\<lparr>portal_version := v\<rparr>,
        conn := True, handle := Some h\<rparr>, feeds := g # feeds w, holds := g # holds w\<rparr>"
  using assms by (simp_all add: start_answered_def on_state_def Let_def)

lemma start_answered_stale:
  assumes "generation (mon w) \<noteq> g"
  shows "start_answered g (Inl v) w = w\<lparr>starts := remove1 g (starts w)\<rparr>"
    and "start_answered g (Inr (h, v)) w = w\<lparr>starts := remove1 g (starts w), opened := opened w - {h},
      next_handle := Suc h\<rparr>"
  using assms by (simp_all add: start_answered_def close_handle_def Let_def)

lemma start_answered_ok:
  assumes "monitor_ok n w" "monitor_can w (StartAnswered g r)"
  shows "monitor_ok (Suc n) (start_answered g r w)"
proof -
  have ok: "unat (generation (mon w)) \<le> Suc (2 * n)" "starts_ok w" "handles_ok w" "calls_ok w" "later_ok w"
    using assms(1) by (simp_all add: monitor_ok_def)
  have le: "\<forall>x \<in> set (remove1 g (starts w)). x \<le> generation (mon w)"
    using ok(2) by (intro starts_remove1) (simp add: starts_ok_def)
  show ?thesis
  proof (cases "generation (mon w) = g")
    case True
    have "count_list (starts w) g \<noteq> 0" using assms(2) by (simp add: count_list_0_iff)
    then have st: "starting (mon w)" "count_list (remove1 g (starts w)) g = 0"
      using ok(2) True by (auto simp: starts_ok_def split: if_splits)
    have off: "handle (mon w) = None" "check_on w" "opened w = {}"
      using ok(3) st(1) by (auto simp: handles_ok_def)
    show ?thesis
    proof (cases r)
      case (Inl v)
      show ?thesis unfolding Inl start_answered_current [OF True]
        using ok le st off True
        by (simp add: monitor_ok_def starts_ok_def handles_ok_def calls_ok_def later_ok_def is_running_def)
    next
      case (Inr hv)
      obtain h v where hv: "hv = (h, v)" by (cases hv)
      show ?thesis unfolding Inr hv start_answered_current [OF True]
        using ok le st off True
        by (simp add: monitor_ok_def starts_ok_def handles_ok_def calls_ok_def later_ok_def is_running_def)
    qed
  next
    case False
    show ?thesis
    proof (cases r)
      case (Inl v)
      show ?thesis unfolding Inl start_answered_stale [OF False]
        using ok le False
        by (simp add: monitor_ok_def starts_ok_def handles_ok_def calls_ok_def later_ok_def)
    next
      case (Inr hv)
      obtain h v where hv: "hv = (h, v)" by (cases hv)
      have "next_handle w \<le> h" using assms(2) by (simp add: Inr hv)
      then have "opened w - {h} = opened w" "\<forall>k. handle (mon w) = Some k \<longrightarrow> k < Suc h"
        using ok(3) by (auto simp: handles_ok_def)
      then show ?thesis unfolding Inr hv start_answered_stale [OF False]
        using ok le False
        by (simp add: monitor_ok_def starts_ok_def handles_ok_def calls_ok_def later_ok_def)
    qed
  qed
qed

lemma watch_for_stall_ok:
  assumes "monitor_ok n (w\<lparr>mon := (mon w)\<lparr>state := (state (mon w))\<lparr>progress := None\<rparr>\<rparr>\<rparr>)"
  shows "monitor_ok n (watch_for_stall w)"
  using assms by (simp add: watch_for_stall_def monitor_ok_def starts_ok_def handles_ok_def calls_ok_def
      later_ok_def Let_def)

lemma monitor_ok_feed:
  "monitor_ok n w \<Longrightarrow> graphic f \<Longrightarrow> monitor_ok n (on_state (\<lambda>s. s\<lparr>feed_version := f\<rparr>) w)"
  by (simp add: monitor_ok_def starts_ok_def handles_ok_def calls_ok_def later_ok_def is_running_def)

lemma monitor_ok_flight:
  "monitor_ok n w \<Longrightarrow> monitor_ok (Suc n) (w\<lparr>feeds := x\<rparr>)"
  "monitor_ok n w \<Longrightarrow> monitor_ok (Suc n) (w\<lparr>holds := x\<rparr>)"
  by (simp_all add: monitor_ok_def starts_ok_def handles_ok_def calls_ok_def later_ok_def)

lemma feed_answered_ok: "monitor_ok n w \<Longrightarrow> monitor_ok (Suc n) (feed_answered g r w)"
  by (cases r) (simp_all add: feed_answered_def Let_def case_prod_unfold monitor_ok_flight monitor_ok_feed
      feed_newer_graphic split: option.split)

lemma feed_held_ok: "monitor_ok n w \<Longrightarrow> monitor_ok (Suc n) (feed_held g w)"
  by (simp add: feed_held_def Let_def monitor_ok_flight monitor_ok_feed)

lemma update_available_fields:
  "remote (fst (update_available s run loc rem)) = rem"
  "feed_version (fst (update_available s run loc rem)) = feed_version s"
  "dismissed_version (fst (update_available s run loc rem)) = dismissed_version s"
  "dismissed (fst (update_available s run loc rem)) =
     (if snd (update_available s run loc rem) then rem else dismissed s)"
  by (auto simp: update_available_def Let_def split: option.split)

lemma sig_update_available_ok:
  assumes "monitor_ok n w" "graphic rem"
  shows "monitor_ok (Suc n) (sig_update_available run loc rem w)"
proof -
  define s where "s = fst (update_available (state (mon w)) run loc rem)"
  define w1 where "w1 = (if snd (update_available (state (mon w)) run loc rem)
    then write_dismissed (on_state (\<lambda>_. s) w) (dismissed s) (dismissed_version s) else on_state (\<lambda>_. s) w)"
  have eq: "sig_update_available run loc rem w = watch_for_stall w1"
    by (simp add: sig_update_available_def w1_def s_def case_prod_unfold Let_def)
  have v: "graphic (dismissed_version s)" if "snd (update_available (state (mon w)) run loc rem)"
    using assms(1) that by (auto simp: s_def update_available_def monitor_ok_def later_ok_def Let_def split: option.split)
  have "starts_ok w1" "handles_ok w1" "unat (generation (mon w1)) \<le> Suc (2 * n)"
    using assms(1) by (simp_all add: w1_def write_dismissed_def monitor_ok_def starts_ok_def handles_ok_def)
  moreover have "later_ok w1"
    using assms v by (simp add: w1_def write_dismissed_def monitor_ok_def later_ok_def s_def update_available_fields)
  moreover have "quit w1 = quit w" "spawns w1 = spawns w" "restarting (mon w1) = restarting (mon w)"
    by (simp_all add: w1_def write_dismissed_def)
  ultimately show ?thesis
    using assms(1) unfolding eq
    by (intro watch_for_stall_ok)
      (simp add: monitor_ok_def starts_ok_def handles_ok_def calls_ok_def later_ok_def is_running_def)
qed

lemma sig_progress_ok: "monitor_ok n w \<Longrightarrow> monitor_ok (Suc n) (sig_progress st pr op k w)"
  unfolding sig_progress_def
  by (rule watch_for_stall_ok)
    (simp add: monitor_ok_def starts_ok_def handles_ok_def calls_ok_def later_ok_def is_running_def)

lemma update_now_ok: "monitor_ok n w \<Longrightarrow> monitor_ok (Suc n) (update_now w)"
proof (cases "conn (mon w) \<and> handle (mon w) \<noteq> None")
  case True
  assume "monitor_ok n w"
  then have "monitor_ok (Suc n) (watch_for_stall (on_state (\<lambda>s. s\<lparr>progress := Some (PROGRESS_RUNNING, 0)\<rparr>)
          (w\<lparr>updates := Suc (updates w)\<rparr>)))"
    by (intro watch_for_stall_ok)
      (simp add: monitor_ok_def starts_ok_def handles_ok_def calls_ok_def later_ok_def is_running_def)
  with True show ?thesis by (simp add: update_now_def)
qed (auto simp: update_now_def monitor_ok_def)

lemma update_answered_ok: "monitor_ok n w \<Longrightarrow> monitor_ok (Suc n) (update_answered ok w)"
  by (auto simp: update_answered_def monitor_ok_def starts_ok_def handles_ok_def calls_ok_def later_ok_def
      is_running_def Let_def PROGRESS_ERROR_def PROGRESS_RUNNING_def)

lemma answer_later_ok: "monitor_ok n w \<Longrightarrow> monitor_ok (Suc n) (answer_later w)"
  by (simp add: answer_later_def write_dismissed_def monitor_ok_def starts_ok_def handles_ok_def calls_ok_def
      later_ok_def is_running_def Let_def)

lemma restart_ok: "monitor_ok n w \<Longrightarrow> \<not> quit w \<Longrightarrow> monitor_ok (Suc n) (restart w)"
  by (auto simp: restart_def monitor_ok_def starts_ok_def handles_ok_def calls_ok_def later_ok_def)

lemma spawn_answered_ok:
  "monitor_ok n w \<Longrightarrow> \<not> quit w \<Longrightarrow> 0 < spawns w \<Longrightarrow> monitor_ok (Suc n) (spawn_answered ok w)"
  by (auto simp: spawn_answered_def monitor_ok_def starts_ok_def handles_ok_def calls_ok_def later_ok_def
      Let_def split: if_splits)

lemma set_check_ok:
  assumes "monitor_ok n w" "2 * n + 4 < 2 ^ 32"
  shows "monitor_ok (Suc n) (refresh (w\<lparr>check_on := b\<rparr>))"
proof -
  let ?w = "w\<lparr>check_on := b\<rparr>"
  have "starts_ok ?w" "open_ok ?w" "calls_ok ?w" "later_ok ?w" "unat (generation (mon ?w)) < 2 ^ 32 - 1"
    using assms by (simp_all add: monitor_ok_def starts_ok_def handles_ok_def open_ok_def calls_ok_def later_ok_def)
  from refresh_ok [OF this] show ?thesis using assms(1) by (simp add: monitor_ok_def)
qed

lemma stall_timer_ok:
  assumes "monitor_ok n w" "2 * n + 4 < 2 ^ 32"
  shows "monitor_ok (Suc n) (stall_timer serial w)"
proof -
  let ?v = "w\<lparr>stalls := remove1 serial (stalls w)\<rparr>"
  have o: "open_ok ?v" using assms(1) by (simp add: monitor_ok_def handles_ok_open open_ok_def)
  show ?thesis
  proof (cases "heard (mon w) = serial \<and> is_running (state (mon w))")
    case True
    let ?w = "on_state (\<lambda>s. s\<lparr>progress := None\<rparr>) (close_monitor ?v)"
    have g: "unat (generation (mon w)) < 2 ^ 32 - 1" using assms by (simp add: monitor_ok_def)
    have "starts_ok (close_monitor ?v)"
      by (rule close_monitor_starts [OF _ o]) (use assms(1) g in \<open>simp_all add: monitor_ok_def starts_ok_def\<close>)
    moreover have "open_ok ?w"
      by (simp add: close_monitor_eq [OF o] open_ok_def)
    moreover have "calls_ok ?w" "later_ok ?w"
      using assms(1) by (simp_all add: close_monitor_eq [OF o] monitor_ok_def calls_ok_def later_ok_def is_running_def)
    moreover have u: "unat (generation (mon ?w)) = Suc (unat (generation (mon w)))"
      using generation_Suc [OF g] by (simp add: close_monitor_eq [OF o])
    moreover have "unat (generation (mon ?w)) < 2 ^ 32 - 1"
      using assms unfolding u monitor_ok_def by linarith
    ultimately have "starts_ok (refresh ?w) \<and> handles_ok (refresh ?w) \<and> calls_ok (refresh ?w) \<and>
        later_ok (refresh ?w) \<and> unat (generation (mon (refresh ?w))) \<le> Suc (unat (generation (mon ?w)))"
      using refresh_ok [of ?w] by (simp only: starts_ok_state simp_thms)
    then show ?thesis using True assms(1) u by (simp add: stall_timer_def monitor_ok_def Let_def)
  next
    case False
    then have "is_running (state (mon w)) \<Longrightarrow> heard (mon w) \<in> set (remove1 serial (stalls w))"
      using assms(1) by (simp add: monitor_ok_def calls_ok_def in_set_remove1)
    then show ?thesis
      using False assms(1) by (auto simp: stall_timer_def monitor_ok_def starts_ok_def handles_ok_def
          calls_ok_def later_ok_def Let_def)
  qed
qed

lemma monitor_handle_ok:
  assumes "monitor_ok n w" "monitor_can w e" "\<not> quit w" "2 * n + 4 < 2 ^ 32"
  shows "monitor_ok (Suc n) (monitor_handle w e)"
proof (cases e)
  case (StartAnswered g r)
  then show ?thesis using start_answered_ok assms by simp
qed (use assms in \<open>simp_all add: set_check_ok stall_timer_ok feed_answered_ok feed_held_ok sig_update_available_ok
    sig_progress_ok update_now_ok update_answered_ok answer_later_ok restart_ok spawn_answered_ok\<close>)

lemma start_world_ok: "monitor_ok 0 (start_world ver on kept)"
proof -
  let ?w = "\<lparr>mon = default_monitor\<lparr>state := default_portal\<lparr>dismissed := fst (read_dismissed kept),
      dismissed_version := snd (read_dismissed kept)\<rparr>\<rparr>,
    check_on = on, build = ver, later_file = kept, starts = [], feeds = [], holds = [], stalls = [], updates = 0,
    spawns = 0, opened = {}, next_handle = 0, quit = False\<rparr> :: MonitorWorld"
  have "starts_ok ?w" "open_ok ?w" "calls_ok ?w" "later_ok ?w" "unat (generation (mon ?w)) < 2 ^ 32 - 1"
    by (simp_all add: starts_ok_def open_ok_def calls_ok_def later_ok_def default_monitor_def default_portal_def
        is_running_def)
  from refresh_ok [OF this] show ?thesis
    by (simp add: start_world_def case_prod_unfold Let_def monitor_ok_def default_monitor_def)
qed

lemma monitor_reachable_ok:
  "monitor_reachable ver on kept n w \<Longrightarrow> 2 * n + 4 < 2 ^ 32 \<Longrightarrow> monitor_ok n w"
proof (induction rule: monitor_reachable.induct)
  case monitor_start
  show ?case by (rule start_world_ok)
next
  case (monitor_next n w e)
  then show ?case by (intro monitor_handle_ok) simp_all
qed

section \<open>Properties of the monitor\<close>

text \<open>C24: In every state the monitor of the update check reaches, in whatever order calls are answered
  and the check is turned off and on, the monitor objects open at the portal are exactly the one the
  process holds, none while the check is off; at most one start of the current generation is in flight
  and none beside an open monitor; and at most one restart has been asked for.\<close>

theorem one_monitor_open:
  assumes "monitor_reachable ver on kept n w" and "n < 2 ^ 31 - 2"
  shows "opened w = set_option (handle (mon w)) \<and> (\<not> check_on w \<longrightarrow> opened w = {}) \<and>
    count_list (starts w) (generation (mon w)) \<le> 1 \<and>
    (opened w \<noteq> {} \<longrightarrow> generation (mon w) \<notin> set (starts w)) \<and> spawns w \<le> 1"
proof -
  have "monitor_ok n w" using assms by (intro monitor_reachable_ok) simp_all
  then have s: "starts_ok w" and h: "handles_ok w" and c: "calls_ok w" by (simp_all add: monitor_ok_def)
  have "opened w \<noteq> {} \<Longrightarrow> count_list (starts w) (generation (mon w)) = 0"
    using s h by (cases "handle (mon w)") (auto simp: starts_ok_def handles_ok_def)
  then show ?thesis
    using s h c by (auto simp: starts_ok_def handles_ok_def calls_ok_def count_list_0_iff)
qed

text \<open>C32: Whenever the banner says that an update is being installed, a timer is armed that no earlier
  word of the monitor has outdated; when it fires the update is given up, the monitor is closed, and
  where the check is on a new one is being opened.\<close>

theorem update_not_stuck:
  assumes "monitor_reachable ver on kept n w" and "n < 2 ^ 31 - 2"
    and "notice (check_on w) (state (mon w)) = Updating p"
  shows "monitor_can w (StallTimer (heard (mon w))) \<and>
    (let w' = monitor_handle w (StallTimer (heard (mon w)))
     in progress (state (mon w')) = None \<and> opened w' = {} \<and> starting (mon w'))"
proof -
  have ok: "monitor_ok n w" using assms(1,2) by (intro monitor_reachable_ok) simp_all
  have r: "is_running (state (mon w))" and on: "check_on w"
    using assms(3) by (auto simp: notice_def is_running_def commits_notice_def split: if_splits option.splits)
  let ?v = "w\<lparr>stalls := remove1 (heard (mon w)) (stalls w)\<rparr>"
  have o: "open_ok ?v" using ok by (simp add: monitor_ok_def handles_ok_open open_ok_def)
  show ?thesis
    using ok r on by (simp add: monitor_ok_def calls_ok_def stall_timer_def refresh_def close_monitor_eq [OF o] Let_def)
qed

lemma start_world_state:
  "state (mon (start_world ver on kept)) = default_portal
     \<lparr>dismissed := fst (read_dismissed kept), dismissed_version := snd (read_dismissed kept)\<rparr>"
  by (simp add: start_world_def case_prod_unfold Let_def refresh_def close_monitor_def default_monitor_def)

lemma not_available:
  "progress s = None \<Longrightarrow> \<not> update_out s \<Longrightarrow> notice b s \<noteq> Available"
  by (simp add: notice_def commits_notice_def)


section \<open>Witnesses\<close>

definition toy_entry :: "string \<Rightarrow> FeedEntry" where
  "toy_entry v = \<lparr>entry_version = v, entry_date = [], notes_url = [], downloads = []\<rparr>"

definition toy_feed :: Feed where
  "toy_feed = \<lparr>schema = 1, channels =
     \<lparr>stable = Some (toy_entry ''1.4.1''), beta = Some (toy_entry ''v1.4.1rc2'')\<rparr>\<rparr>"

lemmas version_eval = parse_version_def core_char_def is_ascii_digit_def number_def parse_uint_def
  dec_value_def digit_val_def parse_stage_def

lemma toy_versions:
  "parse_version ''1.4.1'' = Some (Version 1 4 1 Release)"
  "parse_version ''v1.4.1rc2'' = Some (Version 1 4 1 (Rc 2))"
  "parse_version ''1.4.1b1'' = Some (Version 1 4 1 (Beta 1))"
  "parse_version '''' = None"
  by (simp_all add: version_eval)

lemma version_less_simps [simp]:
  "Version a b c s < Version a b c t \<longleftrightarrow> s < t" "Beta k < Rc m" "Beta k < Release" "Rc k < Release"
  by (auto simp: less_Version_def less_eq_Version_def less_Stage_def)

theorem notice_is_newest_witness:
  "notice_of (decide_check ''1.4.1b1'' '''' (Some toy_feed) None 0 5) = Some (toy_entry ''1.4.1'') \<and>
   (\<exists>v. worth (Version 1 4 1 (Beta 1)) '''' (toy_entry ''1.4.1'') v)"
proof -
  have d: "notice_of (decide_check ''1.4.1b1'' '''' (Some toy_feed) None 0 5) = Some (toy_entry ''1.4.1'')"
    by (simp add: decide_check_def newer_than_def toy_feed_def toy_entry_def toy_versions is_prerelease_def
        not_less_iff_gr_or_eq)
  with notice_is_newest [OF toy_versions(3), where skip = "''''" and feed = toy_feed and asked = None and now = 0 and interval = 5] show ?thesis by auto
qed

text \<open>A monitor is opened, the feed is read, the portal reports a commit, and the user updates.\<close>

definition toy_events :: "MonitorEvent list" where
  "toy_events = [StartAnswered 0 (Inr (0, 2)), FeedAnswered 0 (Some (''stable'', toy_feed)),
     SigUpdateAvailable ''a'' ''a'' ''b'', PressUpdate]"

fun monitor_run :: "MonitorWorld \<Rightarrow> MonitorEvent list \<Rightarrow> MonitorWorld option" where
  "monitor_run w [] = Some w"
| "monitor_run w (e # es) = (if \<not> quit w \<and> monitor_can w e then monitor_run (monitor_handle w e) es else None)"

lemma monitor_run_reachable:
  "monitor_reachable ver on kept n w \<Longrightarrow> monitor_run w es = Some w' \<Longrightarrow>
   monitor_reachable ver on kept (n + length es) w'"
proof (induction es arbitrary: n w)
  case (Cons e es)
  then have "monitor_reachable ver on kept (Suc n) (monitor_handle w e)"
    by (auto intro: monitor_next split: if_splits)
  with Cons show ?case by (auto split: if_splits) (metis add_Suc_right add_Suc)
qed simp

definition toy_world :: MonitorWorld where
  "toy_world = \<lparr>mon = \<lparr>state = \<lparr>portal_version = 2, running = ''a'', local = ''a'', remote = ''b'',
       progress = Some (0, 0), feed_version = ''1.4.1'', dismissed = [], dismissed_version = []\<rparr>,
       conn = True, handle = Some 0, generation = 0, starting = False, heard = 2, restarting = False\<rparr>,
     check_on = True, build = ''1.4.1b1'', later_file = [], starts = [], feeds = [], holds = [0],
     stalls = [2, 1], updates = 1, spawns = 0, opened = {0}, next_handle = 1, quit = False\<rparr>"

lemma toy_run: "monitor_run (start_world ''1.4.1b1'' True '''') toy_events = Some toy_world"
  by (simp add: toy_events_def toy_world_def start_world_def read_dismissed_def nth_or_empty_def refresh_def
      default_monitor_def default_portal_def start_answered_def on_state_def feed_answered_def feed_newer_def
      toy_feed_def toy_entry_def toy_versions sig_update_available_def update_available_def watch_for_stall_def
      update_now_def MIN_PORTAL_VERSION_def PROGRESS_RUNNING_def)

lemma toy_monitor_reachable: "monitor_reachable ''1.4.1b1'' True '''' 4 toy_world"
  using monitor_run_reachable [OF monitor_start toy_run] by (simp add: toy_events_def eval_nat_numeral)

lemma toy_world_state:
  "opened toy_world = {0}" "notice (check_on toy_world) (state (mon toy_world)) = Updating 0"
  "remote (state (mon toy_world)) = ''b''" "feed_version (state (mon toy_world)) = ''1.4.1''"
  by (simp_all add: toy_world_def notice_def MIN_PORTAL_VERSION_def PROGRESS_RUNNING_def)

theorem one_monitor_open_witness: "opened toy_world = set_option (handle (mon toy_world)) \<and> opened toy_world = {0}"
  using one_monitor_open [OF toy_monitor_reachable] toy_world_state(1) by simp

theorem update_not_stuck_witness:
  "monitor_can toy_world (StallTimer (heard (mon toy_world))) \<and>
   opened (monitor_handle toy_world (StallTimer (heard (mon toy_world)))) = {}"
  using update_not_stuck [OF toy_monitor_reachable _ toy_world_state(2)] by (simp add: Let_def)


end
