(* ===== verification/Bookmarks.thy ===== *)
theory Bookmarks
  imports Hx_Text
begin

text \<open>
  The bookmarks (\<open>hxbookmarks/src\<close>): the cipher bytes, the splitting and joining of host and port, the
  legacy file of 460 bytes, the ordered store with its operations, and its file with the operations
  that \<open>gtkhx-ui/src/bookmark_store.rs\<close> offers over it.  A file is a text of bytes.  The TOML reader
  and writer are a parameter, \<open>TomlCodec\<close>, and what each file operation meets is an argument.
\<close>

section \<open>Cipher bytes\<close>

definition NONE :: u8 where "NONE = 0"
definition RC4 :: u8 where "RC4 = 1"
definition BLOWFISH :: u8 where "BLOWFISH = 2"
definition CHACHA20_POLY1305 :: u8 where "CHACHA20_POLY1305 = 3"

definition TABLE :: "string option list" where
  "TABLE = [None, Some ''RC4'', Some ''BLOWFISH'', Some ''CHACHA20-POLY1305'']"

definition cipher_name :: "u8 \<Rightarrow> string option" where
  "cipher_name b = (case get_at TABLE (unat b) of None \<Rightarrow> None | Some e \<Rightarrow> e)"

definition byte_from_name :: "string \<Rightarrow> u8" where
  "byte_from_name n =
     (if n = [] then NONE
      else case filter (\<lambda>(i, e). e = Some n) (drop 1 (enumerate 0 TABLE)) of
             [] \<Rightarrow> NONE
           | (i, _) # _ \<Rightarrow> of_nat i)"

section \<open>Host and port\<close>

definition valid_port :: "string \<Rightarrow> bool" where
  "valid_port p \<longleftrightarrow> p \<noteq> [] \<and> list_all is_ascii_digit p \<and>
     (case parse_uint 32 p of None \<Rightarrow> False | Some n \<Rightarrow> 1 \<le> n \<and> n \<le> 65535)"

definition split_bracket :: "string \<Rightarrow> string \<Rightarrow> string \<times> string" where
  "split_bracket s rest =
     (case split_once CHR '']'' rest of
        None \<Rightarrow> (s, [])
      | Some (host, after) \<Rightarrow>
          if after = [] then (host, [])
          else case strip_prefix '':'' after of
                 None \<Rightarrow> (s, [])
               | Some p \<Rightarrow> if valid_port p then (host, p) else (s, []))"

definition split_host :: "string \<Rightarrow> string \<times> string" where
  "split_host s =
     (let s = str_trim s
      in if s = [] then ([], [])
         else case strip_prefix ''['' s of
                Some rest \<Rightarrow> split_bracket s rest
              | None \<Rightarrow>
                  if count_list s (CHR '':'') = 1 then
                    (case split_once (CHR '':'') s of
                       None \<Rightarrow> (s, [])
                     | Some (h, p) \<Rightarrow> if valid_port p then (h, p) else (s, []))
                  else (s, []))"

definition join_host :: "string \<Rightarrow> string \<Rightarrow> string" where
  "join_host host port = (if port = [] then host else host @ '':'' @ port)"

section \<open>A bookmark and its legacy file\<close>

record Bookmark =
  bm_name :: string
  server :: string
  port :: string
  login :: string
  password :: string
  hope :: bool
  compress :: u8
  cipher :: u8
  tls :: bool
  nick :: "string option"
  icon :: "u16 option"

definition default_bookmark :: Bookmark where
  "default_bookmark =
     \<lparr>bm_name = [], server = [], port = [], login = [], password = [], hope = False, compress = 0,
      cipher = 0, tls = False, nick = None, icon = None\<rparr>"

definition byte_char :: "nat \<Rightarrow> char" where
  "byte_char n = char_of n"

definition char_byte :: "char \<Rightarrow> u8" where
  "char_byte c = of_nat (code c)"

definition NUL :: char where "NUL = byte_char 0"

definition cstr_field :: "string \<Rightarrow> string" where
  "cstr_field field = utf8_lossy (takeWhile (\<lambda>c. c \<noteq> NUL) field)"

definition obind :: "'a option \<Rightarrow> ('a \<Rightarrow> 'b option) \<Rightarrow> 'b option" where
  "obind x f = (case x of None \<Rightarrow> None | Some a \<Rightarrow> f a)"

definition parse_htsc :: "string \<Rightarrow> Bookmark option" where
  "parse_htsc bytes =
     (if length bytes < 4 \<or> take 4 bytes \<noteq> ''HTsc'' then None
      else obind (get_range bytes 136 169) (\<lambda>lf.
           obind (get_range bytes 170 203) (\<lambda>pf.
           obind (get_at bytes 203) (\<lambda>lc. let len = code lc in
           obind (get_range bytes 204 (204 + len)) (\<lambda>raw.
           obind (get_at bytes (204 + len)) (\<lambda>secure.
           obind (get_at bytes (205 + len)) (\<lambda>comp.
           obind (get_at bytes (206 + len)) (\<lambda>ciph.
             let t = (case get_at bytes (207 + len) of None \<Rightarrow> NUL | Some t \<Rightarrow> t);
                 (host, prt) = split_host (utf8_lossy raw)
             in Some \<lparr>bm_name = [], server = host, port = prt, login = cstr_field lf,
                      password = cstr_field pf, hope = secure \<noteq> NUL, compress = char_byte comp,
                      cipher = char_byte ciph, tls = t \<noteq> NUL, nick = None, icon = None\<rparr>))))))))"

definition write_field :: "string \<Rightarrow> string" where
  "write_field s =
     (let len = min (length s) 32
      in [byte_char len] @ take len s @ replicate (33 - len) NUL)"

definition flag_byte :: "bool \<Rightarrow> char" where
  "flag_byte b = byte_char (if b then 1 else 0)"

definition write_htsc :: "Bookmark \<Rightarrow> string" where
  "write_htsc bm =
     (let s = join_host (server bm) (port bm);
          len = min (length s) 251
      in ''HTsc'' @ [NUL, byte_char 1] @ replicate 129 NUL @
         write_field (login bm) @ write_field (password bm) @
         [byte_char len] @ take len s @
         [flag_byte (hope bm), byte_char (unat (compress bm)), byte_char (unat (cipher bm)), flag_byte (tls bm)] @
         replicate (256 - len - 4) NUL)"

definition safe_filename :: "string \<Rightarrow> string" where
  "safe_filename n = map (\<lambda>c. if c = CHR ''/'' then CHR 0x5C else c) n"

text \<open>
  A directory is the list of its files in the order of their names, each with its contents or none
  where it cannot be read.  A file's name is lossily decoded.
\<close>

definition import_file :: "string \<times> string option \<Rightarrow> Bookmark list" where
  "import_file = (\<lambda>(fname, contents).
     let fname = utf8_lossy fname
     in if starts_with ''.'' fname then []
        else case contents of
               None \<Rightarrow> []
             | Some bytes \<Rightarrow> (case parse_htsc bytes of None \<Rightarrow> [] | Some bm \<Rightarrow> [bm\<lparr>bm_name := fname\<rparr>]))"

definition import_dir :: "(string \<times> string option) list option \<Rightarrow> Bookmark list" where
  "import_dir rd = (case rd of None \<Rightarrow> [] | Some entries \<Rightarrow> concat (map import_file entries))"

text \<open>
  Exporting into a directory that exists; \<open>writable\<close> says which names can be written, and an
  error ends the export with the files written so far.
\<close>

fun export_all ::
  "(string \<Rightarrow> bool) \<Rightarrow> Bookmark list \<Rightarrow> nat \<Rightarrow> (string \<Rightarrow> string option) \<Rightarrow> nat option \<times> (string \<Rightarrow> string option)" where
  "export_all writable [] n d = (Some n, d)"
| "export_all writable (bm # bms) n d =
     (if bm_name bm = [] then export_all writable bms n d
      else let path = safe_filename (bm_name bm)
           in if writable path then export_all writable bms (Suc n) (d(path \<mapsto> write_htsc bm))
              else (None, d))"

section \<open>The store\<close>

definition STORE_VERSION :: u32 where "STORE_VERSION = 1"

record Store =
  version :: u32
  bookmarks :: "Bookmark list"

definition default_store :: Store where
  "default_store = \<lparr>version = STORE_VERSION, bookmarks = []\<rparr>"

definition find_bookmark :: "Store \<Rightarrow> string \<Rightarrow> Bookmark option" where
  "find_bookmark st n = List.find (\<lambda>b. bm_name b = n) (bookmarks st)"

definition names :: "Store \<Rightarrow> string list" where
  "names st = map bm_name (bookmarks st)"

text \<open>\<open>iter_mut().find(...)\<close>: the first that matches is changed.\<close>

fun update_matching :: "(Bookmark \<Rightarrow> bool) \<Rightarrow> (Bookmark \<Rightarrow> Bookmark) \<Rightarrow> Bookmark list \<Rightarrow> Bookmark list option" where
  "update_matching P f [] = None"
| "update_matching P f (b # bs) = (if P b then Some (f b # bs) else map_option ((#) b) (update_matching P f bs))"

definition upsert :: "Store \<Rightarrow> Bookmark \<Rightarrow> Store \<times> bool" where
  "upsert st bm =
     (if bm_name bm = [] then (st, False)
      else case update_matching (\<lambda>b. bm_name b = bm_name bm) (\<lambda>_. bm) (bookmarks st) of
             Some bs \<Rightarrow> (st\<lparr>bookmarks := bs\<rparr>, True)
           | None \<Rightarrow> (st\<lparr>bookmarks := bookmarks st @ [bm]\<rparr>, True))"

definition remove_bookmark :: "Store \<Rightarrow> string \<Rightarrow> Store \<times> bool" where
  "remove_bookmark st n =
     (let before = length (bookmarks st);
          bs = filter (\<lambda>b. bm_name b \<noteq> n) (bookmarks st)
      in (st\<lparr>bookmarks := bs\<rparr>, length bs \<noteq> before))"

datatype RenameError = NotFound | Exists | EmptyName

definition rename_bookmark :: "Store \<Rightarrow> string \<Rightarrow> string \<Rightarrow> Store \<times> (RenameError + unit)" where
  "rename_bookmark st old new =
     (if old = new then (st, Inr ())
      else if new = [] then (st, Inl EmptyName)
      else if find_bookmark st new \<noteq> None then (st, Inl Exists)
      else case update_matching (\<lambda>b. bm_name b = old) (\<lambda>b. b\<lparr>bm_name := new\<rparr>) (bookmarks st) of
             None \<Rightarrow> (st, Inl NotFound)
           | Some bs \<Rightarrow> (st\<lparr>bookmarks := bs\<rparr>, Inr ()))"

definition builtin :: "string \<Rightarrow> string \<Rightarrow> bool \<Rightarrow> Bookmark" where
  "builtin n host secure =
     default_bookmark\<lparr>bm_name := n, server := host, tls := secure, port := (if secure then ''5600'' else [])\<rparr>"

definition builtins :: "Bookmark list" where
  "builtins =
     [builtin ''Hotline Central Hub'' ''server.bigredh.com'' True,
      builtin ''Hotline Communications'' ''hlserver.com'' False,
      builtin ''chatonly.org'' ''chatonly.org'' False,
      builtin ''Classic Macs Hotline Server'' ''macos.retro-os.live'' True,
      builtin ''Mobius Strip'' ''hotline.morphing.cloud'' False,
      builtin ''VesperNet'' ''hotline.vespernet.net'' True]"

text \<open>A bookmark whose name is taken is not added.\<close>

definition add_new :: "Store \<Rightarrow> Bookmark \<Rightarrow> Store" where
  "add_new st bm =
     (if find_bookmark st (bm_name bm) = None then st\<lparr>bookmarks := bookmarks st @ [bm]\<rparr> else st)"

definition bootstrap :: "(string \<times> string option) list option list \<Rightarrow> Store" where
  "bootstrap dirs =
     (let st = foldl add_new default_store (concat (map import_dir dirs))
      in foldl add_new st builtins)"

section \<open>The file of the store\<close>

record TomlCodec =
  from_toml :: "string \<Rightarrow> string + Store"
  to_toml :: "Store \<Rightarrow> string + string"

text \<open>\<open>toml_file\<close> is \<open>bookmarks.toml\<close>, with whether it can be read; \<open>toml_tmp\<close> the temporary file.\<close>

record BookmarkDisk =
  toml_file :: "string option"
  toml_readable :: bool
  toml_tmp :: "string option"
  legacy :: "(string \<times> string option) list option list"

text \<open>What a save meets: each step may fail, and a write that fails may leave a part of the text.\<close>

record SaveIo =
  mkdir_ok :: bool
  write_ok :: bool
  partial :: "string option"
  rename_ok :: bool
  unlink_ok :: bool

definition save :: "TomlCodec \<Rightarrow> SaveIo \<Rightarrow> BookmarkDisk \<Rightarrow> Store \<Rightarrow> BookmarkDisk \<times> (string + unit)" where
  "save T io d st =
     (if \<not> mkdir_ok io then (d, Inl ''mkdir'')
      else case to_toml T st of
             Inl e \<Rightarrow> (d, Inl e)
           | Inr doc \<Rightarrow>
               if \<not> write_ok io then (case partial io of None \<Rightarrow> d | Some p \<Rightarrow> d\<lparr>toml_tmp := Some p\<rparr>, Inl ''write'')
               else let d = d\<lparr>toml_tmp := Some doc\<rparr>
                    in if rename_ok io
                       then (d\<lparr>toml_file := Some doc, toml_readable := True, toml_tmp := None\<rparr>, Inr ())
                       else (if unlink_ok io then d\<lparr>toml_tmp := None\<rparr> else d, Inl ''rename''))"

definition load_or_bootstrap :: "TomlCodec \<Rightarrow> SaveIo \<Rightarrow> BookmarkDisk \<Rightarrow> BookmarkDisk \<times> (string + Store)" where
  "load_or_bootstrap T io d =
     (case toml_file d of
        Some doc \<Rightarrow>
          (d, if \<not> toml_readable d then Inl ''read'' else from_toml T doc)
      | None \<Rightarrow>
          let st = bootstrap (legacy d); (d, _) = save T io d st
          in (d, Inr st))"

section \<open>The operations of the application\<close>

datatype BookmarkOp = Upsert Bookmark | Delete string | Rename string string

fun rename_text :: "RenameError \<Rightarrow> string" where
  "rename_text NotFound = ''no such bookmark''"
| "rename_text Exists = ''a bookmark with that name already exists''"
| "rename_text EmptyName = ''bookmark name required''"

definition store_upsert ::
  "TomlCodec \<Rightarrow> SaveIo \<Rightarrow> SaveIo \<Rightarrow> BookmarkDisk \<Rightarrow> Bookmark \<Rightarrow> BookmarkDisk \<times> (string + unit)" where
  "store_upsert T io io' d bm =
     (case load_or_bootstrap T io d of
        (d, Inl e) \<Rightarrow> (d, Inl e)
      | (d, Inr st) \<Rightarrow>
          let (st, ok) = upsert st bm
          in if \<not> ok then (d, Inl ''bookmark name required'') else save T io' d st)"

definition store_delete ::
  "TomlCodec \<Rightarrow> SaveIo \<Rightarrow> SaveIo \<Rightarrow> BookmarkDisk \<Rightarrow> string \<Rightarrow> BookmarkDisk \<times> (string + unit)" where
  "store_delete T io io' d n =
     (case load_or_bootstrap T io d of
        (d, Inl e) \<Rightarrow> (d, Inl e)
      | (d, Inr st) \<Rightarrow>
          let (st, ok) = remove_bookmark st n
          in if \<not> ok then (d, Inl (''No such bookmark: '' @ n)) else save T io' d st)"

definition store_rename ::
  "TomlCodec \<Rightarrow> SaveIo \<Rightarrow> SaveIo \<Rightarrow> BookmarkDisk \<Rightarrow> string \<Rightarrow> string \<Rightarrow> BookmarkDisk \<times> (string + unit)" where
  "store_rename T io io' d old new =
     (case load_or_bootstrap T io d of
        (d, Inl e) \<Rightarrow> (d, Inl e)
      | (d, Inr st) \<Rightarrow>
          (case rename_bookmark st old new of
             (st, Inl e) \<Rightarrow> (d, Inl (rename_text e))
           | (st, Inr ()) \<Rightarrow> save T io' d st))"

text \<open>A read for display degrades to the empty store.\<close>

definition store_load :: "TomlCodec \<Rightarrow> SaveIo \<Rightarrow> BookmarkDisk \<Rightarrow> BookmarkDisk \<times> Store" where
  "store_load T io d =
     (case load_or_bootstrap T io d of (d, Inl _) \<Rightarrow> (d, default_store) | (d, Inr st) \<Rightarrow> (d, st))"

definition store_find ::
  "TomlCodec \<Rightarrow> SaveIo \<Rightarrow> BookmarkDisk \<Rightarrow> string \<Rightarrow> BookmarkDisk \<times> (string + Bookmark option)" where
  "store_find T io d n =
     (case load_or_bootstrap T io d of (d, Inl e) \<Rightarrow> (d, Inl e) | (d, Inr st) \<Rightarrow> (d, Inr (find_bookmark st n)))"

fun store_op ::
  "TomlCodec \<Rightarrow> SaveIo \<Rightarrow> SaveIo \<Rightarrow> BookmarkDisk \<Rightarrow> BookmarkOp \<Rightarrow> BookmarkDisk \<times> (string + unit)" where
  "store_op T io io' d (Upsert bm) = store_upsert T io io' d bm"
| "store_op T io io' d (Delete n) = store_delete T io io' d n"
| "store_op T io io' d (Rename old new) = store_rename T io io' d old new"

end
