(* ===== verification/Bookmarks_Props.thy ===== *)
theory Bookmarks_Props
  imports Bookmarks
begin

text \<open>
  The legacy file gives back the bookmark it was written from, within the limits of the format; the
  operations on the store act as operations on a map from names to bookmarks, through the file and
  whatever a save meets; a file that cannot be read is never replaced.
\<close>

section \<open>The legacy file\<close>

lemma get_range_mid: "length a = i \<Longrightarrow> length b = j - i \<Longrightarrow> i \<le> j \<Longrightarrow> get_range (a @ b @ c) i j = Some b"
  by (simp add: get_range_def)

lemma get_at_mid: "length a = i \<Longrightarrow> get_at (a @ x # c) i = Some x"
  by (simp add: get_at_def nth_append)

lemma code_byte_char [simp]: "n < 256 \<Longrightarrow> code (byte_char n) = n"
  by (simp add: byte_char_def)

lemma byte_char_eq_NUL [simp]: "n < 256 \<Longrightarrow> byte_char n = NUL \<longleftrightarrow> n = 0"
  by (metis NUL_def code_byte_char zero_less_numeral)

lemma char_byte_back [simp]: "char_byte (byte_char (unat (b :: u8))) = b"
  using unsigned_less [of b, where ?'a = nat] by (simp add: char_byte_def)

lemma flag_byte_NUL [simp]: "flag_byte b \<noteq> NUL \<longleftrightarrow> b"
  by (simp add: flag_byte_def)

lemma obind_Some [simp]: "obind (Some x) f = f x"
  by (simp add: obind_def)

text \<open>A field of the file: its length, and what is read back from it.\<close>

definition padded :: "string \<Rightarrow> string" where
  "padded s = take (min (length s) 32) s @ replicate (33 - min (length s) 32) NUL"

lemma write_field_eq: "write_field s = byte_char (min (length s) 32) # padded s"
  by (simp add: write_field_def padded_def Let_def)

lemma length_padded [simp]: "length (padded s) = 33"
  by (simp add: padded_def)

lemma cstr_padded:
  assumes "length s \<le> 32" "NUL \<notin> set s" "utf8_valid s"
  shows "cstr_field (padded s) = s"
proof -
  have "takeWhile (\<lambda>c. c \<noteq> NUL) (s @ replicate (33 - length s) NUL) = s"
  proof -
    obtain k where "33 - length s = Suc k" using assms(1) by (cases "33 - length s") auto
    then show ?thesis using assms(2) by (auto simp: takeWhile_append)
  qed
  then show ?thesis using assms by (simp add: cstr_field_def padded_def min_def)
qed

definition htsc_head :: "Bookmark \<Rightarrow> string" where
  "htsc_head bm = ''HTsc'' @ [NUL, byte_char 1] @ replicate 129 NUL @ [byte_char (min (length (login bm)) 32)]"

definition htsc_flags :: "Bookmark \<Rightarrow> string" where
  "htsc_flags bm = [flag_byte (hope bm), byte_char (unat (compress bm)), byte_char (unat (cipher bm)), flag_byte (tls bm)]"

abbreviation server_text :: "Bookmark \<Rightarrow> string" where
  "server_text bm \<equiv> join_host (server bm) (port bm)"

lemma length_htsc_head [simp]: "length (htsc_head bm) = 136"
  by (simp add: htsc_head_def)

lemma write_htsc_eq:
  "write_htsc bm = htsc_head bm @ padded (login bm) @ [byte_char (min (length (password bm)) 32)] @
     padded (password bm) @ [byte_char (min (length (server_text bm)) 251)] @
     take (min (length (server_text bm)) 251) (server_text bm) @ htsc_flags bm @
     replicate (256 - min (length (server_text bm)) 251 - 4) NUL"
  by (simp add: write_htsc_def htsc_head_def htsc_flags_def write_field_eq Let_def)

lemma length_write_htsc: "length (write_htsc bm) = 460"
  by (simp add: write_htsc_eq htsc_flags_def)

lemma valid_port_digits: "valid_port p \<Longrightarrow> p \<noteq> [] \<and> list_all is_ascii_digit p"
  by (simp add: valid_port_def)

lemma digit_graphic: "is_ascii_digit c \<Longrightarrow> 32 < code c \<and> code c < 0x80 \<and> c \<noteq> CHR '':''"
  by (auto simp: is_ascii_digit_def)

definition server_ok :: "string \<Rightarrow> bool" where
  "server_ok s \<longleftrightarrow> utf8_valid s \<and> ws_len s = 0 \<and> ws_end_len s = 0 \<and> CHR '':'' \<notin> set s \<and>
     (s = [] \<or> hd s \<noteq> CHR ''['')"

lemma split_join_host:
  assumes s: "server_ok s" and p: "p = [] \<or> valid_port p"
  shows "split_host (utf8_lossy (join_host s p)) = (s, p)"
proof (cases "p = []")
  case True
  have "strip_prefix ''['' s = None" if "s \<noteq> []"
    using s that by (cases s) (auto simp: server_ok_def)
  moreover have "count_list s (CHR '':'') = 0" using s by (simp add: server_ok_def)
  ultimately show ?thesis
    using s True by (auto simp: join_host_def split_host_def server_ok_def str_trim_id Let_def)
next
  case False
  then have v: "valid_port p" using p by simp
  then have d: "list_all is_ascii_digit p" by (simp add: valid_port_digits)
  obtain q c where q: "p = q @ [c]" using False by (cases p rule: rev_cases) auto
  have c: "32 < code c" "code c < 0x80" using d q digit_graphic [of c] by simp_all
  have colon: "CHR '':'' \<notin> set p" using d digit_graphic by (auto simp: list_all_iff)
  let ?j = "s @ CHR '':'' # p"
  have "utf8_valid p"
    using d digit_graphic by (intro utf8_valid_ascii) (auto simp: list_all_iff)
  then have u: "utf8_valid ?j" using s by (simp add: server_ok_def utf8_valid_append)
  have "ws_len ?j = 0"
    using s ws_len_append [of s "CHR '':''" p] ws_len_graphic [of "CHR '':''" p]
    by (cases "s = []") (simp_all add: server_ok_def)
  moreover have "ws_end_len ?j = 0"
    using ws_end_len_graphic [OF c, of "s @ CHR '':'' # q"] by (simp add: q)
  ultimately have t: "str_trim ?j = ?j" by (rule str_trim_id)
  have "strip_prefix ''['' ?j = None" using s by (cases s) (auto simp: server_ok_def)
  moreover have "count_list ?j (CHR '':'') = 1" using s colon by (simp add: server_ok_def)
  moreover have "split_once (CHR '':'') ?j = Some (s, p)" using s by (simp add: split_once_iff server_ok_def)
  ultimately show ?thesis using u t v False by (simp add: join_host_def split_host_def Let_def)
qed

text \<open>C27: A bookmark exported to a legacy file and imported again is the same bookmark, but for its
  name, which is the file's, and its own nickname and icon, which the format has no room for: where the
  login and the password fit their fields, and the host and port are a plain host name and a valid port
  or none.  The file is 460 bytes long.\<close>

theorem htsc_roundtrip:
  assumes "length (login bm) \<le> 32" "NUL \<notin> set (login bm)" "utf8_valid (login bm)"
    and "length (password bm) \<le> 32" "NUL \<notin> set (password bm)" "utf8_valid (password bm)"
    and "server_ok (server bm)" "port bm = [] \<or> valid_port (port bm)" "length (server_text bm) \<le> 251"
  shows "parse_htsc (write_htsc bm) = Some (bm\<lparr>bm_name := [], nick := None, icon := None\<rparr>) \<and>
    length (write_htsc bm) = 460"
proof -
  let ?h = "htsc_head bm" and ?lf = "padded (login bm)" and ?pf = "padded (password bm)" and ?s = "server_text bm"
  let ?x = "byte_char (min (length (password bm)) 32)" and ?l = "byte_char (length ?s)"
  let ?pad = "replicate (252 - length ?s) NUL"
  have w: "write_htsc bm = ?h @ ?lf @ [?x] @ ?pf @ [?l] @ ?s @ htsc_flags bm @ ?pad"
    using assms(9) by (simp add: write_htsc_eq min_def)
  have "get_range (write_htsc bm) 136 169 = Some ?lf"
    unfolding w by (rule get_range_mid) simp_all
  moreover have "get_range (write_htsc bm) 170 203 = Some ?pf"
    unfolding w using get_range_mid [of "?h @ ?lf @ [?x]" 170 ?pf 203 "[?l] @ ?s @ htsc_flags bm @ ?pad"] by simp
  moreover have "get_at (write_htsc bm) 203 = Some ?l"
    unfolding w using get_at_mid [of "?h @ ?lf @ [?x] @ ?pf" 203 ?l "?s @ htsc_flags bm @ ?pad"] by simp
  moreover have "get_range (write_htsc bm) 204 (204 + length ?s) = Some ?s"
    unfolding w using get_range_mid [of "?h @ ?lf @ [?x] @ ?pf @ [?l]" 204 ?s "204 + length ?s" "htsc_flags bm @ ?pad"]
    by simp
  moreover have "get_at (write_htsc bm) (204 + length ?s) = Some (flag_byte (hope bm))"
    unfolding w using get_at_mid [of "?h @ ?lf @ [?x] @ ?pf @ [?l] @ ?s" "204 + length ?s" "flag_byte (hope bm)"
      "tl (htsc_flags bm) @ ?pad"] by (simp add: htsc_flags_def)
  moreover have "get_at (write_htsc bm) (205 + length ?s) = Some (byte_char (unat (compress bm)))"
    unfolding w using get_at_mid [of "?h @ ?lf @ [?x] @ ?pf @ [?l] @ ?s @ take 1 (htsc_flags bm)" "205 + length ?s"
      "byte_char (unat (compress bm))" "drop 2 (htsc_flags bm) @ ?pad"] by (simp add: htsc_flags_def)
  moreover have "get_at (write_htsc bm) (206 + length ?s) = Some (byte_char (unat (cipher bm)))"
    unfolding w using get_at_mid [of "?h @ ?lf @ [?x] @ ?pf @ [?l] @ ?s @ take 2 (htsc_flags bm)" "206 + length ?s"
      "byte_char (unat (cipher bm))" "drop 3 (htsc_flags bm) @ ?pad"] by (simp add: htsc_flags_def numeral_2_eq_2)
  moreover have "get_at (write_htsc bm) (207 + length ?s) = Some (flag_byte (tls bm))"
    unfolding w using get_at_mid [of "?h @ ?lf @ [?x] @ ?pf @ [?l] @ ?s @ take 3 (htsc_flags bm)" "207 + length ?s"
      "flag_byte (tls bm)" ?pad] by (simp add: htsc_flags_def numeral_3_eq_3)
  moreover have "take 4 (write_htsc bm) = ''HTsc''" unfolding w by (simp add: htsc_head_def)
  moreover have "code ?l = length ?s" using assms(9) by simp
  moreover have "\<not> length (write_htsc bm) < 4" by (simp add: length_write_htsc)
  ultimately have "parse_htsc (write_htsc bm) = Some (bm\<lparr>bm_name := [], nick := None, icon := None\<rparr>)"
    using cstr_padded [OF assms(1-3)] cstr_padded [OF assms(4-6)] split_join_host [OF assms(7,8)]
    by (simp add: parse_htsc_def Let_def)
  then show ?thesis by (simp add: length_write_htsc)
qed

text \<open>An IPv6 literal with a port comes back as a host alone, the port part of its name; and two
  bookmarks whose names differ in a slash and a backslash are exported to one file.\<close>

lemma export_ipv6_loses_port:
  "split_host (join_host ''fe80::1'' ''5500'') = (''fe80::1:5500'', [])"
  by (simp add: join_host_def split_host_def str_trim_graphic)

lemma export_names_collide: "safe_filename ''a/b'' = safe_filename [CHR ''a'', CHR 0x5C, CHR ''b'']"
  by (simp add: safe_filename_def)

section \<open>The store as a map\<close>

definition names_ok :: "Store \<Rightarrow> bool" where
  "names_ok st \<longleftrightarrow> distinct (names st)"

lemma find_snoc: "List.find P (xs @ [y]) = (case List.find P xs of Some z \<Rightarrow> Some z | None \<Rightarrow> if P y then Some y else None)"
  by (induction xs) auto

lemma find_bookmark_None: "find_bookmark st n = None \<longleftrightarrow> n \<notin> set (names st)"
  by (auto simp: find_bookmark_def names_def find_None_iff)

lemma find_bookmark_name: "find_bookmark st n = Some b \<Longrightarrow> bm_name b = n \<and> b \<in> set (bookmarks st)"
  by (auto simp: find_bookmark_def find_Some_iff)

lemma update_matching_split:
  "update_matching P f bs = Some cs \<Longrightarrow> \<exists>xs b ys. bs = xs @ b # ys \<and> P b \<and> cs = xs @ f b # ys"
proof (induction bs arbitrary: cs)
  case (Cons c bs)
  show ?case
  proof (cases "P c")
    case True
    with Cons.prems show ?thesis by (intro exI [of _ "[]"]) auto
  next
    case False
    with Cons.prems obtain ds where ds: "update_matching P f bs = Some ds" "cs = c # ds" by auto
    from Cons.IH [OF ds(1)] obtain xs b ys where "bs = xs @ b # ys" "P b" "ds = xs @ f b # ys" by blast
    with ds(2) show ?thesis by (intro exI [of _ "c # xs"]) auto
  qed
qed simp

lemma update_matching_None: "update_matching P f bs = None \<longleftrightarrow> (\<forall>b \<in> set bs. \<not> P b)"
  by (induction bs) auto

lemma find_split:
  "distinct (map bm_name (xs @ b # ys)) \<Longrightarrow>
   List.find (\<lambda>c. bm_name c = n) (xs @ b # ys) =
     (if bm_name b = n then Some b else List.find (\<lambda>c. bm_name c = n) (xs @ ys))"
  by (induction xs) auto

lemma find_other:
  assumes "distinct (map bm_name (xs @ b # ys))"
  shows "List.find (\<lambda>c. bm_name c = bm_name b) (xs @ ys) = None"
proof -
  have "bm_name b \<notin> bm_name ` set (xs @ ys)" using assms by auto
  then have "\<forall>c \<in> set (xs @ ys). bm_name c \<noteq> bm_name b" by (metis image_eqI)
  then show ?thesis by (auto simp: find_None_iff)
qed

lemma upsert_map:
  assumes "names_ok st" "bm_name bm \<noteq> []"
  shows "names_ok (fst (upsert st bm)) \<and> snd (upsert st bm) \<and>
    find_bookmark (fst (upsert st bm)) = (find_bookmark st)(bm_name bm \<mapsto> bm)"
proof (cases "update_matching (\<lambda>b. bm_name b = bm_name bm) (\<lambda>_. bm) (bookmarks st)")
  case None
  then have n: "bm_name bm \<notin> set (names st)" by (auto simp: update_matching_None names_def)
  have "find_bookmark (st\<lparr>bookmarks := bookmarks st @ [bm]\<rparr>) = (find_bookmark st)(bm_name bm \<mapsto> bm)"
    using n find_bookmark_None [of st "bm_name bm"]
    by (auto simp: find_bookmark_def find_snoc fun_eq_iff split: option.split)
  then show ?thesis using None n assms by (simp add: upsert_def names_ok_def names_def)
next
  case (Some cs)
  then obtain xs b ys where s: "bookmarks st = xs @ b # ys" "bm_name b = bm_name bm" "cs = xs @ bm # ys"
    by (auto dest: update_matching_split)
  have d: "distinct (map bm_name (xs @ b # ys))" using assms(1) s(1) by (simp add: names_ok_def names_def)
  then have d': "distinct (map bm_name (xs @ bm # ys))" using s(2) by simp
  have "find_bookmark (st\<lparr>bookmarks := cs\<rparr>) = (find_bookmark st)(bm_name bm \<mapsto> bm)"
    using s(2) by (auto simp: find_bookmark_def s(1,3) find_split [OF d] find_split [OF d'] fun_eq_iff)
  then show ?thesis using Some assms d' by (simp add: upsert_def names_ok_def names_def s(3))
qed

lemma remove_map:
  assumes "names_ok st"
  shows "names_ok (fst (remove_bookmark st n)) \<and> snd (remove_bookmark st n) = (find_bookmark st n \<noteq> None) \<and>
    find_bookmark (fst (remove_bookmark st n)) = (find_bookmark st)(n := None)"
proof -
  have f: "List.find (\<lambda>b. bm_name b = k) (filter (\<lambda>b. bm_name b \<noteq> n) bs) =
      (if k = n then None else List.find (\<lambda>b. bm_name b = k) bs)" for k bs
    by (induction bs) auto
  have "length (filter (\<lambda>b. bm_name b \<noteq> n) bs) \<noteq> length bs \<longleftrightarrow> n \<in> bm_name ` set bs" for bs
    by (induction bs) (auto simp: less_Suc_eq_le le_less dest: le_neq_trans [OF length_filter_le])
  moreover have "distinct (map bm_name (filter P bs))" if "distinct (map bm_name bs)" for P bs
    using that by (induction bs) auto
  ultimately show ?thesis
    using assms find_bookmark_None [of st n]
    by (auto simp: remove_bookmark_def Let_def names_ok_def names_def find_bookmark_def f fun_eq_iff)
qed

lemma rename_map:
  assumes "names_ok st" "old \<noteq> new"
  shows "names_ok (fst (rename_bookmark st old new)) \<and>
    (case snd (rename_bookmark st old new) of
       Inl e \<Rightarrow> fst (rename_bookmark st old new) = st \<and>
         (new = [] \<or> find_bookmark st new \<noteq> None \<or> find_bookmark st old = None)
     | Inr _ \<Rightarrow> \<exists>b. find_bookmark st old = Some b \<and> new \<noteq> [] \<and> find_bookmark st new = None \<and>
         find_bookmark (fst (rename_bookmark st old new)) =
           (find_bookmark st)(old := None, new \<mapsto> b\<lparr>bm_name := new\<rparr>))"
proof (cases "new = [] \<or> find_bookmark st new \<noteq> None")
  case True
  then show ?thesis using assms by (auto simp: rename_bookmark_def)
next
  case False
  show ?thesis
  proof (cases "update_matching (\<lambda>b. bm_name b = old) (\<lambda>b. b\<lparr>bm_name := new\<rparr>) (bookmarks st)")
    case None
    then have "find_bookmark st old = None" by (simp add: find_bookmark_def update_matching_None find_None_iff)
    then show ?thesis using None False assms by (auto simp: rename_bookmark_def)
  next
    case (Some cs)
    then obtain xs b ys where s: "bookmarks st = xs @ b # ys" "bm_name b = old" "cs = xs @ b\<lparr>bm_name := new\<rparr> # ys"
      by (auto dest: update_matching_split)
    have d: "distinct (map bm_name (xs @ b # ys))" using assms(1) s(1) by (simp add: names_ok_def names_def)
    have "new \<notin> set (names st)" using False find_bookmark_None [of st new] by auto
    then have n: "new \<notin> bm_name ` set xs" "new \<notin> bm_name ` set ys" by (auto simp: names_def s(1))
    then have d': "distinct (map bm_name (xs @ b\<lparr>bm_name := new\<rparr> # ys))" using d by simp
    have o: "List.find (\<lambda>c. bm_name c = old) (xs @ ys) = None"
      using find_other [OF d] s(2) by simp
    have "find_bookmark (st\<lparr>bookmarks := cs\<rparr>) = (find_bookmark st)(old := None, new \<mapsto> b\<lparr>bm_name := new\<rparr>)"
      using s(2) o assms(2)
      by (auto simp: find_bookmark_def s(1,3) find_split [OF d] find_split [OF d'] fun_eq_iff)
    moreover have "find_bookmark st old = Some b"
      using s(2) by (simp add: find_bookmark_def s(1) find_split [OF d])
    ultimately show ?thesis using Some False assms d' by (simp add: rename_bookmark_def names_ok_def names_def s(3))
  qed
qed

section \<open>The store in its file\<close>

text \<open>The store the program would load: none where the file exists and cannot be read.\<close>

definition stored :: "TomlCodec \<Rightarrow> BookmarkDisk \<Rightarrow> Store option" where
  "stored T d =
     (case toml_file d of
        None \<Rightarrow> Some (bootstrap (legacy d))
      | Some doc \<Rightarrow>
          if toml_readable d then (case from_toml T doc of Inr st \<Rightarrow> Some st | Inl _ \<Rightarrow> None) else None)"

text \<open>What is written is read back.\<close>

definition toml_ok :: "TomlCodec \<Rightarrow> bool" where
  "toml_ok T \<longleftrightarrow> (\<forall>st doc. to_toml T st = Inr doc \<longrightarrow> from_toml T doc = Inr st)"

definition is_ok :: "string + unit \<Rightarrow> bool" where
  "is_ok r = (case r of Inl _ \<Rightarrow> False | Inr _ \<Rightarrow> True)"

definition save_works :: "TomlCodec \<Rightarrow> SaveIo \<Rightarrow> bool" where
  "save_works T io \<longleftrightarrow> mkdir_ok io \<and> write_ok io \<and> rename_ok io \<and> (\<forall>st. \<exists>doc. to_toml T st = Inr doc)"

lemma save_stored:
  assumes "toml_ok T"
  shows "stored T (fst (save T io d st)) = (if is_ok (snd (save T io d st)) then Some st else stored T d)"
    and "save_works T io \<Longrightarrow> is_ok (snd (save T io d st))"
proof -
  show "stored T (fst (save T io d st)) = (if is_ok (snd (save T io d st)) then Some st else stored T d)"
    using assms by (cases "to_toml T st") (auto simp: save_def stored_def is_ok_def toml_ok_def Let_def split: option.split)
  assume w: "save_works T io"
  then obtain doc where "to_toml T st = Inr doc" by (auto simp: save_works_def)
  with w show "is_ok (snd (save T io d st))" by (simp add: save_works_def save_def is_ok_def Let_def)
qed

lemma load_stored:
  assumes "toml_ok T" "stored T d = Some st"
  shows "\<exists>d1. load_or_bootstrap T io d = (d1, Inr st) \<and> stored T d1 = Some st"
proof (cases "toml_file d")
  case None
  then have "st = bootstrap (legacy d)" using assms(2) by (simp add: stored_def)
  then show ?thesis
    using None assms save_stored(1) [OF assms(1), of io d st]
    by (simp add: load_or_bootstrap_def Let_def case_prod_unfold)
next
  case (Some doc)
  then show ?thesis using assms(2)
    by (auto simp: load_or_bootstrap_def stored_def split: if_splits sum.splits)
qed

text \<open>The operations as they act on a map from names to bookmarks.\<close>

fun spec_op :: "BookmarkOp \<Rightarrow> (string \<rightharpoonup> Bookmark) \<Rightarrow> (string \<rightharpoonup> Bookmark)" where
  "spec_op (Upsert bm) m = m(bm_name bm \<mapsto> bm)"
| "spec_op (Delete n) m = m(n := None)"
| "spec_op (Rename old new) m =
     (if old = new then m
      else case m old of None \<Rightarrow> m | Some b \<Rightarrow> m(old := None, new \<mapsto> b\<lparr>bm_name := new\<rparr>))"

fun allowed :: "BookmarkOp \<Rightarrow> (string \<rightharpoonup> Bookmark) \<Rightarrow> bool" where
  "allowed (Upsert bm) m \<longleftrightarrow> bm_name bm \<noteq> []"
| "allowed (Delete n) m \<longleftrightarrow> m n \<noteq> None"
| "allowed (Rename old new) m \<longleftrightarrow> old = new \<or> new \<noteq> [] \<and> m new = None \<and> m old \<noteq> None"

fun apply_op :: "BookmarkOp \<Rightarrow> Store \<Rightarrow> Store \<times> bool" where
  "apply_op (Upsert bm) st = upsert st bm"
| "apply_op (Delete n) st = remove_bookmark st n"
| "apply_op (Rename old new) st =
     (let (st', r) = rename_bookmark st old new in (st', case r of Inl _ \<Rightarrow> False | Inr _ \<Rightarrow> True))"

lemma apply_op_map:
  assumes "names_ok st"
  shows "snd (apply_op op st) = allowed op (find_bookmark st) \<and>
    (allowed op (find_bookmark st) \<longrightarrow> names_ok (fst (apply_op op st)) \<and>
       find_bookmark (fst (apply_op op st)) = spec_op op (find_bookmark st))"
proof (cases op)
  case (Upsert bm)
  then show ?thesis using upsert_map [OF assms, of bm] by (cases "bm_name bm = []") (auto simp: upsert_def)
next
  case (Delete n)
  then show ?thesis using remove_map [OF assms, of n] by auto
next
  case (Rename old new)
  show ?thesis
  proof (cases "old = new")
    case True
    then show ?thesis using Rename assms by (simp add: rename_bookmark_def)
  next
    case False
    from rename_map [OF assms this] show ?thesis
      using Rename False by (cases "snd (rename_bookmark st old new)") (auto simp: case_prod_unfold)
  qed
qed

lemma store_op_eq:
  assumes l: "load_or_bootstrap T io d = (d1, Inr st)"
  shows "\<exists>e. store_op T io io' d op =
    (if snd (apply_op op st) then save T io' d1 (fst (apply_op op st)) else (d1, Inl e))"
proof (cases op)
  case (Upsert bm)
  then show ?thesis by (simp add: store_upsert_def l Let_def case_prod_unfold)
next
  case (Delete n)
  then show ?thesis by (simp add: store_delete_def l Let_def case_prod_unfold)
next
  case (Rename old new)
  then show ?thesis
    by (cases "rename_bookmark st old new"; cases "snd (rename_bookmark st old new)")
      (simp_all add: store_rename_def l split: unit.split)
qed

lemma store_op_refines:
  assumes T: "toml_ok T" and st: "stored T d = Some st" "names_ok st"
  shows "\<exists>st'. stored T (fst (store_op T io io' d op)) = Some st' \<and> names_ok st' \<and>
    find_bookmark st' =
      (if is_ok (snd (store_op T io io' d op)) then spec_op op (find_bookmark st) else find_bookmark st) \<and>
    (is_ok (snd (store_op T io io' d op)) \<longrightarrow> allowed op (find_bookmark st)) \<and>
    (save_works T io' \<longrightarrow> is_ok (snd (store_op T io io' d op)) = allowed op (find_bookmark st))"
proof -
  obtain d1 where l: "load_or_bootstrap T io d = (d1, Inr st)" and d1: "stored T d1 = Some st"
    using load_stored [OF T st(1)] by blast
  obtain e where e: "store_op T io io' d op =
      (if snd (apply_op op st) then save T io' d1 (fst (apply_op op st)) else (d1, Inl e))"
    using store_op_eq [OF l] by blast
  note a = apply_op_map [OF st(2), of op]
  show ?thesis
  proof (cases "allowed op (find_bookmark st)")
    case True
    then have o: "store_op T io io' d op = save T io' d1 (fst (apply_op op st))" using a e by simp
    show ?thesis unfolding o
      using True a d1 st(2) save_stored [OF T, of io' d1 "fst (apply_op op st)"] by auto
  next
    case False
    then have o: "store_op T io io' d op = (d1, Inl e)" using a e by simp
    show ?thesis unfolding o using False d1 st(2) by (simp add: is_ok_def)
  qed
qed

text \<open>A run of operations, each with what its two saves meet, and the results.\<close>

fun run_ops :: "TomlCodec \<Rightarrow> BookmarkDisk \<Rightarrow> (SaveIo \<times> SaveIo \<times> BookmarkOp) list \<Rightarrow> BookmarkDisk \<times> (string + unit) list" where
  "run_ops T d [] = (d, [])"
| "run_ops T d ((io, io', op) # r) =
     (let (d, x) = store_op T io io' d op; (d, xs) = run_ops T d r in (d, x # xs))"

fun spec_fold :: "(string \<rightharpoonup> Bookmark) \<Rightarrow> (BookmarkOp \<times> bool) list \<Rightarrow> (string \<rightharpoonup> Bookmark)" where
  "spec_fold m [] = m"
| "spec_fold m ((op, ok) # r) = spec_fold (if ok then spec_op op m else m) r"

fun spec_oks :: "(string \<rightharpoonup> Bookmark) \<Rightarrow> BookmarkOp list \<Rightarrow> bool list" where
  "spec_oks m [] = []"
| "spec_oks m (op # ops) = allowed op m # spec_oks (if allowed op m then spec_op op m else m) ops"

definition ops_of :: "(SaveIo \<times> SaveIo \<times> BookmarkOp) list \<Rightarrow> BookmarkOp list" where
  "ops_of xs = map (\<lambda>(_, _, op). op) xs"

lemma ops_of_simps [simp]: "ops_of [] = []" "ops_of ((io, io', op) # xs) = op # ops_of xs"
  by (simp_all add: ops_of_def)

text \<open>C25: The bookmarks behave as a map from names to bookmarks through their file, whatever the saves
  meet: after any operations the stored bookmarks, whose names stay distinct, are those that the
  operations that reported success make of the ones stored before, and an operation that reported an
  error changed nothing.  Where the saves work, exactly the operations that the map allows succeed: an
  insertion under a name, the removal of a name that is taken, a renaming to a name that is free.\<close>

theorem bookmarks_refine_map:
  assumes "toml_ok T" "stored T d = Some st" "names_ok st"
    and "run_ops T d xs = (d', rs)"
  shows "\<exists>st'. stored T d' = Some st' \<and> names_ok st' \<and>
    find_bookmark st' = spec_fold (find_bookmark st) (zip (ops_of xs) (map is_ok rs)) \<and>
    ((\<forall>(_, io', _) \<in> set xs. save_works T io') \<longrightarrow> map is_ok rs = spec_oks (find_bookmark st) (ops_of xs))"
  using assms(2-4)
proof (induction xs arbitrary: d st d' rs)
  case (Cons x xs)
  obtain io io' op where x: "x = (io, io', op)" by (cases x)
  let ?r = "store_op T io io' d op"
  have rs: "run_ops T (fst ?r) xs = (d', tl rs)" "rs = snd ?r # tl rs"
    using Cons.prems(3) x by (auto simp: case_prod_unfold Let_def)
  obtain st1 where st1: "stored T (fst ?r) = Some st1" "names_ok st1"
    "find_bookmark st1 = (if is_ok (snd ?r) then spec_op op (find_bookmark st) else find_bookmark st)"
    "save_works T io' \<Longrightarrow> is_ok (snd ?r) = allowed op (find_bookmark st)"
    using store_op_refines [OF assms(1) Cons.prems(1,2), of io io' op] by blast
  obtain st2 where st2: "stored T d' = Some st2" "names_ok st2"
    "find_bookmark st2 = spec_fold (find_bookmark st1) (zip (ops_of xs) (map is_ok (tl rs)))"
    "\<forall>(_, io', _) \<in> set xs. save_works T io' \<Longrightarrow> map is_ok (tl rs) = spec_oks (find_bookmark st1) (ops_of xs)"
    using Cons.IH [OF st1(1,2) rs(1)] by blast
  have m: "map is_ok rs = is_ok (snd ?r) # map is_ok (tl rs)" by (subst rs(2)) simp
  have "find_bookmark st2 = spec_fold (find_bookmark st) (zip (ops_of (x # xs)) (map is_ok rs))"
    unfolding m by (simp add: x st2(3) st1(3))
  moreover have "map is_ok rs = spec_oks (find_bookmark st) (ops_of (x # xs))"
    if "\<forall>(_, io', _) \<in> set (x # xs). save_works T io'"
    unfolding m using that st2(4) st1(3,4) by (simp add: x)
  ultimately show ?case using st2(1,2) by blast
qed simp

lemma names_ok_add_new: "names_ok st \<Longrightarrow> names_ok (add_new st bm)"
  using find_bookmark_None [of st "bm_name bm"] by (simp add: add_new_def names_ok_def names_def)

text \<open>The names of a first store are distinct.\<close>

lemma bootstrap_names_ok: "names_ok (bootstrap dirs)"
proof -
  have "names_ok (foldl add_new st bms)" if "names_ok st" for st bms
    using that by (induction bms arbitrary: st) (simp_all add: names_ok_add_new)
  then show ?thesis by (simp add: bootstrap_def Let_def names_ok_def names_def default_store_def)
qed

text \<open>C26: A bookmarks file that exists and cannot be read, or whose text is not a store, is never
  replaced: every operation reports an error and leaves the disk as it is, a lookup reports the error,
  and a read for display shows no bookmarks and leaves the disk as it is.\<close>

theorem unreadable_file_kept:
  assumes "toml_file d = Some doc" and "toml_readable d \<Longrightarrow> \<exists>e. from_toml T doc = Inl e"
  shows "fst (run_ops T d xs) = d \<and> (\<forall>r \<in> set (snd (run_ops T d xs)). \<not> is_ok r) \<and>
    store_load T io d = (d, default_store) \<and> (\<exists>e. store_find T io d n = (d, Inl e))"
proof -
  have l: "\<exists>e. load_or_bootstrap T io d = (d, Inl e)" for io
    using assms by (cases "toml_readable d") (auto simp: load_or_bootstrap_def)
  then have "\<exists>e. store_op T io io' d op = (d, Inl e)" for io io' op
  proof -
    obtain e where "load_or_bootstrap T io d = (d, Inl e)" using l by blast
    then show ?thesis by (cases op) (simp_all add: store_upsert_def store_delete_def store_rename_def)
  qed
  then have "fst (run_ops T d xs) = d \<and> (\<forall>r \<in> set (snd (run_ops T d xs)). \<not> is_ok r)"
  proof (induction xs)
    case (Cons x xs)
    obtain io io' op where x: "x = (io, io', op)" by (cases x)
    obtain e where "store_op T io io' d op = (d, Inl e)" using Cons.prems by blast
    then show ?case using Cons by (simp add: x is_ok_def Let_def case_prod_unfold)
  qed simp
  then show ?thesis using l [of io] by (auto simp: store_load_def store_find_def)
qed

section \<open>Witnesses\<close>

definition toy_bookmark :: Bookmark where
  "toy_bookmark = default_bookmark\<lparr>bm_name := ''Test'', server := ''example.com'', port := ''5501'',
     login := ''guest'', password := ''secret'', hope := True, compress := 1, cipher := BLOWFISH, icon := Some 7\<rparr>"

lemma toy_bookmark_fields [simp]:
  "bm_name toy_bookmark = ''Test''" "server toy_bookmark = ''example.com''" "port toy_bookmark = ''5501''"
  "login toy_bookmark = ''guest''" "password toy_bookmark = ''secret''"
  by (simp_all add: toy_bookmark_def)

lemma NUL_eq: "NUL = c \<longleftrightarrow> code c = 0"
proof -
  have "code NUL = 0" by (simp add: NUL_def)
  then show ?thesis by (metis of_char_eq_iff)
qed

theorem htsc_roundtrip_witness:
  "parse_htsc (write_htsc toy_bookmark) = Some (toy_bookmark\<lparr>bm_name := [], nick := None, icon := None\<rparr>)"
proof -
  have "server_ok ''example.com''"
    by (simp add: server_ok_def utf8_valid_ascii ws_len.simps ws_end_len_def)
  moreover have "valid_port ''5501''"
    by (simp add: valid_port_def is_ascii_digit_def parse_uint_def dec_value_def digit_val_def)
  ultimately show ?thesis
    using htsc_roundtrip [of toy_bookmark] by (simp add: NUL_eq utf8_valid_ascii join_host_def)
qed

definition toy_store :: Store where
  "toy_store = \<lparr>version = 1, bookmarks = [toy_bookmark]\<rparr>"

definition toy_toml :: TomlCodec where
  "toy_toml = \<lparr>from_toml = (\<lambda>doc. if doc = ''a'' then Inr default_store
       else if doc = ''b'' then Inr toy_store else Inl ''bad''),
     to_toml = (\<lambda>st. if st = default_store then Inr ''a'' else if st = toy_store then Inr ''b'' else Inl ''big'')\<rparr>"

definition io_fine :: SaveIo where
  "io_fine = \<lparr>mkdir_ok = True, write_ok = True, partial = None, rename_ok = True, unlink_ok = True\<rparr>"

definition toy_bookmark_disk :: "string \<Rightarrow> BookmarkDisk" where
  "toy_bookmark_disk doc = \<lparr>toml_file = Some doc, toml_readable = True, toml_tmp = None, legacy = []\<rparr>"

definition toy_ops :: "(SaveIo \<times> SaveIo \<times> BookmarkOp) list" where
  "toy_ops = [(io_fine, io_fine, Upsert toy_bookmark), (io_fine, io_fine\<lparr>rename_ok := False\<rparr>, Delete ''Test'')]"

lemma toy_bookmark_run:
  "run_ops toy_toml (toy_bookmark_disk ''a'') toy_ops = (toy_bookmark_disk ''b'', [Inr (), Inl ''rename''])"
  by (simp add: toy_toml_def toy_bookmark_disk_def toy_ops_def io_fine_def store_upsert_def store_delete_def
      load_or_bootstrap_def save_def upsert_def remove_bookmark_def default_store_def toy_store_def
      STORE_VERSION_def Let_def)

theorem bookmarks_refine_map_witness:
  "\<exists>st'. stored toy_toml (toy_bookmark_disk ''b'') = Some st' \<and>
     find_bookmark st' = (find_bookmark default_store)(''Test'' \<mapsto> toy_bookmark)"
proof -
  have "toml_ok toy_toml" by (auto simp: toml_ok_def toy_toml_def default_store_def toy_store_def)
  moreover have "stored toy_toml (toy_bookmark_disk ''a'') = Some default_store"
    by (simp add: stored_def toy_bookmark_disk_def toy_toml_def)
  moreover have "names_ok default_store" by (simp add: names_ok_def names_def default_store_def)
  ultimately show ?thesis
    using bookmarks_refine_map [OF _ _ _ toy_bookmark_run] by (auto simp: toy_ops_def is_ok_def)
qed

theorem unreadable_file_kept_witness:
  "fst (run_ops toy_toml (toy_bookmark_disk ''typo'') toy_ops) = toy_bookmark_disk ''typo''"
proof -
  have "\<exists>e. from_toml toy_toml ''typo'' = Inl e" by (simp add: toy_toml_def)
  then show ?thesis
    using unreadable_file_kept [of "toy_bookmark_disk ''typo''" "''typo''" toy_toml toy_ops]
    by (simp add: toy_bookmark_disk_def)
qed

end
