(* ===== verification/Spec2Isabelle.thy ===== *)
theory Spec2Isabelle
  imports Voice_Props Voice_Arbiter Tls_Trust_Props Macres_Props Cicn_Props Decode_Slots Media_Sniff
    Msg_Requests_Props Roster Session_Stores Client_Models Tracker_Fetch_Props Tracker_Props
    Htxf_Props Xfer_Folder_Props Xfer_Queue_Props Voice_Presence_Props Update_Props Bookmarks_Props
begin

text \<open>
  A verification library for GtkHx, a client for the Hotline protocol.

  \<^bold>\<open>The program.\<close>  GtkHx is a GTK application whose logic lives in Rust crates under
  \<^verbatim>\<open>src/rust/crates\<close>.  The crates with logic of their own are written without widgets so that they can be
  tested headless, and those are what this library models: the voice session machine (\<^verbatim>\<open>hxvoice\<close>) and the
  model of who is in the room (\<^verbatim>\<open>hxvoice-model\<close>), the certificate store (\<^verbatim>\<open>hxtls-trust\<close>), the tracker client and
  the file transfers (\<^verbatim>\<open>hxnet\<close>) with the registry and the queue that own them (\<^verbatim>\<open>hxhandlers\<close>), the
  resource-fork and icon readers (\<^verbatim>\<open>hxmacres\<close>), the slots and the gate of the image decoder
  (\<^verbatim>\<open>hx-image-decode\<close>), the message requests, the roster and the stores of a session (\<^verbatim>\<open>gtkhx-core\<close>), two
  of the models behind the views (\<^verbatim>\<open>hxmodel\<close>), the bookmarks (\<^verbatim>\<open>hxbookmarks\<close>), the update check (\<^verbatim>\<open>hxupdate\<close>),
  and of \<^verbatim>\<open>gtkhx-ui\<close> the microphone token, the update monitor and the bookmark store.  The voice runtime, the
  views and the connection layer feed events into these parts and carry out the actions they return; a
  transfer worker runs on a thread of its own over a subchannel of the connection and posts its progress
  to the registry on the main thread.

  \<^bold>\<open>Conventions.\<close>  A struct is a \<open>record\<close>, an enum a \<open>datatype\<close>, a machine integer a word of its width,
  a \<open>String\<close> the list of its UTF-8 bytes, a byte vector a list of 8-bit words.  A method that changes
  \<open>self\<close> takes the state and returns the new one, with the actions, outputs or result beside it; an
  early return is a branch, an \<open>Option\<close> an \<open>option\<close>, an I/O error a value.  A \<open>HashMap\<close> whose contents
  matter for evaluation is an association list without duplicate keys, another is a map.  \<open>usize\<close> is
  64 bits wide.  A socket is what its next reads meet and what was written to it; a thread or a peer
  that may interfere is a step relation.  Loops are structural recursion or have a termination proof;
  no definition uses fuel, except that the deadline of a finished upload is a number of reads.

  \<^bold>\<open>The theories.\<close>

  \<^item> \<open>Hx_Prelude\<close>: widths, big-endian words, the string and slice operations of the standard library
    the sources call, decimal numbers, and two interfaces.  \<open>event_machine\<close> is a step function with an
    invariant; \<open>monitored_machine\<close> adds an observer that sees only events and outputs, and a relation
    between it and the state.  They are interpreted by the voice machine, the message requests, the
    deliveries, the input history, the microphone token and the voice presence.
  \<^item> \<open>Hx_Text\<close>: lossy UTF-8 decoding, white space and case folding, with the lemmas that decoding is
    the identity on valid text and that valid text may be cut at ASCII characters.
  \<^item> \<open>Voice_Video\<close>, \<open>Voice_Types\<close>, \<open>Voice_State\<close>: \<^verbatim>\<open>hxvoice/src/video.rs\<close>, \<^verbatim>\<open>event.rs\<close> and \<^verbatim>\<open>action.rs\<close>,
    \<^verbatim>\<open>state.rs\<close>.  Every arm of \<open>SessionMachine::step\<close> is a definition \<open>step_...\<close>, and \<open>step\<close> dispatches
    to them as the source matches on state and event.
  \<^item> \<open>Voice_Inv\<close>: the invariant of the session machine and its preservation by every arm.
    \<open>Voice_Monitors\<close>: four observers of the machine: the server's view of the room, the state of the
    negotiation as webrtcbin sees it, the timers the runtime has armed, and the subscription frames.
    \<open>Voice_Props\<close>: the properties.
  \<^item> \<open>Tls_Trust\<close>, \<open>Tls_Trust_Props\<close>: \<^verbatim>\<open>hxtls-trust/src/lib.rs\<close> and the decision of \<^verbatim>\<open>ffi.rs\<close>.  A file is
    abstracted to the list of its entries; pin and lookup are shown to act on that list.
  \<^item> \<open>Macres\<close>, \<open>Macres_Props\<close>: \<^verbatim>\<open>hxmacres/src/lib.rs\<close>; \<open>encode_fork\<close> specifies the format and the
    reader is shown to invert it.
  \<^item> \<open>Cicn_Palette\<close>, \<open>Cicn\<close>, \<open>Cicn_Props\<close>: \<^verbatim>\<open>hxmacres/src/cicn.rs\<close> and its palettes; \<open>grid\<close> relates the
    pixel loops to the pixel at each position.
  \<^item> \<open>Decode_Slots\<close>: \<^verbatim>\<open>hx-image-decode/src/slots.rs\<close> as a step relation over any number of decode
    futures, with reachability and the invariant by rule induction.
  \<^item> \<open>Media_Sniff\<close>: \<^verbatim>\<open>sniff.rs\<close> and \<^verbatim>\<open>caps.rs\<close> of the same crate.
  \<^item> \<open>Msg_Requests\<close>, \<open>Msg_Requests_Props\<close>: \<^verbatim>\<open>gtkhx-core/src/messaging/requests.rs\<close>, with an observer of
    the pacing.  \<open>Roster\<close>: \<^verbatim>\<open>gtkhx-core/src/messaging.rs\<close>, over type variables for the states that
    \<^verbatim>\<open>hxproto\<close> defines.
  \<^item> \<open>Session_Stores\<close>: \<^verbatim>\<open>chat_registry.rs\<close> and \<^verbatim>\<open>media_table.rs\<close> of \<^verbatim>\<open>gtkhx-core\<close>; \<open>keyed_store\<close> is the
    contract of a store by key, interpreted on the registry.
  \<^item> \<open>Client_Models\<close>: \<^verbatim>\<open>input_history.rs\<close> and \<^verbatim>\<open>remote_listing.rs\<close> of \<^verbatim>\<open>hxmodel\<close>.
  \<^item> \<open>Voice_Arbiter\<close>: who holds the microphone across connections.
  \<^item> \<open>Tracker\<close>, \<open>Tracker_Props\<close>: \<^verbatim>\<open>hxnet/src/tracker.rs\<close>, the two listing formats and the version probe over
    a stream that may end, break or stay silent.  \<open>Tracker_Fetch\<close>, \<open>Tracker_Fetch_Props\<close>:
    \<^verbatim>\<open>tracker_fetch.rs\<close>, the walk over the configured trackers with its TLS verdicts.
  \<^item> \<open>Htxf\<close>, \<open>Htxf_Props\<close>: \<^verbatim>\<open>hxnet/src/htxf.rs\<close>, the framed subchannel and the cancellation token; the
    sealing of \<^verbatim>\<open>hxcrypto\<close> is a parameter, with its laws in \<open>aead_ok\<close>.
  \<^item> \<open>Xfer\<close>, \<open>Xfer_Folder\<close>, \<open>Xfer_Props\<close>, \<open>Xfer_Folder_Props\<close>: \<^verbatim>\<open>hxnet/src/xfer.rs\<close>, the copy loops of a file
    and of a folder in both directions over a disk; the header codec and the sidecar and resource-fork
    access of other repositories are a parameter, with their laws in \<open>ext_ok\<close>, \<open>ext_disk_ok\<close> and
    \<open>ext_local\<close>.
  \<^item> \<open>Xfer_Queue\<close>, \<open>Xfer_Machine\<close>: \<^verbatim>\<open>hxhandlers/src/xfer.rs\<close> with the transfer parts of its \<^verbatim>\<open>recv\<close> and
    \<^verbatim>\<open>send\<close> and \<^verbatim>\<open>hxnet/src/xfer_handle.rs\<close>: the list of transfers, pauses, retries, the queue positions of
    the server, and the four worker bodies.  Everything that happens to the registry is an event of the
    relation \<open>xfer_reachable\<close>; a worker takes one step when it returns, and what it met is an argument.
    \<open>Xfer_Refs\<close> counts the holders of a transfer (the list, its worker, posted updates, retry timers,
    requests in flight); \<open>Xfer_Queue_Inv\<close> and \<open>Xfer_Queue_Props\<close> hold the invariants and the properties.
    A transaction number is not used again while its request is in flight.
  \<^item> \<open>Voice_Presence\<close>, \<open>Voice_Presence_Props\<close>: \<^verbatim>\<open>hxvoice-model/src/lib.rs\<close>, with a view that only hears its
    signals; the record parsers and the iteration order of a hash map are a parameter.
  \<^item> \<open>Update_Check\<close>: \<^verbatim>\<open>hxupdate\<close>, versions with their order, the decision and the banner.
    \<open>Update_Monitor\<close>: the monitor of \<^verbatim>\<open>gtkhx-ui/src/updates.rs\<close> with the calls in flight and the timers, as a
    relation that counts its steps, so that the 32 bits of the generation are known not to wrap.
    \<open>Update_Props\<close>: the properties.
  \<^item> \<open>Bookmarks\<close>, \<open>Bookmarks_Props\<close>: \<^verbatim>\<open>hxbookmarks\<close> and \<^verbatim>\<open>gtkhx-ui/src/bookmark_store.rs\<close>; the TOML reader and
    writer are a parameter with the law \<open>toml_ok\<close>, and each step of a save may fail.

  \<^bold>\<open>What the properties show.\<close>  Properties are numbered C1, C2, ... in the text before each theorem.

  \<^item> Voice: after every sequence of events the machine keeps its invariant (C1); the frames it sends
    leave the server with the machine's own idea of the room (C2); webrtcbin is never asked for two
    answers at once (C7); timers are armed where the state owns them (C28); the subscription frames add
    up to the recorded set (C29); mids attribute receive pads (C34).  A view of the presence model
    shows what the model holds (C22), chimes and shares are announced exactly (C23), and the tables are
    bounded (C40).
  \<^item> Transfers: a folder download stays in its folder whatever the server names (C3); a file sent is the
    file received, both forks (C4); a sealed subchannel carries what was written (C10); a resumed
    download ends with the server's file (C16); the declared size of a folder entry is what follows it
    (C19); a cancelled worker sees it (C20).
  \<^item> Registry: a transfer's references are its holders (C5), the queue does not stall (C6), the rows,
    pauses and workers fit together (C15), a paused download resumes from what is on disk (C17), and
    requests in flight match their transfers (C18).
  \<^item> Trackers: the walk does not leave TLS on its own (C11) and reports every tracker (C21); listings
    round trip (C35) and take a bounded number of reads (C36).
  \<^item> Trust: a pin is found again and only it (C8), a mismatch is never accepted silently (C9), the
    write is all or nothing (C37).
  \<^item> Readers: the resource-fork round trip (C12) and the icon halo (C39).
  \<^item> Concurrency, pacing and stores: decode slots are bounded and never lost (C14); listings of message
    requests are paced (C13); conversations are destroyed exactly once (C38).
  \<^item> Bookmarks: through their file they are a map (C25), an unreadable file is kept (C26), and the legacy
    file round trips (C27).
  \<^item> Updates: versions are read exactly (C33) and the newest entry is announced (C30); one monitor is open at
    most (C24), a quiet update is given up (C32), and a \<open>Later\<close> survives a restart (C31).
  \<^item> Lemmas that are not numbered show more of the same parts, among them \<open>parse_mid_iff\<close>,
    \<open>voice_newest_offer_wins\<close>, \<open>voice_join_fresh\<close>, \<open>decide_remembers\<close>, \<open>truncated_frame_refused\<close>,
    \<open>slots_fifo\<close>, \<open>sniff_allowed_iff\<close>, \<open>chats_refine_map\<close>, \<open>microphone_token\<close> and \<open>listing_complete\<close>; others
    state behaviour that differs from a comment or from the evident intent, among them
    \<open>again_changed_holds_queue\<close>, \<open>inactive_before_mid_missed\<close>, \<open>voice_failed_renegotiation_timers\<close>,
    \<open>pin_ipv6_forgotten\<close>, \<open>pin_drops_any_port_entry\<close>, \<open>silent_tracker_holds_walk\<close>, \<open>reopen_may_leave_tls\<close>,
    \<open>read_after_failed_open\<close>, \<open>empty_data_fork_untouched\<close>, \<open>overall_percent_overflows\<close>,
    \<open>export_ipv6_loses_port\<close> and \<open>export_names_collide\<close>.

  \<^bold>\<open>Not modelled.\<close>  GStreamer pipelines, widgets, sockets, D-Bus and the C ABI shims, which only carry data
  in and out; \<^verbatim>\<open>hxproto\<close>, \<^verbatim>\<open>hxhope\<close>, \<^verbatim>\<open>hxcrypto\<close>, \<^verbatim>\<open>hxfiles\<close> and \<^verbatim>\<open>hxhfs\<close>, which live in other repositories
  and are parameters where the models call them; the C sources.  The life cycle of a connection
  (\<^verbatim>\<open>hxnet/src/lifecycle.rs\<close>, \<^verbatim>\<open>session.rs\<close>, \<^verbatim>\<open>login.rs\<close>) hands its decisions to \<^verbatim>\<open>hxhope\<close> and \<^verbatim>\<open>hxproto\<close>; the rest
  of \<^verbatim>\<open>hxmodel\<close>, \<^verbatim>\<open>hxconfig\<close> and \<^verbatim>\<open>hxrequest\<close>, and the calendar computation behind the date of a pin, are left out.
\<close>

end
